theory Spec2Isabelle
  imports Complex_Main "HOL-Library.Stream"
begin

section \<open>Numbers, randomness and results\<close>

text \<open>
  The simulation is written in TypeScript. Its \<^verbatim>\<open>number\<close> values are modelled as real
  numbers: arithmetic is exact and every value is finite. The program computes in IEEE
  doubles, so a value of the model and the value of the program can differ by rounding;
  a statement that holds with equality in the model (a state of charge that lands exactly
  on its bound) is a statement about exact arithmetic only. Where the source can leave the
  finite numbers in the asset physics, in the target of a tick or in a command (a division
  whose denominator is zero, arithmetic on a field that the object does not have,
  \<^verbatim>\<open>Math.pow\<close> of a negative base with a fractional exponent), the JavaScript value is
  NaN or an infinity; the model then stops with \<open>Inl NotFinite\<close>, which stands for such
  a value, and does not follow the computation further. The ordering scores of the
  strategies and the progress of the event are followed further: they are values of
  \<open>js_number\<close>, which has NaN and the two infinities beside the finite numbers. \<open>Inl TypeError\<close> is the exception
  JavaScript throws on reading a property of \<^verbatim>\<open>undefined\<close>.

  \<^verbatim>\<open>Math.random()\<close> is a global generator. The model threads the sequence of its
  future outcomes explicitly: every function that draws takes the stream and returns the
  rest of it.
\<close>

datatype js_error = NotFinite | TypeError

type_synonym 'a result = "js_error + 'a"

type_synonym rng = "real stream"

definition Math_random :: "rng \<Rightarrow> real \<times> rng" where
  "Math_random g = (shd g, stl g)"

definition Math_round :: "real \<Rightarrow> real" where
  "Math_round x = of_int \<lfloor>x + 1 / 2\<rfloor>"

text \<open>
  A \<^verbatim>\<open>number\<close> that may be NaN or infinite, with the operations the ordering
  scores and the ramp-up need: the product with a finite number, the sum, the quotient by
  a finite number (which may be 0) and \<^verbatim>\<open>Math.min\<close> with a finite number.
  \<open>js_before a b\<close> says that the comparator \<^verbatim>\<open>(a, b) => b.score - a.score\<close> returns a
  negative number for the scores \<open>a\<close> and \<open>b\<close>; it is false whenever the difference
  is NaN.
\<close>

datatype js_number = Fin real | PosInf | NegInf | NaN

fun js_scale :: "js_number \<Rightarrow> real \<Rightarrow> js_number" where
  "js_scale (Fin x) r = Fin (x * r)"
| "js_scale PosInf r = (if r > 0 then PosInf else if r < 0 then NegInf else NaN)"
| "js_scale NegInf r = (if r > 0 then NegInf else if r < 0 then PosInf else NaN)"
| "js_scale NaN r = NaN"

fun js_add :: "js_number \<Rightarrow> js_number \<Rightarrow> js_number" where
  "js_add (Fin x) (Fin y) = Fin (x + y)"
| "js_add NaN b = NaN"
| "js_add a NaN = NaN"
| "js_add PosInf NegInf = NaN"
| "js_add NegInf PosInf = NaN"
| "js_add PosInf b = PosInf"
| "js_add a PosInf = PosInf"
| "js_add NegInf b = NegInf"
| "js_add a NegInf = NegInf"

fun js_div :: "js_number \<Rightarrow> real \<Rightarrow> js_number" where
  "js_div (Fin x) r =
     (if r \<noteq> 0 then Fin (x / r) else if x > 0 then PosInf else if x < 0 then NegInf else NaN)"
| "js_div PosInf r = (if r < 0 then NegInf else PosInf)"
| "js_div NegInf r = (if r < 0 then PosInf else NegInf)"
| "js_div NaN r = NaN"

fun js_min :: "real \<Rightarrow> js_number \<Rightarrow> js_number" where
  "js_min r (Fin x) = Fin (min r x)"
| "js_min r PosInf = Fin r"
| "js_min r NegInf = NegInf"
| "js_min r NaN = NaN"

fun js_before :: "js_number \<Rightarrow> js_number \<Rightarrow> bool" where
  "js_before (Fin x) (Fin y) = (y < x)"
| "js_before (Fin x) NegInf = True"
| "js_before PosInf (Fin y) = True"
| "js_before PosInf NegInf = True"
| "js_before a b = False"

definition TIMESTEP_MINUTES :: real where
  "TIMESTEP_MINUTES = 5"

definition TIMESTEP_HOURS :: real where
  "TIMESTEP_HOURS = TIMESTEP_MINUTES / 60"

section \<open>Data model (types.ts)\<close>

text \<open>
  Field names follow the source. Where two interfaces of the source use the same field
  name, the later record prefixes it (\<open>ev_\<close>, \<open>veh_\<close>, \<open>ci_\<close>, \<open>res_\<close>, \<open>ctx_\<close>,
  \<open>eng_\<close>); \<open>id\<close> is written \<open>id'\<close>. The three fields that every asset state
  carries (\<open>dropped\<close>, \<open>baseline_bias\<close>, \<open>baseline_drift\<close>) form the record
  \<open>AssetState\<close>, which the five state records extend.
\<close>

record BaselineError =
  sigma_bias :: real
  sigma_drift :: real
  rho :: real

record MeasurementNoise =
  pct_uniform :: real

record Noncompliance =
  probability :: real

record Weather =
  outdoor_temp_f :: "real list"

record Objective =
  target_kw :: "real option"

text \<open>
  \<open>start_hour\<close> stands for \<^verbatim>\<open>new Date(config.start_time).getHours()\<close>, the only use
  the engine makes of \<^verbatim>\<open>start_time\<close> besides formatting the display string.
\<close>

record ScenarioConfig =
  start_hour :: real
  timesteps :: nat
  weather :: Weather
  objective :: Objective
  baseline_error :: BaselineError
  measurement_noise :: MeasurementNoise
  noncompliance :: Noncompliance

datatype AssetType = hvac_resi | battery_resi | ev_resi | fleet_site | ci_building

record AssetState =
  dropped :: bool
  baseline_bias :: real
  baseline_drift :: real

record ('p, 's) asset =
  id' :: string
  params :: 'p
  state :: 's

datatype hvac_mode = cooling | heating

record HvacResiParams =
  mode :: hvac_mode
  pref_setpoint_f :: real
  comfort_max_f :: real
  comfort_min_f :: real
  alpha :: real
  beta :: real
  hvac_kw :: real
  deadband_f :: real

record HvacResiState = AssetState +
  tin_f :: real
  hvac_on :: bool
  setpoint_f :: real

type_synonym HvacResi = "(HvacResiParams, HvacResiState) asset"

record BatteryResiParams =
  e_kwh :: real
  p_dis_kw :: real
  p_ch_kw :: real
  soc_reserve :: real

record BatteryResiState = AssetState +
  soc :: real

type_synonym BatteryResi = "(BatteryResiParams, BatteryResiState) asset"

datatype charger_level = L1 | L2

record EvResiParams =
  ev_charger_level :: charger_level
  ev_p_max_kw :: real
  ev_e_req_kwh :: real
  ev_e_capacity_kwh :: real
  ev_t_arrival :: real
  ev_t_depart :: real

record EvResiState = AssetState +
  ev_e_kwh :: real
  ev_plugged :: bool
  override_active :: bool

type_synonym EvResi = "(EvResiParams, EvResiState) asset"

record FleetVehicle =
  veh_id :: string
  veh_p_max_kw :: real
  veh_e_req_kwh :: real
  veh_e_capacity_kwh :: real
  veh_t_arrival :: real
  veh_t_depart :: real

record FleetVehicleState =
  veh_e_kwh :: real
  veh_plugged :: bool

record FleetSiteParams =
  u_site_max_kw :: real
  vehicles :: "FleetVehicle list"

record FleetSiteState = AssetState +
  vehicle_state :: "string \<rightharpoonup> FleetVehicleState"

type_synonym FleetSite = "(FleetSiteParams, FleetSiteState) asset"

record CiBuildingParams =
  smax_hvac_kw :: real
  fatigue_k :: real
  fatigue_a :: real
  fatigue_b :: real
  process_load_kw :: real
  max_process_toggles :: int
  business_start_hour :: real
  business_end_hour :: real

record CiBuildingState = AssetState +
  fatigue :: real
  hvac_shed_kw :: real
  process_on :: bool
  process_toggles_used :: int

type_synonym CiBuilding = "(CiBuildingParams, CiBuildingState) asset"

datatype Asset =
    Hvac HvacResi
  | Battery BatteryResi
  | Ev EvResi
  | Fleet FleetSite
  | Ci CiBuilding

fun asset_type :: "Asset \<Rightarrow> AssetType" where
  "asset_type (Hvac a) = hvac_resi"
| "asset_type (Battery a) = battery_resi"
| "asset_type (Ev a) = ev_resi"
| "asset_type (Fleet a) = fleet_site"
| "asset_type (Ci a) = ci_building"

fun asset_id :: "Asset \<Rightarrow> string" where
  "asset_id (Hvac a) = id' a"
| "asset_id (Battery a) = id' a"
| "asset_id (Ev a) = id' a"
| "asset_id (Fleet a) = id' a"
| "asset_id (Ci a) = id' a"

fun asset_dropped :: "Asset \<Rightarrow> bool" where
  "asset_dropped (Hvac a) = dropped (state a)"
| "asset_dropped (Battery a) = dropped (state a)"
| "asset_dropped (Ev a) = dropped (state a)"
| "asset_dropped (Fleet a) = dropped (state a)"
| "asset_dropped (Ci a) = dropped (state a)"

text \<open>
  The five command variants. At run time a command is an object, and the update function
  of an asset type reads the fields it expects whatever the variant is: a field the
  object does not have reads as \<^verbatim>\<open>undefined\<close>, here \<open>None\<close>.
\<close>

datatype AssetCommand =
    HvacCommand real
  | BatteryCommand real
  | EvCommand real
  | FleetCommand real
  | CiBuildingCommand real bool

fun cmd_delta_setpoint_f :: "AssetCommand \<Rightarrow> real option" where
  "cmd_delta_setpoint_f (HvacCommand d) = Some d"
| "cmd_delta_setpoint_f _ = None"

fun cmd_power_kw :: "AssetCommand \<Rightarrow> real option" where
  "cmd_power_kw (BatteryCommand p) = Some p"
| "cmd_power_kw (EvCommand p) = Some p"
| "cmd_power_kw _ = None"

fun cmd_site_power_cap_kw :: "AssetCommand \<Rightarrow> real option" where
  "cmd_site_power_cap_kw (FleetCommand c) = Some c"
| "cmd_site_power_cap_kw _ = None"

fun cmd_hvac_shed_kw :: "AssetCommand \<Rightarrow> real option" where
  "cmd_hvac_shed_kw (CiBuildingCommand s on) = Some s"
| "cmd_hvac_shed_kw _ = None"

fun cmd_process_on :: "AssetCommand \<Rightarrow> bool option" where
  "cmd_process_on (CiBuildingCommand s on) = Some on"
| "cmd_process_on _ = None"

fun command_matches :: "Asset \<Rightarrow> AssetCommand \<Rightarrow> bool" where
  "command_matches (Hvac a) (HvacCommand d) = True"
| "command_matches (Battery a) (BatteryCommand p) = True"
| "command_matches (Ev a) (EvCommand p) = True"
| "command_matches (Fleet a) (FleetCommand c) = True"
| "command_matches (Ci a) (CiBuildingCommand s on) = True"
| "command_matches _ _ = False"

record DispatchCommand =
  asset_id_of :: string
  command :: AssetCommand

section \<open>Asset physics (AssetModels.ts)\<close>

subsection \<open>Helper functions\<close>

definition applyMeasurementNoise :: "real \<Rightarrow> real \<Rightarrow> rng \<Rightarrow> real \<times> rng" where
  "applyMeasurementNoise v noisePct g =
     (let (u, g') = Math_random g;
          noise = 1 + (u * 2 - 1) * noisePct
      in (v * noise, g'))"

definition updateBaselineDrift :: "real \<Rightarrow> real \<Rightarrow> real \<Rightarrow> rng \<Rightarrow> real \<times> rng" where
  "updateBaselineDrift currentDrift rho' sigmaDrift g =
     (let (u, g') = Math_random g;
          innovation = (u * 2 - 1) * sigmaDrift
      in (rho' * currentDrift + innovation, g'))"

definition rollNoncompliance :: "real \<Rightarrow> rng \<Rightarrow> bool \<times> rng" where
  "rollNoncompliance prob g = (let (u, g') = Math_random g in (u < prob, g'))"

text \<open>
  Every update function guards the use of its command with
  \<^verbatim>\<open>command && !rollNoncompliance(config.noncompliance.probability)\<close>: the roll is drawn
  only when there is a command. \<open>honoured\<close> is that expression: the command if it is to
  be applied, and the generator after the roll.
\<close>

definition honoured :: "AssetCommand option \<Rightarrow> ScenarioConfig \<Rightarrow> rng \<Rightarrow> AssetCommand option \<times> rng" where
  "honoured cmd config g =
     (case cmd of
        None \<Rightarrow> (None, g)
      | Some c \<Rightarrow>
          (let (nc, g') = rollNoncompliance (probability (noncompliance config)) g
           in (if nc then None else Some c, g')))"

subsection \<open>Residential HVAC\<close>

definition updateHvacResi ::
  "HvacResi \<Rightarrow> AssetCommand option \<Rightarrow> real \<Rightarrow> ScenarioConfig \<Rightarrow> rng \<Rightarrow> (HvacResi \<times> real) result \<times> rng" where
  "updateHvacResi a cmd outdoorTemp config g =
     (let st = state a; p = params a in
      if dropped st then (Inr (a, 0), g)
      else
        let (c, g1) = honoured cmd config g in
        case (case c of
                None \<Rightarrow> Inr (setpoint_f st)
              | Some c' \<Rightarrow>
                  (case cmd_delta_setpoint_f c' of
                     None \<Rightarrow> Inl NotFinite
                   | Some d \<Rightarrow> Inr (pref_setpoint_f p + d))) of
          Inl e \<Rightarrow> (Inl e, g1)
        | Inr sp \<Rightarrow>
            (let leakage = alpha p * (outdoorTemp - tin_f st);
                 hvacEffect = (if hvac_on st then beta p else 0);
                 tin = tin_f st + leakage + hvacEffect;
                 isCooling = (mode p = cooling);
                 on = (if isCooling
                       then (if tin > sp + deadband_f p then True
                             else if tin < sp - deadband_f p then False
                             else hvac_on st)
                       else (if tin < sp - deadband_f p then True
                             else if tin > sp + deadband_f p then False
                             else hvac_on st));
                 drp = (if isCooling \<and> tin > comfort_max_f p then True
                        else if \<not> isCooling \<and> tin < comfort_min_f p then True
                        else dropped st);
                 (drift, g2) = updateBaselineDrift (baseline_drift st)
                                 (rho (baseline_error config)) (sigma_drift (baseline_error config)) g1;
                 actualPower = (if on then hvac_kw p else 0);
                 baselinePower = hvac_kw p;
                 baselineAdjusted = baselinePower * (1 + baseline_bias st + drift);
                 (powerDelta, g3) = applyMeasurementNoise (baselineAdjusted - actualPower)
                                      (pct_uniform (measurement_noise config)) g2
             in (Inr (a\<lparr>state := st\<lparr>dropped := drp, baseline_drift := drift,
                                      tin_f := tin, hvac_on := on, setpoint_f := sp\<rparr>\<rparr>,
                      max 0 powerDelta), g3)))"

subsection \<open>Residential battery\<close>

text \<open>
  The command's \<^verbatim>\<open>power_kw\<close> is compared with 0 before any arithmetic; both
  comparisons are false on \<^verbatim>\<open>undefined\<close>, so a command without that field leaves
  the battery idle. Both branches divide by \<^verbatim>\<open>params.e_kwh\<close>.
  \<open>batteryPowerStep\<close> is the body of the command branch: the new state of charge and
  \<^verbatim>\<open>powerOutput\<close>. The source bounds the power by the energy above the reserve (below
  full) and then converts the power back into a state of charge; it does not clamp the
  state of charge itself. Over the real numbers of the model a step that uses the whole
  bound lands exactly on the reserve (on 1); in the doubles of the program the two
  conversions round, and the result can lie one rounding step beyond the bound.
\<close>

definition batteryPowerStep :: "BatteryResiParams \<Rightarrow> real \<Rightarrow> real option \<Rightarrow> (real \<times> real) result" where
  "batteryPowerStep p soc0 requested =
     (case requested of
        None \<Rightarrow> Inr (soc0, 0)
      | Some requestedPower \<Rightarrow>
          if requestedPower > 0 then
            (if e_kwh p = 0 then Inl NotFinite
             else
               let maxDischarge = min (p_dis_kw p) ((soc0 - soc_reserve p) * e_kwh p / TIMESTEP_HOURS);
                   powerOutput = min requestedPower (max 0 maxDischarge)
               in Inr (soc0 - (powerOutput * TIMESTEP_HOURS) / e_kwh p, powerOutput))
          else if requestedPower < 0 then
            (if e_kwh p = 0 then Inl NotFinite
             else
               let maxCharge = min (p_ch_kw p) ((1 - soc0) * e_kwh p / TIMESTEP_HOURS);
                   chargeRate = min (- requestedPower) maxCharge
               in Inr (soc0 + (chargeRate * TIMESTEP_HOURS) / e_kwh p, - chargeRate))
          else Inr (soc0, 0))"

definition updateBatteryResi ::
  "BatteryResi \<Rightarrow> AssetCommand option \<Rightarrow> ScenarioConfig \<Rightarrow> rng \<Rightarrow> (BatteryResi \<times> real) result \<times> rng" where
  "updateBatteryResi a cmd config g =
     (let st = state a; p = params a in
      if dropped st then (Inr (a, 0), g)
      else
        let (c, g1) = honoured cmd config g in
        case batteryPowerStep p (soc st) (case c of None \<Rightarrow> None | Some c' \<Rightarrow> cmd_power_kw c') of
          Inl e \<Rightarrow> (Inl e, g1)
        | Inr (soc', powerOutput) \<Rightarrow>
            (let (drift, g2) = updateBaselineDrift (baseline_drift st)
                                 (rho (baseline_error config)) (sigma_drift (baseline_error config)) g1;
                 (powerDelta, g3) = applyMeasurementNoise (if powerOutput > 0 then powerOutput else 0)
                                      (pct_uniform (measurement_noise config)) g2
             in (Inr (a\<lparr>state := st\<lparr>baseline_drift := drift, soc := soc'\<rparr>\<rparr>, powerDelta), g3)))"

subsection \<open>Residential EV\<close>

text \<open>
  \<open>evCharge\<close> is the tail of \<^verbatim>\<open>updateEvResi\<close> from \<^verbatim>\<open>// Update battery\<close> on,
  for the state \<open>st\<close> reached so far and the charge rate chosen.
\<close>

definition evCharge :: "EvResi \<Rightarrow> EvResiState \<Rightarrow> real \<Rightarrow> ScenarioConfig \<Rightarrow> rng \<Rightarrow> (EvResi \<times> real) \<times> rng" where
  "evCharge a st chargePower config g =
     (let p = params a;
          chargeEnergy = chargePower * TIMESTEP_HOURS;
          e = min (ev_e_kwh st + chargeEnergy) (ev_e_capacity_kwh p);
          (drift, g2) = updateBaselineDrift (baseline_drift st)
                          (rho (baseline_error config)) (sigma_drift (baseline_error config)) g;
          baselinePower = ev_p_max_kw p * (1 + baseline_bias st + drift);
          (powerDelta, g3) = applyMeasurementNoise (baselinePower - chargePower)
                               (pct_uniform (measurement_noise config)) g2
      in ((a\<lparr>state := st\<lparr>baseline_drift := drift, ev_e_kwh := e\<rparr>\<rparr>, max 0 powerDelta), g3))"

text \<open>
  \<open>deadlinePressure\<close> is the deadline test of \<^verbatim>\<open>updateEvResi\<close>, for an EV with the
  energy \<open>e\<close> on board at tick \<open>t\<close>.
\<close>

definition deadlinePressure :: "EvResiParams \<Rightarrow> real \<Rightarrow> nat \<Rightarrow> bool" where
  "deadlinePressure p e currentTimestep =
     (let remainingSteps = ev_t_depart p - real currentTimestep;
          remainingEnergy = ev_e_req_kwh p - e;
          maxPossibleEnergy = ev_p_max_kw p * remainingSteps * TIMESTEP_HOURS
      in remainingEnergy > 0 \<and> maxPossibleEnergy \<le> remainingEnergy * 1.1)"

definition updateEvResi ::
  "EvResi \<Rightarrow> AssetCommand option \<Rightarrow> nat \<Rightarrow> ScenarioConfig \<Rightarrow> rng \<Rightarrow> (EvResi \<times> real) result \<times> rng" where
  "updateEvResi a cmd currentTimestep config g =
     (let st = state a; p = params a in
      if dropped st then (Inr (a, 0), g)
      else
        let st1 = (if real currentTimestep \<ge> ev_t_arrival p \<and> \<not> ev_plugged st
                   then st\<lparr>ev_plugged := True\<rparr> else st) in
        if real currentTimestep \<ge> ev_t_depart p
        then (Inr (a\<lparr>state := st1\<lparr>dropped := True, ev_plugged := False\<rparr>\<rparr>, 0), g)
        else if \<not> ev_plugged st1 then (Inr (a\<lparr>state := st1\<rparr>, 0), g)
        else
          let st2 = (if deadlinePressure p (ev_e_kwh st1) currentTimestep
                     then st1\<lparr>override_active := True\<rparr> else st1)
          in
          if override_active st2
          then (let (r, g') = evCharge a st2 (ev_p_max_kw p) config g in (Inr r, g'))
          else
            let (c, g1) = honoured cmd config g in
            case c of
              None \<Rightarrow> (let (r, g') = evCharge a st2 (ev_p_max_kw p) config g1 in (Inr r, g'))
            | Some c' \<Rightarrow>
                (case cmd_power_kw c' of
                   None \<Rightarrow> (Inl NotFinite, g1)
                 | Some pw \<Rightarrow>
                     (let (r, g') = evCharge a st2 (max 0 (min pw (ev_p_max_kw p))) config g1
                      in (Inr r, g'))))"

subsection \<open>Fleet site\<close>

text \<open>
  The first loop reads \<^verbatim>\<open>state.vehicle_state[vehicle.id]\<close> for every vehicle of the
  parameters and sets its \<^verbatim>\<open>plugged\<close> flag; a vehicle without an entry makes the
  function throw, in this loop or in the filter after it. The second loop computes the urgencies of the plugged vehicles that still need
  energy, the third allocates the site power. The states are kept in a map by vehicle id,
  as in the source, so a vehicle id that occurs twice addresses one state.
\<close>

fun fleetPlug :: "nat \<Rightarrow> FleetVehicle list \<Rightarrow> (string \<rightharpoonup> FleetVehicleState) \<Rightarrow> (string \<rightharpoonup> FleetVehicleState) result" where
  "fleetPlug t [] vs = Inr vs"
| "fleetPlug t (v # rest) vs =
     (case vs (veh_id v) of
        None \<Rightarrow> Inl TypeError
      | Some vState \<Rightarrow>
          (let s1 = (if real t \<ge> veh_t_arrival v \<and> \<not> veh_plugged vState
                     then vState\<lparr>veh_plugged := True\<rparr> else vState);
               s2 = (if real t \<ge> veh_t_depart v then s1\<lparr>veh_plugged := False\<rparr> else s1)
           in fleetPlug t rest (vs(veh_id v \<mapsto> s2))))"

definition fleetNeedy :: "nat \<Rightarrow> (string \<rightharpoonup> FleetVehicleState) \<Rightarrow> FleetVehicle \<Rightarrow> bool" where
  "fleetNeedy t vs v =
     (case vs (veh_id v) of
        None \<Rightarrow> False
      | Some s \<Rightarrow> veh_plugged s \<and> veh_e_kwh s < veh_e_req_kwh v \<and> real t < veh_t_depart v)"

definition fleetUrgency :: "nat \<Rightarrow> (string \<rightharpoonup> FleetVehicleState) \<Rightarrow> FleetVehicle \<Rightarrow> real" where
  "fleetUrgency t vs v =
     (case vs (veh_id v) of
        None \<Rightarrow> 0
      | Some s \<Rightarrow>
          (let remainingEnergy = veh_e_req_kwh v - veh_e_kwh s;
               remainingTime = max 1 (veh_t_depart v - real t) * TIMESTEP_HOURS
           in remainingEnergy / remainingTime))"

fun fleetAllocate ::
  "real \<Rightarrow> real \<Rightarrow> (string \<rightharpoonup> real) \<Rightarrow> nat \<Rightarrow> FleetVehicle list \<Rightarrow>
   (string \<rightharpoonup> FleetVehicleState) \<Rightarrow> real \<Rightarrow> ((string \<rightharpoonup> FleetVehicleState) \<times> real) result" where
  "fleetAllocate sitePowerCap totalUrgency urgencies n [] vs actualSitePower = Inr (vs, actualSitePower)"
| "fleetAllocate sitePowerCap totalUrgency urgencies n (v # rest) vs actualSitePower =
     (case (vs (veh_id v), urgencies (veh_id v)) of
        (Some s, Some u) \<Rightarrow>
          (let proportion = (if totalUrgency > 0 then u / totalUrgency else 1 / real n);
               allocatedPower = min (veh_p_max_kw v) (proportion * sitePowerCap);
               chargeEnergy = allocatedPower * TIMESTEP_HOURS;
               s' = s\<lparr>veh_e_kwh := min (veh_e_kwh s + chargeEnergy) (veh_e_capacity_kwh v)\<rparr>
           in fleetAllocate sitePowerCap totalUrgency urgencies n rest
                (vs(veh_id v \<mapsto> s')) (actualSitePower + allocatedPower))
      | _ \<Rightarrow> Inl TypeError)"

definition updateFleetSite ::
  "FleetSite \<Rightarrow> AssetCommand option \<Rightarrow> nat \<Rightarrow> ScenarioConfig \<Rightarrow> rng \<Rightarrow> (FleetSite \<times> real) result \<times> rng" where
  "updateFleetSite a cmd currentTimestep config g =
     (let st = state a; p = params a in
      if dropped st then (Inr (a, 0), g)
      else
        case fleetPlug currentTimestep (vehicles p) (vehicle_state st) of
          Inl e \<Rightarrow> (Inl e, g)
        | Inr vs1 \<Rightarrow>
            (let (c, g1) = honoured cmd config g in
             case (case c of
                     None \<Rightarrow> Inr (u_site_max_kw p)
                   | Some c' \<Rightarrow>
                       (case cmd_site_power_cap_kw c' of
                          None \<Rightarrow> Inl NotFinite
                        | Some cap \<Rightarrow> Inr (max 0 (min cap (u_site_max_kw p))))) of
               Inl e \<Rightarrow> (Inl e, g1)
             | Inr sitePowerCap \<Rightarrow>
                 (let pluggedVehicles = filter (fleetNeedy currentTimestep vs1) (vehicles p);
                      urgencies = map_of (rev (map (\<lambda>v. (veh_id v, fleetUrgency currentTimestep vs1 v))
                                                   pluggedVehicles));
                      totalUrgency = sum_list (map (fleetUrgency currentTimestep vs1) pluggedVehicles)
                  in case fleetAllocate sitePowerCap totalUrgency urgencies (length pluggedVehicles)
                            pluggedVehicles vs1 0 of
                       Inl e \<Rightarrow> (Inl e, g1)
                     | Inr (vs2, actualSitePower) \<Rightarrow>
                         (let (drift, g2) = updateBaselineDrift (baseline_drift st)
                                              (rho (baseline_error config))
                                              (sigma_drift (baseline_error config)) g1;
                              baselinePower = u_site_max_kw p * 0.7 * (1 + baseline_bias st + drift);
                              (powerDelta, g3) = applyMeasurementNoise (baselinePower - actualSitePower)
                                                   (pct_uniform (measurement_noise config)) g2
                          in (Inr (a\<lparr>state := st\<lparr>baseline_drift := drift, vehicle_state := vs2\<rparr>\<rparr>,
                                   max 0 powerDelta), g3)))))"

subsection \<open>C&I building\<close>

text \<open>The remainder operator \<^verbatim>\<open>%\<close> of JavaScript truncates the quotient towards zero.\<close>

definition js_rem :: "real \<Rightarrow> real \<Rightarrow> real" where
  "js_rem x m = x - m * of_int (if 0 \<le> x / m then \<lfloor>x / m\<rfloor> else \<lceil>x / m\<rceil>)"

text \<open>
  \<open>ciShed\<close> is the block from \<^verbatim>\<open>// HVAC shed with fatigue\<close> to the fatigue update:
  the shed applied and the new fatigue. It divides by \<^verbatim>\<open>params.smax_hvac_kw\<close>.
\<close>

definition ciShed :: "CiBuildingParams \<Rightarrow> real \<Rightarrow> real \<Rightarrow> (real \<times> real) result" where
  "ciShed p fatigue0 targetHvacShed =
     (let availableCapacity = smax_hvac_kw p * exp (- fatigue_k p * fatigue0);
          actualShed = min targetHvacShed availableCapacity
      in if smax_hvac_kw p = 0 then Inl NotFinite
         else
           let shedRatio = actualShed / smax_hvac_kw p
           in Inr (actualShed,
                   max 0 (fatigue0 + fatigue_a p * shedRatio - fatigue_b p * (1 - shedRatio))))"

definition updateCiBuilding ::
  "CiBuilding \<Rightarrow> AssetCommand option \<Rightarrow> nat \<Rightarrow> real \<Rightarrow> ScenarioConfig \<Rightarrow> rng \<Rightarrow> (CiBuilding \<times> real) result \<times> rng" where
  "updateCiBuilding a cmd currentTimestep startHour config g =
     (let st = state a; p = params a in
      if dropped st then (Inr (a, 0), g)
      else
        let currentHour = js_rem (startHour + real currentTimestep * (TIMESTEP_MINUTES / 60)) 24;
            isBusinessHours = (currentHour \<ge> business_start_hour p \<and> currentHour < business_end_hour p);
            (c, g1) = honoured cmd config g
        in
        case (case c of
                None \<Rightarrow> Inr (0, process_on st)
              | Some c' \<Rightarrow>
                  (case (cmd_hvac_shed_kw c', cmd_process_on c') of
                     (Some shed, Some on) \<Rightarrow> Inr (shed, on)
                   | _ \<Rightarrow> Inl NotFinite)) of
          Inl e \<Rightarrow> (Inl e, g1)
        | Inr (targetHvacShed, targetProcessOn) \<Rightarrow>
            (case ciShed p (fatigue st) targetHvacShed of
               Inl e \<Rightarrow> (Inl e, g1)
             | Inr (actualShed, fatigue') \<Rightarrow>
                 (let st1 = st\<lparr>fatigue := fatigue', hvac_shed_kw := actualShed\<rparr> in
                  if fatigue' > 2 then (Inr (a\<lparr>state := st1\<lparr>dropped := True\<rparr>\<rparr>, 0), g1)
                  else
                    let st2 = (if targetProcessOn \<noteq> process_on st1
                                  \<and> process_toggles_used st1 < max_process_toggles p
                                  \<and> (\<not> isBusinessHours \<or> process_toggles_used st1 > 0)
                               then st1\<lparr>process_on := targetProcessOn,
                                        process_toggles_used := process_toggles_used st1 + 1\<rparr>
                               else st1);
                        processLoadDelta = (if \<not> process_on st2 then process_load_kw p else 0);
                        (drift, g2) = updateBaselineDrift (baseline_drift st2)
                                        (rho (baseline_error config))
                                        (sigma_drift (baseline_error config)) g1;
                        (powerDelta, g3) = applyMeasurementNoise (actualShed + processLoadDelta)
                                             (pct_uniform (measurement_noise config)) g2
                    in (Inr (a\<lparr>state := st2\<lparr>baseline_drift := drift\<rparr>\<rparr>, max 0 powerDelta), g3))))"

subsection \<open>Unified update function\<close>

text \<open>
  \<^verbatim>\<open>updateAsset\<close> switches on \<^verbatim>\<open>asset.type\<close> and hands the command to the update
  function of that type under a type assertion (\<^verbatim>\<open>command as HvacCommand | null\<close>),
  which does nothing at run time. Its \<^verbatim>\<open>default\<close> branch is not reachable for a value
  of the union type \<^verbatim>\<open>Asset\<close>.
\<close>

definition lift_result :: "('a \<Rightarrow> Asset) \<Rightarrow> ('a \<times> real) result \<times> rng \<Rightarrow> (Asset \<times> real) result \<times> rng" where
  "lift_result C r =
     (case r of (Inl e, g) \<Rightarrow> (Inl e, g) | (Inr (a, d), g) \<Rightarrow> (Inr (C a, d), g))"

fun updateAsset ::
  "Asset \<Rightarrow> AssetCommand option \<Rightarrow> nat \<Rightarrow> real \<Rightarrow> real \<Rightarrow> ScenarioConfig \<Rightarrow> rng \<Rightarrow> (Asset \<times> real) result \<times> rng" where
  "updateAsset (Hvac a) cmd currentTimestep outdoorTemp startHour config g =
     lift_result Hvac (updateHvacResi a cmd outdoorTemp config g)"
| "updateAsset (Battery a) cmd currentTimestep outdoorTemp startHour config g =
     lift_result Battery (updateBatteryResi a cmd config g)"
| "updateAsset (Ev a) cmd currentTimestep outdoorTemp startHour config g =
     lift_result Ev (updateEvResi a cmd currentTimestep config g)"
| "updateAsset (Fleet a) cmd currentTimestep outdoorTemp startHour config g =
     lift_result Fleet (updateFleetSite a cmd currentTimestep config g)"
| "updateAsset (Ci a) cmd currentTimestep outdoorTemp startHour config g =
     lift_result Ci (updateCiBuilding a cmd currentTimestep startHour config g)"

section \<open>Strategy configuration (types.ts)\<close>

datatype DecisionFramework = deterministic_policy | greedy_myopic | stochastic | feedback_control

datatype FrameworkSubtype =
    static_priority | threshold_triggered | state_machine | scenario_tree
  | max_capacity_now | min_risk_now | best_efficiency_now
  | expected_value | chance_constrained | monte_carlo_weighted
  | error_correction | adaptive_weighting | pid_like_control

datatype ObjectiveFunction =
  capacity | risk_minimization | efficiency | regret_minimization | learning_oriented

datatype SelectionOrdering =
    batteries_first | hvac_first | high_load_reduction_first | balanced_weighting
  | highest_trust_score | lowest_variance | best_historical_delivery
  | highest_headroom | lowest_marginal_comfort_cost | highest_soc_buffer
  | least_recently_dispatched | round_robin | fatigue_balanced

datatype RiskPosture = risk_averse | neutral | opportunity_seeking | deadline_aware

datatype FeedbackMode = none | closed_loop | post_event_learning

record StrategyConfig =
  decisionFramework :: DecisionFramework
  frameworkSubtype :: FrameworkSubtype
  sc_objective :: ObjectiveFunction
  selectionOrderings :: "SelectionOrdering list"
  riskPosture :: RiskPosture
  feedbackMode :: FeedbackMode

record RiskPostureParams =
  reserveMargin :: real
  dispatchTiming :: real
  rampUpSpeed :: real
  conservationFactor :: real

fun RISK_POSTURE_PARAMS :: "RiskPosture \<Rightarrow> RiskPostureParams" where
  "RISK_POSTURE_PARAMS risk_averse =
     \<lparr>reserveMargin = 0.4, dispatchTiming = - 0.5, rampUpSpeed = 0.3, conservationFactor = 0.7\<rparr>"
| "RISK_POSTURE_PARAMS neutral =
     \<lparr>reserveMargin = 0.25, dispatchTiming = 0, rampUpSpeed = 0.5, conservationFactor = 0.5\<rparr>"
| "RISK_POSTURE_PARAMS opportunity_seeking =
     \<lparr>reserveMargin = 0.15, dispatchTiming = 0.3, rampUpSpeed = 0.6, conservationFactor = 0.3\<rparr>"
| "RISK_POSTURE_PARAMS deadline_aware =
     \<lparr>reserveMargin = 0.35, dispatchTiming = 0, rampUpSpeed = 0.25, conservationFactor = 0.6\<rparr>"

definition DEFAULT_STRATEGY_CONFIG :: StrategyConfig where
  "DEFAULT_STRATEGY_CONFIG =
     \<lparr>decisionFramework = feedback_control, frameworkSubtype = error_correction,
      sc_objective = capacity, selectionOrderings = [balanced_weighting, highest_headroom],
      riskPosture = neutral, feedbackMode = closed_loop\<rparr>"

text \<open>
  \<^verbatim>\<open>isValidSubtypeForFramework\<close> tests whether the subtype is a key of
  \<^verbatim>\<open>DECISION_FRAMEWORK_INFO[framework].subtypes\<close>.
\<close>

fun isValidSubtypeForFramework :: "DecisionFramework \<Rightarrow> FrameworkSubtype \<Rightarrow> bool" where
  "isValidSubtypeForFramework deterministic_policy s =
     (s \<in> {static_priority, threshold_triggered, state_machine, scenario_tree})"
| "isValidSubtypeForFramework greedy_myopic s =
     (s \<in> {max_capacity_now, min_risk_now, best_efficiency_now})"
| "isValidSubtypeForFramework stochastic s =
     (s \<in> {expected_value, chance_constrained, monte_carlo_weighted})"
| "isValidSubtypeForFramework feedback_control s =
     (s \<in> {error_correction, adaptive_weighting, pid_like_control})"

datatype DifficultyLevel = easy | medium | hard

record DifficultyPreset =
  target_mw :: real
  preset_noncompliance :: real
  response_variability :: real
  headroom_multiplier :: real
  penalty_exponent :: real
  over_performance_penalty_ratio :: real

fun DIFFICULTY_PRESETS :: "DifficultyLevel \<Rightarrow> DifficultyPreset" where
  "DIFFICULTY_PRESETS easy =
     \<lparr>target_mw = 5, preset_noncompliance = 0.05, response_variability = 0.1,
      headroom_multiplier = 4.0, penalty_exponent = 1.5, over_performance_penalty_ratio = 0.3\<rparr>"
| "DIFFICULTY_PRESETS medium =
     \<lparr>target_mw = 50, preset_noncompliance = 0.15, response_variability = 0.25,
      headroom_multiplier = 2.5, penalty_exponent = 2.0, over_performance_penalty_ratio = 0.5\<rparr>"
| "DIFFICULTY_PRESETS hard =
     \<lparr>target_mw = 300, preset_noncompliance = 0.25, response_variability = 0.4,
      headroom_multiplier = 1.5, penalty_exponent = 3.0, over_performance_penalty_ratio = 0.7\<rparr>"

text \<open>
  \<^verbatim>\<open>DispatchIntensitySettings\<close> is imported by the strategies from types.ts, whose
  declaration of it is not among the sources. The strategies read it as
  \<^verbatim>\<open>context.dispatchIntensity[asset.type] ?? 50\<close>: a number per asset type, which may
  be absent. The comments of the strategies give it the range from 0 to 100.
\<close>

type_synonym DispatchIntensitySettings = "AssetType \<Rightarrow> real option"

section \<open>Dispatch strategies (DispatchStrategies.ts)\<close>

record StrategyContext =
  ctx_assets :: "Asset list"
  ctx_targetKw :: real
  ctx_currentTimestep :: nat
  ctx_totalTimesteps :: nat
  ctx_config :: ScenarioConfig
  ctx_strategyConfig :: StrategyConfig
  ctx_dispatchIntensity :: "DispatchIntensitySettings option"
  ctx_previousAchievedKw :: "real option"
  ctx_previouslyDispatchedAssetIds :: "string set"
  ctx_accumulatedError :: real
  ctx_assetPerformanceScores :: "string \<rightharpoonup> real"

text \<open>
  The interface \<^verbatim>\<open>StrategyContext\<close> declares \<^verbatim>\<open>dispatchIntensity\<close> as a required
  field, but nothing at run time makes an object have it: \<open>ctx_dispatchIntensity\<close> is
  \<open>None\<close> for a context object without the field. \<open>contextIntensity ctx ty\<close> is the
  expression \<^verbatim>\<open>context.dispatchIntensity[asset.type] ?? 50\<close>, which throws a
  \<^verbatim>\<open>TypeError\<close> when the field is \<^verbatim>\<open>undefined\<close>.
\<close>

definition contextIntensity :: "StrategyContext \<Rightarrow> AssetType \<Rightarrow> real result" where
  "contextIntensity ctx ty =
     (case ctx_dispatchIntensity ctx of
        None \<Rightarrow> Inl TypeError
      | Some settings \<Rightarrow> Inr (case settings ty of None \<Rightarrow> 50 | Some i \<Rightarrow> i))"

subsection \<open>Helper functions\<close>

text \<open>
  \<^verbatim>\<open>Math.pow\<close> on real numbers: a positive base is raised by \<open>powr\<close>, a negative
  base only to a whole exponent.
\<close>

definition Math_pow :: "real \<Rightarrow> real \<Rightarrow> real result" where
  "Math_pow x y =
     (if y = 0 then Inr 1
      else if 0 < x then Inr (x powr y)
      else if x = 0 then (if 0 < y then Inr 0 else Inl NotFinite)
      else if y = of_int \<lfloor>y\<rfloor> then Inr (x powi \<lfloor>y\<rfloor>)
      else Inl NotFinite)"

text \<open>
  \<^verbatim>\<open>Math.pow\<close> of a base that may be NaN or infinite. Of a finite base \<open>Math_pow\<close>
  leaves the finite numbers in two ways: 0 to a negative exponent is an infinity, a
  negative base to a fractional exponent is NaN.
\<close>

fun js_pow :: "js_number \<Rightarrow> real \<Rightarrow> js_number" where
  "js_pow (Fin x) y =
     (case Math_pow x y of Inr v \<Rightarrow> Fin v | Inl e \<Rightarrow> (if x = 0 then PosInf else NaN))"
| "js_pow PosInf y = (if y > 0 then PosInf else if y < 0 then Fin 0 else Fin 1)"
| "js_pow NegInf y =
     (if y = 0 then Fin 1
      else if y < 0 then Fin 0
      else if y = of_int \<lfloor>y\<rfloor> \<and> odd \<lfloor>y\<rfloor> then NegInf else PosInf)"
| "js_pow NaN y = (if y = 0 then Fin 1 else NaN)"

definition getRiskParams :: "RiskPosture \<Rightarrow> RiskPostureParams" where
  "getRiskParams posture = RISK_POSTURE_PARAMS posture"

fun getAvailableCapacity :: "Asset \<Rightarrow> nat \<Rightarrow> real" where
  "getAvailableCapacity (Hvac a) t = (if dropped (state a) then 0 else hvac_kw (params a))"
| "getAvailableCapacity (Battery a) t =
     (if dropped (state a) then 0
      else let availableSoc = soc (state a) - soc_reserve (params a)
           in min (p_dis_kw (params a)) (availableSoc * e_kwh (params a) * 12))"
| "getAvailableCapacity (Ev a) t =
     (if dropped (state a) \<or> override_active (state a) \<or> \<not> ev_plugged (state a) then 0
      else ev_p_max_kw (params a))"
| "getAvailableCapacity (Fleet a) t =
     (if dropped (state a) then 0 else u_site_max_kw (params a) * 0.7)"
| "getAvailableCapacity (Ci a) t =
     (if dropped (state a) then 0
      else let hvacAvail = smax_hvac_kw (params a) * exp (- fatigue_k (params a) * fatigue (state a));
               processAvail = (if process_on (state a) then process_load_kw (params a) else 0)
           in hvacAvail + processAvail)"

fun hvacTempMargin :: "HvacResi \<Rightarrow> real" where
  "hvacTempMargin a =
     (if mode (params a) = cooling then comfort_max_f (params a) - tin_f (state a)
      else tin_f (state a) - comfort_min_f (params a))"

fun estimateDropRisk :: "Asset \<Rightarrow> RiskPostureParams \<Rightarrow> real" where
  "estimateDropRisk (Hvac a) rp =
     max 0 (min 1 ((1 - hvacTempMargin a / 4) * (1 - conservationFactor rp * 0.5)))"
| "estimateDropRisk (Battery a) rp =
     (let socMargin = soc (state a) - soc_reserve (params a)
      in max 0 (min 1 ((1 - socMargin) * 0.5)))"
| "estimateDropRisk (Ev a) rp =
     (if override_active (state a) then 1
      else let energyNeeded = ev_e_req_kwh (params a) - ev_e_kwh (state a)
           in if energyNeeded > 20 then 0.6 else if energyNeeded > 10 then 0.3 else 0.1)"
| "estimateDropRisk (Ci a) rp = min 1 (fatigue (state a) * 0.8)"
| "estimateDropRisk (Fleet a) rp = 0.2"

fun calculateComfortCost :: "Asset \<Rightarrow> real" where
  "calculateComfortCost (Hvac a) = max 0 (4 - hvacTempMargin a)"
| "calculateComfortCost (Ev a) =
     (let chargeNeeded = ev_e_req_kwh (params a) - ev_e_kwh (state a);
          timeRemaining = ev_t_depart (params a) - ev_t_arrival (params a)
      in chargeNeeded / max 1 timeRemaining)"
| "calculateComfortCost (Ci a) = fatigue (state a) * 2"
| "calculateComfortCost (Battery a) = 0.5"
| "calculateComfortCost (Fleet a) = 0.5"

fun calculateHeadroom :: "Asset \<Rightarrow> real" where
  "calculateHeadroom (Battery a) = (soc (state a) - soc_reserve (params a)) * e_kwh (params a)"
| "calculateHeadroom (Ev a) =
     (if \<not> ev_plugged (state a) then 0 else ev_e_kwh (state a) - ev_e_req_kwh (params a) * 0.2)"
| "calculateHeadroom (Hvac a) = hvacTempMargin a"
| "calculateHeadroom (Ci a) = (1 - fatigue (state a)) * smax_hvac_kw (params a)"
| "calculateHeadroom (Fleet a) = u_site_max_kw (params a) * 0.5"

subsection \<open>Ramp-up\<close>

text \<open>
  \<open>eventProgress\<close> is \<^verbatim>\<open>context.currentTimestep / context.totalTimesteps\<close>, which the
  ramp-up and the state machine compute. It is NaN or infinite when the context has no
  timesteps; the ramp-up percentage is then NaN or 1.
\<close>

definition eventProgress :: "StrategyContext \<Rightarrow> js_number" where
  "eventProgress ctx =
     js_div (Fin (real (ctx_currentTimestep ctx))) (real (ctx_totalTimesteps ctx))"

definition calculateRampUpPercentage :: "StrategyContext \<Rightarrow> js_number" where
  "calculateRampUpPercentage ctx =
     (let riskParams = getRiskParams (riskPosture (ctx_strategyConfig ctx));
          progress = eventProgress ctx;
          initialPct = rampUpSpeed riskParams in
      if riskPosture (ctx_strategyConfig ctx) = deadline_aware then
        (let urgency = js_pow progress 0.5
         in js_min 1 (js_add (Fin initialPct) (js_scale urgency (1 - initialPct))))
      else
        let posture = riskPosture (ctx_strategyConfig ctx);
            rampDuration = (if posture = risk_averse then 0.7
                            else if posture = opportunity_seeking then 0.4 else 0.5);
            rampProgress = js_min 1 (js_div progress rampDuration)
        in js_min 1 (js_add (Fin initialPct) (js_scale rampProgress (1 - initialPct))))"

subsection \<open>Asset selection and ordering\<close>

record ScoredAsset =
  sa_asset :: Asset
  sa_capacity :: real
  sa_score :: js_number

text \<open>
  \<^verbatim>\<open>parseInt(asset.id.replace(/\D/g, ''), 10)\<close>: the decimal value of the digits of
  the id, NaN (\<open>None\<close>) when it has none.
\<close>

definition idDigits :: "string \<Rightarrow> nat option" where
  "idDigits s =
     (let ds = filter (\<lambda>c. c \<in> set ''0123456789'') s
      in if ds = [] then None
         else Some (foldl (\<lambda>n c. 10 * n + (of_char c - 48)) 0 ds))"

fun orderScore :: "Asset \<Rightarrow> SelectionOrdering \<Rightarrow> StrategyContext \<Rightarrow> js_number" where
  "orderScore a batteries_first ctx = Fin (if asset_type a = battery_resi then 1 else 0.3)"
| "orderScore a hvac_first ctx = Fin (if asset_type a = hvac_resi then 1 else 0.3)"
| "orderScore a high_load_reduction_first ctx =
     Fin (if asset_type a = ev_resi \<or> asset_type a = fleet_site then 1 else 0.3)"
| "orderScore a balanced_weighting ctx = Fin 0.5"
| "orderScore a highest_trust_score ctx =
     Fin (case ctx_assetPerformanceScores ctx (asset_id a) of None \<Rightarrow> 0.5 | Some v \<Rightarrow> v)"
| "orderScore a lowest_variance ctx =
     Fin (1 - estimateDropRisk a (getRiskParams (riskPosture (ctx_strategyConfig ctx))))"
| "orderScore a best_historical_delivery ctx =
     Fin (case ctx_assetPerformanceScores ctx (asset_id a) of None \<Rightarrow> 0.5 | Some v \<Rightarrow> v)"
| "orderScore a highest_headroom ctx =
     (let headroom = calculateHeadroom a;
          cap = getAvailableCapacity a (ctx_currentTimestep ctx)
      in Fin (if cap > 0 then min 1 (headroom / cap) else 0))"
| "orderScore a lowest_marginal_comfort_cost ctx = Fin (1 - min 1 (calculateComfortCost a / 5))"
| "orderScore a highest_soc_buffer ctx =
     (case a of
        Battery b \<Rightarrow> Fin (soc (state b))
      | Ev e \<Rightarrow>
          (if ev_plugged (state e)
           then js_div (Fin (ev_e_kwh (state e))) (ev_e_capacity_kwh (params e))
           else Fin 0.5)
      | _ \<Rightarrow> Fin 0.5)"
| "orderScore a least_recently_dispatched ctx =
     Fin (if asset_id a \<in> ctx_previouslyDispatchedAssetIds ctx then 0.2 else 0.8)"
| "orderScore a round_robin ctx =
     (case idDigits (asset_id a) of
        None \<Rightarrow> NaN
      | Some n \<Rightarrow> Fin (real (n mod 100) / 100))"
| "orderScore a fatigue_balanced ctx =
     (case a of Ci c \<Rightarrow> Fin (1 - fatigue (state c)) | _ \<Rightarrow> Fin 0.8)"

text \<open>
  The \<^verbatim>\<open>forEach\<close> of \<^verbatim>\<open>calculateOrderingScore\<close>: \<open>index\<close> counts the orderings
  done, \<open>totalScore\<close> and \<open>weightSum\<close> are the two accumulators.
\<close>

fun orderingLoop ::
  "Asset \<Rightarrow> StrategyContext \<Rightarrow> SelectionOrdering list \<Rightarrow> nat \<Rightarrow> js_number \<Rightarrow> real \<Rightarrow> js_number \<times> real" where
  "orderingLoop a ctx [] index totalScore weightSum = (totalScore, weightSum)"
| "orderingLoop a ctx (ordering' # rest) index totalScore weightSum =
     (let weight = 1 / (real index + 1)
      in orderingLoop a ctx rest (index + 1)
           (js_add totalScore (js_scale (orderScore a ordering' ctx) weight)) (weightSum + weight))"

text \<open>
  \<^verbatim>\<open>calculateOrderingScore\<close> reads the dispatch intensity before the loop. Without
  orderings both accumulators stay 0 and the score is 0 / 0, which is NaN.
\<close>

definition calculateOrderingScore :: "Asset \<Rightarrow> SelectionOrdering list \<Rightarrow> StrategyContext \<Rightarrow> js_number result" where
  "calculateOrderingScore a orderings ctx =
     (case contextIntensity ctx (asset_type a) of
        Inl e \<Rightarrow> Inl e
      | Inr i \<Rightarrow>
          (let intensity = i / 100;
               intensityMultiplier = 0.5 + intensity;
               (totalScore, weightSum) = orderingLoop a ctx orderings 0 (Fin 0) 0
           in Inr (js_scale (js_div totalScore weightSum) intensityMultiplier)))"

fun scoreAssets :: "StrategyContext \<Rightarrow> Asset list \<Rightarrow> ScoredAsset list result" where
  "scoreAssets ctx [] = Inr []"
| "scoreAssets ctx (a # rest) =
     (case calculateOrderingScore a (selectionOrderings (ctx_strategyConfig ctx)) ctx of
        Inl e \<Rightarrow> Inl e
      | Inr sc \<Rightarrow>
          (case scoreAssets ctx rest of
             Inl e \<Rightarrow> Inl e
           | Inr scored \<Rightarrow>
               Inr (\<lparr>sa_asset = a,
                     sa_capacity = getAvailableCapacity a (ctx_currentTimestep ctx),
                     sa_score = sc\<rparr> # scored)))"

text \<open>
  \<^verbatim>\<open>scoredAssets.sort((a, b) => b.score - a.score)\<close>. \<^verbatim>\<open>Array.prototype.sort\<close> is
  stable and takes a comparator result of NaN as 0. \<open>sortByScore\<close> is the stable
  insertion sort under this comparator: an element stays before the elements after it
  unless one of them compares strictly before it. For scores without NaN this is the
  stable sort by falling score, and when every score is NaN it leaves the list as it is.
  For a list that has NaN among other scores the comparator is not consistent and the
  language leaves the order to the implementation; the model takes the order of the
  insertion sort there, and the proofs below use of the result only that it has the
  elements of the list it sorts.
\<close>

fun sortInsert :: "ScoredAsset \<Rightarrow> ScoredAsset list \<Rightarrow> ScoredAsset list" where
  "sortInsert x [] = [x]"
| "sortInsert x (y # ys) =
     (if js_before (sa_score y) (sa_score x) then y # sortInsert x ys else x # y # ys)"

definition sortByScore :: "ScoredAsset list \<Rightarrow> ScoredAsset list" where
  "sortByScore xs = foldr sortInsert xs []"

text \<open>
  The selection keeps the previously dispatched assets and adds the first assets of the
  others. \<open>sliceEnd\<close> is the end of
  \<^verbatim>\<open>slice(0, Math.max(0, targetCount - previouslyDispatched.length))\<close> with
  \<^verbatim>\<open>targetCount = Math.max(1, Math.ceil(scoredAssets.length * rampPercentage))\<close>:
  \<^verbatim>\<open>Math.max\<close> of a number and NaN is NaN, and \<^verbatim>\<open>slice\<close> takes an end of NaN as 0 and
  an infinite end as the length of the array.
\<close>

definition selectAndOrderAssets :: "StrategyContext \<Rightarrow> ScoredAsset list result" where
  "selectAndOrderAssets ctx =
     (let rampPercentage = calculateRampUpPercentage ctx in
      case scoreAssets ctx (filter (\<lambda>a. \<not> asset_dropped a) (ctx_assets ctx)) of
        Inl e \<Rightarrow> Inl e
      | Inr scored \<Rightarrow>
          (let scoredAssets = sortByScore (filter (\<lambda>sa. sa_capacity sa > 0) scored);
               previouslyDispatched =
                 filter (\<lambda>sa. asset_id (sa_asset sa) \<in> ctx_previouslyDispatchedAssetIds ctx)
                   scoredAssets;
               notPreviouslyDispatched =
                 filter (\<lambda>sa. asset_id (sa_asset sa) \<notin> ctx_previouslyDispatchedAssetIds ctx)
                   scoredAssets;
               sliceEnd =
                 (case js_scale rampPercentage (real (length scoredAssets)) of
                    Fin x \<Rightarrow> nat (max 0 (max 1 \<lceil>x\<rceil> - int (length previouslyDispatched)))
                  | PosInf \<Rightarrow> length notPreviouslyDispatched
                  | NegInf \<Rightarrow> nat (max 0 (1 - int (length previouslyDispatched)))
                  | NaN \<Rightarrow> 0)
           in Inr (previouslyDispatched @ take sliceEnd notPreviouslyDispatched)))"

subsection \<open>Objective-based target adjustment\<close>

definition adjustTargetForObjective :: "StrategyContext \<Rightarrow> real \<Rightarrow> real" where
  "adjustTargetForObjective ctx baseTarget =
     (let riskParams = getRiskParams (riskPosture (ctx_strategyConfig ctx)) in
      case sc_objective (ctx_strategyConfig ctx) of
        capacity \<Rightarrow> baseTarget * (1 + reserveMargin riskParams * 0.5)
      | risk_minimization \<Rightarrow> baseTarget * (1 + reserveMargin riskParams)
      | efficiency \<Rightarrow> baseTarget
      | regret_minimization \<Rightarrow> baseTarget * (1 + reserveMargin riskParams * 1.5)
      | learning_oriented \<Rightarrow>
          (let variance = sin (real (ctx_currentTimestep ctx) * 0.5) * 0.1
           in baseTarget * (1 + variance)))"

subsection \<open>Dispatch command generation\<close>

text \<open>
  \<^verbatim>\<open>createDispatchCommand\<close> returns \<^verbatim>\<open>null\<close> (\<open>None\<close>) for an EV that is not
  plugged in or is in override. The HVAC branch divides by \<^verbatim>\<open>hvac.params.hvac_kw\<close>:
  when that is 0 and the target is positive the quotient is infinite and
  \<^verbatim>\<open>Math.min\<close> returns \<open>maxShift\<close>; when the target is 0 or negative the shift is NaN
  or infinite.
\<close>

fun createDispatchCommand ::
  "Asset \<Rightarrow> real \<Rightarrow> RiskPostureParams \<Rightarrow> real \<Rightarrow> DispatchCommand option result" where
  "createDispatchCommand (Battery bat) targetKw riskParams intensity =
     (let intensityFactor = intensity / 100;
          conservationFactor' = conservationFactor riskParams * (1.5 - intensityFactor);
          effectiveReserve = soc_reserve (params bat) * (1 + conservationFactor' * 0.3);
          availSoc = soc (state bat) - effectiveReserve;
          maxPower = min (p_dis_kw (params bat)) (availSoc * e_kwh (params bat) * 12);
          power = min targetKw maxPower
      in Inr (Some \<lparr>asset_id_of = id' bat, command = BatteryCommand (max 0 power)\<rparr>))"
| "createDispatchCommand (Hvac hvac) targetKw riskParams intensity =
     (let intensityFactor = intensity / 100;
          conservationFactor' = conservationFactor riskParams * (1.5 - intensityFactor);
          maxShift = (1 + intensityFactor * 2) * (1 - conservationFactor' * 0.3)
      in if hvac_kw (params hvac) = 0 \<and> targetKw \<le> 0 then Inl NotFinite
         else
           let bounded = (if hvac_kw (params hvac) = 0 then maxShift
                          else min maxShift (targetKw / hvac_kw (params hvac) * 2));
               shift = (if mode (params hvac) = cooling then bounded else - bounded)
           in Inr (Some \<lparr>asset_id_of = id' hvac, command = HvacCommand (Math_round shift)\<rparr>))"
| "createDispatchCommand (Ev ev) targetKw riskParams intensity =
     (let intensityFactor = intensity / 100 in
      if \<not> ev_plugged (state ev) \<or> override_active (state ev) then Inr None
      else
        let maxReduction = ev_p_max_kw (params ev) * (0.5 + intensityFactor * 0.5);
            reduction = min maxReduction targetKw;
            newChargeRate = ev_p_max_kw (params ev) - reduction
        in Inr (Some \<lparr>asset_id_of = id' ev, command = EvCommand (max 0 newChargeRate)\<rparr>))"
| "createDispatchCommand (Fleet fleet) targetKw riskParams intensity =
     (let intensityFactor = intensity / 100;
          maxReduction = u_site_max_kw (params fleet) * (0.4 + intensityFactor * 0.4);
          reduction = min maxReduction targetKw;
          capPower = u_site_max_kw (params fleet) - reduction
      in Inr (Some \<lparr>asset_id_of = id' fleet, command = FleetCommand (max 0 capPower)\<rparr>))"
| "createDispatchCommand (Ci ci) targetKw riskParams intensity =
     (let intensityFactor = intensity / 100;
          conservationFactor' = conservationFactor riskParams * (1.5 - intensityFactor);
          availableHvac = smax_hvac_kw (params ci) * exp (- fatigue_k (params ci) * fatigue (state ci));
          shedAmount = min availableHvac targetKw * (1 - conservationFactor' * 0.3);
          remainingForProcess = targetKw - shedAmount;
          curtailProcess = (remainingForProcess > 0 \<and> process_on (state ci) \<and> intensityFactor > 0.4)
      in Inr (Some \<lparr>asset_id_of = id' ci,
                    command = CiBuildingCommand shedAmount (\<not> curtailProcess)\<rparr>))"

text \<open>
  \<^verbatim>\<open>getCommandContribution\<close> reads the fields of the command under a type assertion; a
  field the command does not have makes the remaining target NaN.
\<close>

fun getCommandContribution :: "Asset \<Rightarrow> DispatchCommand \<Rightarrow> RiskPostureParams \<Rightarrow> real result" where
  "getCommandContribution (Battery bat) c riskParams =
     (case cmd_power_kw (command c) of None \<Rightarrow> Inl NotFinite | Some pw \<Rightarrow> Inr pw)"
| "getCommandContribution (Hvac hvac) c riskParams =
     (case cmd_delta_setpoint_f (command c) of
        None \<Rightarrow> Inl NotFinite
      | Some d \<Rightarrow> Inr (hvac_kw (params hvac) * \<bar>d\<bar> / 2))"
| "getCommandContribution (Ev ev) c riskParams =
     (case cmd_power_kw (command c) of
        None \<Rightarrow> Inl NotFinite
      | Some chargeRate \<Rightarrow> Inr (ev_p_max_kw (params ev) - chargeRate))"
| "getCommandContribution (Fleet fleet) c riskParams =
     (case cmd_site_power_cap_kw (command c) of
        None \<Rightarrow> Inl NotFinite
      | Some cap \<Rightarrow> Inr (u_site_max_kw (params fleet) - cap))"
| "getCommandContribution (Ci ci) c riskParams =
     (case (cmd_hvac_shed_kw (command c), cmd_process_on (command c)) of
        (Some shed, Some on) \<Rightarrow>
          Inr (if \<not> on \<and> process_on (state ci) then shed + process_load_kw (params ci) else shed)
      | _ \<Rightarrow> Inl NotFinite)"

text \<open>
  The loop of \<^verbatim>\<open>dispatchToTarget\<close>: it stops at the first asset reached with
  \<^verbatim>\<open>remainingTarget <= 0\<close>.
\<close>

fun dispatchToTarget ::
  "ScoredAsset list \<Rightarrow> real \<Rightarrow> StrategyContext \<Rightarrow> RiskPostureParams \<Rightarrow> DispatchCommand list result" where
  "dispatchToTarget [] remainingTarget ctx riskParams = Inr []"
| "dispatchToTarget (sa # rest) remainingTarget ctx riskParams =
     (if remainingTarget \<le> 0 then Inr []
      else
        case contextIntensity ctx (asset_type (sa_asset sa)) of
          Inl e \<Rightarrow> Inl e
        | Inr intensity \<Rightarrow>
            (let capacityMultiplier = 0.5 + (intensity / 100) * 0.5;
                 effectiveCapacity = sa_capacity sa * capacityMultiplier;
                 dispatchAmount = min effectiveCapacity remainingTarget
             in case createDispatchCommand (sa_asset sa) dispatchAmount riskParams intensity of
                  Inl e \<Rightarrow> Inl e
                | Inr None \<Rightarrow> dispatchToTarget rest remainingTarget ctx riskParams
                | Inr (Some c) \<Rightarrow>
                    (case getCommandContribution (sa_asset sa) c riskParams of
                       Inl e \<Rightarrow> Inl e
                     | Inr contribution \<Rightarrow>
                         (case dispatchToTarget rest (remainingTarget - contribution) ctx riskParams of
                            Inl e \<Rightarrow> Inl e
                          | Inr commands \<Rightarrow> Inr (c # commands)))))"

fun maintainLoop :: "StrategyContext \<Rightarrow> RiskPostureParams \<Rightarrow> ScoredAsset list \<Rightarrow> DispatchCommand list result" where
  "maintainLoop ctx riskParams [] = Inr []"
| "maintainLoop ctx riskParams (sa # rest) =
     (if asset_id (sa_asset sa) \<in> ctx_previouslyDispatchedAssetIds ctx then
        (let cap = getAvailableCapacity (sa_asset sa) (ctx_currentTimestep ctx) in
         case createDispatchCommand (sa_asset sa) (cap * 0.5) riskParams 50 of
           Inl e \<Rightarrow> Inl e
         | Inr oc \<Rightarrow>
             (case maintainLoop ctx riskParams rest of
                Inl e \<Rightarrow> Inl e
              | Inr commands \<Rightarrow> Inr (case oc of None \<Rightarrow> commands | Some c \<Rightarrow> c # commands)))
      else maintainLoop ctx riskParams rest)"

definition maintainPreviousDispatch :: "StrategyContext \<Rightarrow> ScoredAsset list \<Rightarrow> DispatchCommand list result" where
  "maintainPreviousDispatch ctx assets' =
     maintainLoop ctx (getRiskParams (riskPosture (ctx_strategyConfig ctx))) assets'"

subsection \<open>Decision frameworks\<close>

text \<open>
  The state machine compares the progress of the event with 0.15 and 0.85; both
  comparisons are false for NaN. An infinite progress (a context without timesteps after
  tick 0) makes the effective target infinite or NaN, where the model stops.
\<close>

definition deterministicDispatch :: "StrategyContext \<Rightarrow> DispatchCommand list result" where
  "deterministicDispatch ctx =
     (let subtype = frameworkSubtype (ctx_strategyConfig ctx);
          riskParams = getRiskParams (riskPosture (ctx_strategyConfig ctx)) in
      case selectAndOrderAssets ctx of
        Inl e \<Rightarrow> Inl e
      | Inr selectedAssets \<Rightarrow>
          (case (if subtype = state_machine then
                   (case eventProgress ctx of
                      Fin progress \<Rightarrow>
                        Inr (if progress < 0.15
                             then adjustTargetForObjective ctx (ctx_targetKw ctx) * 0.7
                             else if progress > 0.85
                             then adjustTargetForObjective ctx (ctx_targetKw ctx)
                                    * (0.8 + 0.2 * (1 - progress) / 0.15)
                             else adjustTargetForObjective ctx (ctx_targetKw ctx))
                    | NegInf \<Rightarrow> Inr (adjustTargetForObjective ctx (ctx_targetKw ctx) * 0.7)
                    | PosInf \<Rightarrow> Inl NotFinite
                    | NaN \<Rightarrow> Inr (adjustTargetForObjective ctx (ctx_targetKw ctx)))
                 else Inr (adjustTargetForObjective ctx (ctx_targetKw ctx))) of
             Inl e \<Rightarrow> Inl e
           | Inr effectiveTarget \<Rightarrow>
               (if subtype = threshold_triggered
                   \<and> (case ctx_previousAchievedKw ctx of
                         None \<Rightarrow> False
                       | Some previous \<Rightarrow> ctx_targetKw ctx - previous < ctx_targetKw ctx * 0.05)
                then maintainPreviousDispatch ctx selectedAssets
                else dispatchToTarget selectedAssets effectiveTarget ctx riskParams)))"

definition greedyDispatch :: "StrategyContext \<Rightarrow> DispatchCommand list result" where
  "greedyDispatch ctx =
     (let subtype = frameworkSubtype (ctx_strategyConfig ctx);
          riskParams = getRiskParams (riskPosture (ctx_strategyConfig ctx)) in
      case selectAndOrderAssets ctx of
        Inl e \<Rightarrow> Inl e
      | Inr selected \<Rightarrow>
          (let selectedAssets =
                 (if subtype = max_capacity_now then sort_key (\<lambda>sa. - sa_capacity sa) selected
                  else if subtype = min_risk_now
                  then sort_key (\<lambda>sa. estimateDropRisk (sa_asset sa) riskParams) selected
                  else if subtype = best_efficiency_now
                  then sort_key (\<lambda>sa. - (sa_capacity sa / max 0.1 (calculateComfortCost (sa_asset sa))))
                         selected
                  else selected);
               effectiveTarget = adjustTargetForObjective ctx (ctx_targetKw ctx)
           in dispatchToTarget selectedAssets effectiveTarget ctx riskParams))"

text \<open>
  The sampling loops of \<^verbatim>\<open>stochasticDispatch\<close>. \<open>countDropoffs n\<close> makes \<open>n\<close> draws
  and counts those below the noncompliance probability; \<open>sampleCapacity\<close> adds the
  capacity of every asset whose draw is above it; \<open>sampleOutcomes n\<close> is the list of
  \<open>n\<close> such sums.
\<close>

fun countDropoffs :: "nat \<Rightarrow> real \<Rightarrow> rng \<Rightarrow> nat \<times> rng" where
  "countDropoffs 0 prob g = (0, g)"
| "countDropoffs (Suc n) prob g =
     (let (u, g1) = Math_random g;
          (k, g2) = countDropoffs n prob g1
      in ((if u < prob then 1 else 0) + k, g2))"

fun sampleCapacity :: "ScoredAsset list \<Rightarrow> real \<Rightarrow> rng \<Rightarrow> real \<times> rng" where
  "sampleCapacity [] prob g = (0, g)"
| "sampleCapacity (sa # rest) prob g =
     (let (u, g1) = Math_random g;
          (c, g2) = sampleCapacity rest prob g1
      in ((if u > prob then sa_capacity sa else 0) + c, g2))"

fun sampleOutcomes :: "nat \<Rightarrow> ScoredAsset list \<Rightarrow> real \<Rightarrow> rng \<Rightarrow> real list \<times> rng" where
  "sampleOutcomes 0 sel prob g = ([], g)"
| "sampleOutcomes (Suc n) sel prob g =
     (let (c, g1) = sampleCapacity sel prob g;
          (cs, g2) = sampleOutcomes n sel prob g1
      in (c # cs, g2))"

text \<open>
  With \<^verbatim>\<open>expected_value\<close> the multiplier divides by the number of selected assets. When
  none is selected, \<^verbatim>\<open>dispatchToTarget\<close> returns the empty list whatever the target
  is, so the model returns the empty list there.
\<close>

definition stochasticDispatch :: "StrategyContext \<Rightarrow> rng \<Rightarrow> DispatchCommand list result \<times> rng" where
  "stochasticDispatch ctx g =
     (let subtype = frameworkSubtype (ctx_strategyConfig ctx);
          riskParams = getRiskParams (riskPosture (ctx_strategyConfig ctx)) in
      case selectAndOrderAssets ctx of
        Inl e \<Rightarrow> (Inl e, g)
      | Inr selectedAssets \<Rightarrow>
          (let numSamples = 10;
               lookaheadSteps = min 6 (ctx_totalTimesteps ctx - ctx_currentTimestep ctx);
               prob = probability (noncompliance (ctx_config ctx));
               (targetMultiplier, g') =
                 (if subtype = expected_value then
                    (let (expectedDropoffs, g1) = countDropoffs (numSamples * lookaheadSteps) prob g
                     in (1 + (real expectedDropoffs / real numSamples
                                / real (length selectedAssets)) * 0.5, g1))
                  else if subtype = chance_constrained then
                    (1 + reserveMargin riskParams * 1.5, g)
                  else if subtype = monte_carlo_weighted then
                    (let (outcomes, g1) = sampleOutcomes numSamples selectedAssets prob g;
                         sorted = sort outcomes;
                         medianCapacity = sorted ! (length sorted div 2)
                     in (if medianCapacity > 0 then ctx_targetKw ctx / medianCapacity else 1, g1))
                  else (1, g));
               effectiveTarget = adjustTargetForObjective ctx (ctx_targetKw ctx) * targetMultiplier
           in if selectedAssets = [] then (Inr [], g')
              else (dispatchToTarget selectedAssets effectiveTarget ctx riskParams, g')))"

definition feedbackControlDispatch :: "StrategyContext \<Rightarrow> DispatchCommand list result" where
  "feedbackControlDispatch ctx =
     (let subtype = frameworkSubtype (ctx_strategyConfig ctx);
          riskParams = getRiskParams (riskPosture (ctx_strategyConfig ctx)) in
      case selectAndOrderAssets ctx of
        Inl e \<Rightarrow> Inl e
      | Inr selectedAssets \<Rightarrow>
          (let effectiveTarget0 =
                 (case ctx_previousAchievedKw ctx of
                    None \<Rightarrow> adjustTargetForObjective ctx (ctx_targetKw ctx)
                  | Some previous \<Rightarrow>
                      (let error = ctx_targetKw ctx - previous in
                       if subtype = error_correction then ctx_targetKw ctx + error * 1.5
                       else if subtype = adaptive_weighting then ctx_targetKw ctx + error
                       else if subtype = pid_like_control then
                         (let Kp = 1.2; Ki = 0.1; Kd = 0.3;
                              integral = ctx_accumulatedError ctx + error;
                              derivative = error - (ctx_targetKw ctx - previous);
                              correction = Kp * error + Ki * integral + Kd * derivative
                          in ctx_targetKw ctx + correction)
                       else adjustTargetForObjective ctx (ctx_targetKw ctx)));
               effectiveTarget = max 0 (min effectiveTarget0 (ctx_targetKw ctx * 2))
           in dispatchToTarget selectedAssets effectiveTarget ctx riskParams))"

subsection \<open>Main dispatch executor\<close>

definition executeComposableStrategy :: "StrategyContext \<Rightarrow> rng \<Rightarrow> DispatchCommand list result \<times> rng" where
  "executeComposableStrategy ctx g =
     (case decisionFramework (ctx_strategyConfig ctx) of
        deterministic_policy \<Rightarrow> (deterministicDispatch ctx, g)
      | greedy_myopic \<Rightarrow> (greedyDispatch ctx, g)
      | stochastic \<Rightarrow> stochasticDispatch ctx g
      | feedback_control \<Rightarrow> (feedbackControlDispatch ctx, g))"

subsection \<open>Predicates on commands and contexts\<close>

text \<open>
  \<open>hvacDeltaOk c\<close>: if \<open>c\<close> is an HVAC command, its setpoint shift is a whole number
  of at most 2 in absolute value. \<open>hvacScored sa\<close>: a scored HVAC asset carries its
  \<^verbatim>\<open>hvac_kw\<close> as capacity, and that is positive. \<open>hvacIntensityOk ctx\<close>: the dispatch
  intensity of the HVAC type, when set, is in the range from 0 to 100 that the code
  documents for it.
\<close>

definition hvacDeltaOk :: "DispatchCommand \<Rightarrow> bool" where
  "hvacDeltaOk c = (case command c of HvacCommand d \<Rightarrow> d \<in> \<int> \<and> \<bar>d\<bar> \<le> 2 | _ \<Rightarrow> True)"

definition hvacScored :: "ScoredAsset \<Rightarrow> bool" where
  "hvacScored sa =
     (case sa_asset sa of
        Hvac h \<Rightarrow> sa_capacity sa = hvac_kw (params h) \<and> 0 < hvac_kw (params h)
      | _ \<Rightarrow> True)"

definition hvacIntensityOk :: "StrategyContext \<Rightarrow> bool" where
  "hvacIntensityOk ctx =
     (case ctx_dispatchIntensity ctx of
        None \<Rightarrow> True
      | Some settings \<Rightarrow>
          (case settings hvac_resi of None \<Rightarrow> True | Some i \<Rightarrow> 0 \<le> i \<and> i \<le> 100))"

section \<open>Simulation engine (SimulationEngine.ts)\<close>

text \<open>
  The display string \<^verbatim>\<open>time\<close> of a \<^verbatim>\<open>TimestepResult\<close> is formatted from the start
  time and the tick index by the locale of the browser; the record below leaves it out.
  Of the engine the model keeps the simulation state, the configuration and the feedback
  memory; the callbacks and the timing fields only pace the calls of
  \<^verbatim>\<open>advanceTimestep\<close>. The constructor takes the scenario, the strategy configuration
  and the difficulty (and the two callbacks). The context object that
  \<^verbatim>\<open>advanceTimestep\<close> builds for the strategies has no \<^verbatim>\<open>dispatchIntensity\<close>,
  although the strategies of DispatchStrategies.ts read that field for every asset they
  score and the game context calls the constructor with a dispatch intensity as a sixth
  argument: in the engine as it is, a tick that has an asset to score ends in the
  \<^verbatim>\<open>TypeError\<close> of \<open>contextIntensity\<close>.
\<close>

record TimestepResult =
  timestep :: nat
  res_target_kw :: real
  achieved_kw :: real
  shortfall_kw :: real
  penalty :: real
  assets_dropped :: nat
  res_outdoor_temp_f :: real
  dispatches_by_type :: "AssetType \<Rightarrow> nat"
  new_dispatch_calls :: "AssetType \<Rightarrow> nat"

record Scenario =
  scenario_config :: ScenarioConfig
  scenario_assets :: "Asset list"

record SimulationState =
  scenario :: Scenario
  current_timestep :: nat
  assets :: "Asset list"
  history :: "TimestepResult list"
  total_penalty :: real
  is_running :: bool
  is_complete :: bool

record SimulationEngine =
  eng_state :: SimulationState
  eng_strategyConfig :: StrategyConfig
  eng_difficulty :: DifficultyLevel
  eng_previouslyDispatchedAssets :: "string set"
  eng_accumulatedError :: real
  eng_assetPerformanceScores :: "string \<rightharpoonup> real"

text \<open>
  The constructor and \<^verbatim>\<open>reset\<close> clone the assets of the scenario through JSON, which
  gives equal values, and set the performance score of every asset id to 0.5.
\<close>

definition initialState :: "Scenario \<Rightarrow> SimulationState" where
  "initialState sc =
     \<lparr>scenario = sc, current_timestep = 0, assets = scenario_assets sc, history = [],
      total_penalty = 0, is_running = False, is_complete = False\<rparr>"

definition initialScores :: "Asset list \<Rightarrow> (string \<rightharpoonup> real)" where
  "initialScores as = map_of (map (\<lambda>a. (asset_id a, 0.5)) as)"

definition newSimulationEngine :: "Scenario \<Rightarrow> StrategyConfig \<Rightarrow> DifficultyLevel \<Rightarrow> SimulationEngine" where
  "newSimulationEngine sc strategyConfig difficulty =
     \<lparr>eng_state = initialState sc,
      eng_strategyConfig = strategyConfig,
      eng_difficulty = difficulty,
      eng_previouslyDispatchedAssets = {},
      eng_accumulatedError = 0,
      eng_assetPerformanceScores = initialScores (scenario_assets sc)\<rparr>"

definition updateRiskPosture :: "SimulationEngine \<Rightarrow> RiskPosture \<Rightarrow> SimulationEngine" where
  "updateRiskPosture e posture =
     e\<lparr>eng_strategyConfig := (eng_strategyConfig e)\<lparr>riskPosture := posture\<rparr>\<rparr>"

text \<open>
  \<^verbatim>\<open>updateStrategyConfig\<close> takes a \<^verbatim>\<open>Partial<StrategyConfig>\<close> and spreads it over
  the current configuration: every field the argument has replaces the current one.
\<close>

record PartialStrategyConfig =
  p_decisionFramework :: "DecisionFramework option"
  p_frameworkSubtype :: "FrameworkSubtype option"
  p_objective :: "ObjectiveFunction option"
  p_selectionOrderings :: "SelectionOrdering list option"
  p_riskPosture :: "RiskPosture option"
  p_feedbackMode :: "FeedbackMode option"

definition updateStrategyConfig :: "SimulationEngine \<Rightarrow> PartialStrategyConfig \<Rightarrow> SimulationEngine" where
  "updateStrategyConfig e c =
     (let old = eng_strategyConfig e in
      e\<lparr>eng_strategyConfig :=
          \<lparr>decisionFramework = (case p_decisionFramework c of None \<Rightarrow> decisionFramework old | Some v \<Rightarrow> v),
           frameworkSubtype = (case p_frameworkSubtype c of None \<Rightarrow> frameworkSubtype old | Some v \<Rightarrow> v),
           sc_objective = (case p_objective c of None \<Rightarrow> sc_objective old | Some v \<Rightarrow> v),
           selectionOrderings = (case p_selectionOrderings c of None \<Rightarrow> selectionOrderings old | Some v \<Rightarrow> v),
           riskPosture = (case p_riskPosture c of None \<Rightarrow> riskPosture old | Some v \<Rightarrow> v),
           feedbackMode = (case p_feedbackMode c of None \<Rightarrow> feedbackMode old | Some v \<Rightarrow> v)\<rparr>\<rparr>)"


subsection \<open>One tick\<close>

text \<open>
  The loop of \<^verbatim>\<open>advanceTimestep\<close> over the assets: each asset is updated with the
  command the command map holds for its id, then one more draw scales its power delta by
  the response variability. \<open>achievedKw\<close> and \<open>updatedAssets\<close> are the accumulators.
\<close>

fun updateAssets ::
  "Asset list \<Rightarrow> (string \<rightharpoonup> DispatchCommand) \<Rightarrow> nat \<Rightarrow> real \<Rightarrow> real \<Rightarrow> ScenarioConfig \<Rightarrow> real \<Rightarrow>
   real \<Rightarrow> Asset list \<Rightarrow> rng \<Rightarrow> (Asset list \<times> real) result \<times> rng" where
  "updateAssets [] commandMap t outdoorTemp startHour config responseVariability
     achievedKw updatedAssets g = (Inr (updatedAssets, achievedKw), g)"
| "updateAssets (a # rest) commandMap t outdoorTemp startHour config responseVariability
     achievedKw updatedAssets g =
     (case updateAsset a (map_option command (commandMap (asset_id a))) t outdoorTemp startHour config g of
        (Inl e, g1) \<Rightarrow> (Inl e, g1)
      | (Inr (a', powerDelta), g1) \<Rightarrow>
          (let (u, g2) = Math_random g1;
               variabilityFactor = 1 + (u * 2 - 1) * responseVariability
           in updateAssets rest commandMap t outdoorTemp startHour config responseVariability
                (achievedKw + powerDelta * variabilityFactor) (updatedAssets @ [a']) g2))"

text \<open>
  Both maps of the tick are filled in list order, so for an id that occurs twice the
  later entry stays.
\<close>

definition assetMapOf :: "Asset list \<Rightarrow> (string \<rightharpoonup> Asset)" where
  "assetMapOf as = map_of (rev (map (\<lambda>a. (asset_id a, a)) as))"

definition commandMapOf :: "DispatchCommand list \<Rightarrow> (string \<rightharpoonup> DispatchCommand)" where
  "commandMapOf cs = map_of (rev (map (\<lambda>c. (asset_id_of c, c)) cs))"

definition dispatchesByType :: "Asset list \<Rightarrow> DispatchCommand list \<Rightarrow> AssetType \<Rightarrow> nat" where
  "dispatchesByType as cs ty =
     length (filter (\<lambda>c. case assetMapOf as (asset_id_of c) of
                           None \<Rightarrow> False | Some a \<Rightarrow> asset_type a = ty) cs)"

definition newDispatchCalls :: "Asset list \<Rightarrow> string set \<Rightarrow> DispatchCommand list \<Rightarrow> AssetType \<Rightarrow> nat" where
  "newDispatchCalls as previously cs ty =
     length (filter (\<lambda>c. (case assetMapOf as (asset_id_of c) of
                            None \<Rightarrow> False | Some a \<Rightarrow> asset_type a = ty)
                         \<and> asset_id_of c \<notin> previously) cs)"

fun updateScores :: "Asset list \<Rightarrow> string set \<Rightarrow> (string \<rightharpoonup> real) \<Rightarrow> (string \<rightharpoonup> real)" where
  "updateScores [] dispatched scores = scores"
| "updateScores (a # rest) dispatched scores =
     (let currentScore = (case scores (asset_id a) of None \<Rightarrow> 0.5 | Some v \<Rightarrow> v) in
      updateScores rest dispatched
        (if asset_id a \<in> dispatched then
           (if asset_dropped a then scores(asset_id a \<mapsto> max 0 (currentScore - 0.1))
            else scores(asset_id a \<mapsto> min 1 (currentScore + 0.02)))
         else scores))"

text \<open>
  The penalty of a tick, from the target and the achieved power (the block from
  \<^verbatim>\<open>const deviation\<close> to \<^verbatim>\<open>const penalty\<close>).
\<close>

definition tickPenalty :: "DifficultyLevel \<Rightarrow> real \<Rightarrow> real \<Rightarrow> real result" where
  "tickPenalty difficulty targetKw achievedKw =
     (let difficultySettings = DIFFICULTY_PRESETS difficulty;
          penaltyExponent = penalty_exponent difficultySettings;
          deviation = \<bar>targetKw - achievedKw\<bar>;
          isOverPerformance = (achievedKw > targetKw);
          overPerformanceRatio = over_performance_penalty_ratio difficultySettings;
          epsilon = 0.001
      in if targetKw + epsilon = 0 then Inl NotFinite
         else
           let normalizedDeviation = deviation / (targetKw + epsilon)
           in case Math_pow normalizedDeviation penaltyExponent of
                Inl e \<Rightarrow> Inl e
              | Inr basePenalty \<Rightarrow>
                  Inr (if isOverPerformance then basePenalty * overPerformanceRatio else basePenalty))"

text \<open>
  \<open>tickContext\<close> is the context \<^verbatim>\<open>advanceTimestep\<close> builds for the strategies, after
  it has added the previous error to the accumulated error and clamped it.
  \<open>tickCommands\<close> are the commands of the tick, \<open>tickPhysics\<close> the updated assets and
  the achieved power (not rounded) after them.
\<close>

definition tickTarget :: "SimulationEngine \<Rightarrow> real" where
  "tickTarget e =
     (case target_kw (objective (scenario_config (scenario (eng_state e)))) of
        None \<Rightarrow> 0 | Some v \<Rightarrow> v)"

definition tickAccumulatedError :: "SimulationEngine \<Rightarrow> real" where
  "tickAccumulatedError e =
     (let targetKw = tickTarget e in
      case (if history (eng_state e) = [] then None
            else Some (achieved_kw (last (history (eng_state e))))) of
        None \<Rightarrow> eng_accumulatedError e
      | Some previousAchievedKw \<Rightarrow>
          (let error = targetKw - previousAchievedKw
           in max (- targetKw * 5) (min (targetKw * 5) (eng_accumulatedError e + error))))"

definition tickContext :: "SimulationEngine \<Rightarrow> StrategyContext" where
  "tickContext e =
     \<lparr>ctx_assets = assets (eng_state e),
      ctx_targetKw = tickTarget e,
      ctx_currentTimestep = current_timestep (eng_state e),
      ctx_totalTimesteps = timesteps (scenario_config (scenario (eng_state e))),
      ctx_config = scenario_config (scenario (eng_state e)),
      ctx_strategyConfig = eng_strategyConfig e,
      ctx_dispatchIntensity = None,
      ctx_previousAchievedKw =
        (if history (eng_state e) = [] then None
         else Some (achieved_kw (last (history (eng_state e))))),
      ctx_previouslyDispatchedAssetIds = eng_previouslyDispatchedAssets e,
      ctx_accumulatedError = tickAccumulatedError e,
      ctx_assetPerformanceScores = eng_assetPerformanceScores e\<rparr>"

definition tickCommands :: "SimulationEngine \<Rightarrow> rng \<Rightarrow> DispatchCommand list result \<times> rng" where
  "tickCommands e g = executeComposableStrategy (tickContext e) g"

definition tickOutdoorTemp :: "SimulationEngine \<Rightarrow> real" where
  "tickOutdoorTemp e =
     (let temps = outdoor_temp_f (weather (scenario_config (scenario (eng_state e))));
          t = current_timestep (eng_state e)
      in if t < length temps then temps ! t else 75)"

definition tickPhysics ::
  "SimulationEngine \<Rightarrow> DispatchCommand list \<Rightarrow> rng \<Rightarrow> (Asset list \<times> real) result \<times> rng" where
  "tickPhysics e commands g =
     (let config = scenario_config (scenario (eng_state e))
      in updateAssets (assets (eng_state e)) (commandMapOf commands) (current_timestep (eng_state e))
           (tickOutdoorTemp e) (start_hour config) config
           (response_variability (DIFFICULTY_PRESETS (eng_difficulty e))) 0 [] g)"

text \<open>
  \<open>tickAchieved\<close> is the value of \<^verbatim>\<open>achievedKw\<close> when the loop over the assets is
  done: the power the tick achieves, before it is rounded for the history.
\<close>

definition tickAchieved :: "SimulationEngine \<Rightarrow> rng \<Rightarrow> real result" where
  "tickAchieved e g =
     (case tickCommands e g of
        (Inl err, g1) \<Rightarrow> Inl err
      | (Inr commands, g1) \<Rightarrow>
          (case tickPhysics e commands g1 of
             (Inl err, g2) \<Rightarrow> Inl err
           | (Inr (updatedAssets, achievedKw), g2) \<Rightarrow> Inr achievedKw))"

definition advanceTimestep :: "SimulationEngine \<Rightarrow> rng \<Rightarrow> SimulationEngine result \<times> rng" where
  "advanceTimestep e g =
     (let st = eng_state e;
          config = scenario_config (scenario st);
          t = current_timestep st
      in if t \<ge> timesteps config
         then (Inr (e\<lparr>eng_state := st\<lparr>is_running := False, is_complete := True\<rparr>\<rparr>), g)
         else
           let targetKw = tickTarget e;
               outdoorTemp = tickOutdoorTemp e
           in case tickCommands e g of
                (Inl err, g1) \<Rightarrow> (Inl err, g1)
              | (Inr commands, g1) \<Rightarrow>
                  (let currentlyDispatchedAssets = set (map asset_id_of commands) in
                   case tickPhysics e commands g1 of
                     (Inl err, g2) \<Rightarrow> (Inl err, g2)
                   | (Inr (updatedAssets, achievedKw), g2) \<Rightarrow>
                       (case tickPenalty (eng_difficulty e) targetKw achievedKw of
                          Inl err \<Rightarrow> (Inl err, g2)
                        | Inr penalty' \<Rightarrow>
                            (let shortfall = max 0 (targetKw - achievedKw);
                                 result' =
                                   \<lparr>timestep = t,
                                    res_target_kw = targetKw,
                                    achieved_kw = Math_round (achievedKw * 10) / 10,
                                    shortfall_kw = Math_round (shortfall * 10) / 10,
                                    penalty = Math_round (penalty' * 10000) / 10000,
                                    assets_dropped = length (filter asset_dropped updatedAssets),
                                    res_outdoor_temp_f = Math_round (outdoorTemp * 10) / 10,
                                    dispatches_by_type = dispatchesByType (assets st) commands,
                                    new_dispatch_calls =
                                      newDispatchCalls (assets st) (eng_previouslyDispatchedAssets e)
                                        commands\<rparr>
                             in (Inr (e\<lparr>eng_state :=
                                          st\<lparr>current_timestep := t + 1,
                                             assets := updatedAssets,
                                             history := history st @ [result'],
                                             total_penalty := total_penalty st + penalty'\<rparr>,
                                        eng_previouslyDispatchedAssets := currentlyDispatchedAssets,
                                        eng_accumulatedError := tickAccumulatedError e,
                                        eng_assetPerformanceScores :=
                                          updateScores updatedAssets currentlyDispatchedAssets
                                            (eng_assetPerformanceScores e)\<rparr>),
                                 g2)))))"

text \<open>
  \<^verbatim>\<open>step\<close> advances one tick unless the run is complete; the timed loop does the same
  whenever a tick is due. \<open>run n\<close> is \<open>n\<close> such steps in a row.
\<close>

definition step :: "SimulationEngine \<Rightarrow> rng \<Rightarrow> SimulationEngine result \<times> rng" where
  "step e g = (if is_complete (eng_state e) then (Inr e, g) else advanceTimestep e g)"


subsection \<open>One asset over the ticks of a run\<close>

text \<open>
  The engine updates every asset once per tick, at the ticks 0, 1, 2, ... in order. What
  this does to a single EV or C&I building is the repeated application of its update
  function: \<open>evTrace a cmds gs config t\<close> is the asset before tick \<open>t\<close>, when
  \<open>cmds k\<close> is the command it receives at tick \<open>k\<close> and \<open>gs k\<close> the outcomes of
  the random draws at the moment it is updated at tick \<open>k\<close>.
\<close>

fun evTrace :: "EvResi \<Rightarrow> (nat \<Rightarrow> AssetCommand option) \<Rightarrow> (nat \<Rightarrow> rng) \<Rightarrow> ScenarioConfig \<Rightarrow> nat \<Rightarrow> EvResi result" where
  "evTrace a cmds gs config 0 = Inr a"
| "evTrace a cmds gs config (Suc t) =
     (case evTrace a cmds gs config t of
        Inl e \<Rightarrow> Inl e
      | Inr a' \<Rightarrow>
          (case fst (updateEvResi a' (cmds t) t config (gs t)) of
             Inl e \<Rightarrow> Inl e
           | Inr (a'', d) \<Rightarrow> Inr a''))"

fun ciTrace :: "CiBuilding \<Rightarrow> (nat \<Rightarrow> AssetCommand option) \<Rightarrow> (nat \<Rightarrow> rng) \<Rightarrow> real \<Rightarrow> ScenarioConfig \<Rightarrow> nat \<Rightarrow> CiBuilding result" where
  "ciTrace a cmds gs startHour config 0 = Inr a"
| "ciTrace a cmds gs startHour config (Suc t) =
     (case ciTrace a cmds gs startHour config t of
        Inl e \<Rightarrow> Inl e
      | Inr a' \<Rightarrow>
          (case fst (updateCiBuilding a' (cmds t) t startHour config (gs t)) of
             Inl e \<Rightarrow> Inl e
           | Inr (a'', d) \<Rightarrow> Inr a''))"

text \<open>
  \<open>asset_ready\<close> holds of an asset whose update does not leave the real numbers for want
  of data: a battery with a capacity other than 0, a C&I building with a maximal shed other
  than 0 (the updates divide by these), and a fleet site that has a state for each of its
  vehicles.
\<close>

fun asset_ready :: "Asset \<Rightarrow> bool" where
  "asset_ready (Hvac a) = True"
| "asset_ready (Battery a) = (e_kwh (params a) \<noteq> 0)"
| "asset_ready (Ev a) = True"
| "asset_ready (Fleet a) = list_all (\<lambda>v. vehicle_state (state a) (veh_id v) \<noteq> None) (vehicles (params a))"
| "asset_ready (Ci a) = (smax_hvac_kw (params a) \<noteq> 0)"

section \<open>Example inputs\<close>

definition ex_config :: ScenarioConfig where
  "ex_config =
     \<lparr>start_hour = 17, timesteps = 3,
      weather = \<lparr>outdoor_temp_f = [90, 90, 90]\<rparr>,
      objective = \<lparr>target_kw = Some 100\<rparr>,
      baseline_error = \<lparr>sigma_bias = 0.03, sigma_drift = 0.01, rho = 0.8\<rparr>,
      measurement_noise = \<lparr>pct_uniform = 0.05\<rparr>,
      noncompliance = \<lparr>probability = 0.15\<rparr>\<rparr>"

definition ex_battery :: BatteryResi where
  "ex_battery =
     \<lparr>id' = ''bat_1'',
      params = \<lparr>e_kwh = 10, p_dis_kw = 5, p_ch_kw = 5, soc_reserve = 0.2\<rparr>,
      state = \<lparr>dropped = False, baseline_bias = 0, baseline_drift = 0, soc = 0.5\<rparr>\<rparr>"

definition ex_ci :: CiBuilding where
  "ex_ci =
     \<lparr>id' = ''ci_7'',
      params = \<lparr>smax_hvac_kw = 100, fatigue_k = 1, fatigue_a = 3, fatigue_b = 0.1,
                process_load_kw = 80, max_process_toggles = 2,
                business_start_hour = 8, business_end_hour = 18\<rparr>,
      state = \<lparr>dropped = False, baseline_bias = 0, baseline_drift = 0,
               fatigue = 0, hvac_shed_kw = 0, process_on = True, process_toggles_used = 0\<rparr>\<rparr>"

definition ex_ev :: EvResi where
  "ex_ev =
     \<lparr>id' = ''ev_3'',
      params = \<lparr>ev_charger_level = L2, ev_p_max_kw = 7, ev_e_req_kwh = 40, ev_e_capacity_kwh = 60,
                ev_t_arrival = 0, ev_t_depart = 12\<rparr>,
      state = \<lparr>dropped = False, baseline_bias = 0, baseline_drift = 0,
               ev_e_kwh = 20, ev_plugged = True, override_active = False\<rparr>\<rparr>"

text \<open>An EV that arrives at tick 10, two ticks before it leaves, with 100 kWh to load.\<close>

definition ex_ev_late :: EvResi where
  "ex_ev_late =
     \<lparr>id' = ''ev_4'',
      params = \<lparr>ev_charger_level = L2, ev_p_max_kw = 7, ev_e_req_kwh = 100, ev_e_capacity_kwh = 120,
                ev_t_arrival = 10, ev_t_depart = 12\<rparr>,
      state = \<lparr>dropped = False, baseline_bias = 0, baseline_drift = 0,
               ev_e_kwh = 0, ev_plugged = False, override_active = False\<rparr>\<rparr>"

text \<open>A cooling thermostat that is off, one degree below its setpoint.\<close>

definition ex_hvac :: HvacResi where
  "ex_hvac =
     \<lparr>id' = ''hvac_2'',
      params = \<lparr>mode = cooling, pref_setpoint_f = 74, comfort_max_f = 78, comfort_min_f = 60,
                alpha = 0.05, beta = - 0.5, hvac_kw = 4, deadband_f = 0.5\<rparr>,
      state = \<lparr>dropped = False, baseline_bias = 0, baseline_drift = 0,
               tin_f = 73, hvac_on = False, setpoint_f = 74\<rparr>\<rparr>"

text \<open>
  A scenario without assets, with a target of 100 kW, and the engine over it with the
  default strategy and the difficulty \<^verbatim>\<open>medium\<close>. Its ticks have no asset to score.
\<close>

definition ex_empty_scenario :: Scenario where
  "ex_empty_scenario = \<lparr>scenario_config = ex_config, scenario_assets = []\<rparr>"

definition ex_empty_engine :: SimulationEngine where
  "ex_empty_engine = newSimulationEngine ex_empty_scenario DEFAULT_STRATEGY_CONFIG medium"

text \<open>A scenario with a target of 0 kW and the thermostat, and the engine over it.\<close>

definition ex_zero_scenario :: Scenario where
  "ex_zero_scenario =
     \<lparr>scenario_config = ex_config\<lparr>objective := \<lparr>target_kw = Some 0\<rparr>\<rparr>,
      scenario_assets = [Hvac ex_hvac]\<rparr>"

definition ex_zero_engine :: SimulationEngine where
  "ex_zero_engine = newSimulationEngine ex_zero_scenario DEFAULT_STRATEGY_CONFIG medium"

text \<open>
  A strategy whose subtype belongs to another framework, and a strategy without
  selection orderings; the engines with them over the scenario without assets.
\<close>

definition ex_mismatched_config :: StrategyConfig where
  "ex_mismatched_config =
     \<lparr>decisionFramework = greedy_myopic, frameworkSubtype = pid_like_control,
      sc_objective = capacity, selectionOrderings = [balanced_weighting, highest_headroom],
      riskPosture = neutral, feedbackMode = closed_loop\<rparr>"

definition ex_unordered_config :: StrategyConfig where
  "ex_unordered_config =
     \<lparr>decisionFramework = feedback_control, frameworkSubtype = error_correction,
      sc_objective = capacity, selectionOrderings = [],
      riskPosture = neutral, feedbackMode = closed_loop\<rparr>"

definition ex_mismatched_engine :: SimulationEngine where
  "ex_mismatched_engine = newSimulationEngine ex_empty_scenario ex_mismatched_config medium"

definition ex_unordered_engine :: SimulationEngine where
  "ex_unordered_engine = newSimulationEngine ex_empty_scenario ex_unordered_config medium"

text \<open>
  A context as the interface \<^verbatim>\<open>StrategyContext\<close> declares it, with an intensity of 50
  for every asset type: the first tick of three, a target of 100 kW, nothing dispatched
  before.
\<close>

definition ex_context :: "Asset list \<Rightarrow> StrategyConfig \<Rightarrow> StrategyContext" where
  "ex_context as cfg =
     \<lparr>ctx_assets = as, ctx_targetKw = 100, ctx_currentTimestep = 0, ctx_totalTimesteps = 3,
      ctx_config = ex_config, ctx_strategyConfig = cfg,
      ctx_dispatchIntensity = Some (\<lambda>ty. Some 50),
      ctx_previousAchievedKw = None, ctx_previouslyDispatchedAssetIds = {},
      ctx_accumulatedError = 0, ctx_assetPerformanceScores = Map.empty\<rparr>"

text \<open>A configuration whose measurement noise is 200 % of the value.\<close>

definition ex_noisy_config :: ScenarioConfig where
  "ex_noisy_config = ex_config\<lparr>measurement_noise := \<lparr>pct_uniform = 2\<rparr>\<rparr>"

section \<open>Properties of the asset models\<close>

subsection \<open>Battery: the state of charge in exact arithmetic\<close>

lemma TIMESTEP_HOURS_pos: "0 < TIMESTEP_HOURS"
  by (simp add: TIMESTEP_HOURS_def TIMESTEP_MINUTES_def)

lemma discharge_step_bounds:
  fixes r s e pd req :: real
  assumes "r \<le> s" and "s \<le> 1" and "0 < e" and "0 < req"
  defines "x \<equiv> min req (max 0 (min pd ((s - r) * e / TIMESTEP_HOURS)))"
  shows "r \<le> s - (x * TIMESTEP_HOURS) / e" and "s - (x * TIMESTEP_HOURS) / e \<le> 1"
    and "0 \<le> x" and "x \<le> max 0 pd"
proof -
  have x0: "0 \<le> x" using assms by (simp add: x_def)
  define m where "m = (s - r) * e * 12"
  have "0 \<le> m" using assms by (simp add: m_def)
  have "x = min req (max 0 (min pd m))"
    by (simp add: x_def m_def TIMESTEP_HOURS_def TIMESTEP_MINUTES_def)
  then have "x \<le> m" using \<open>0 \<le> m\<close> by (simp add: min_def max_def)
  then have "x \<le> (s - r) * e * 12" by (simp add: m_def)
  then have "x / (12 * e) \<le> s - r" using \<open>0 < e\<close> by (simp add: field_simps)
  then show "r \<le> s - (x * TIMESTEP_HOURS) / e"
    by (simp add: TIMESTEP_HOURS_def TIMESTEP_MINUTES_def field_simps)
  have "0 \<le> x / (12 * e)" using x0 \<open>0 < e\<close> by simp
  then show "s - (x * TIMESTEP_HOURS) / e \<le> 1" using \<open>s \<le> 1\<close>
    by (simp add: TIMESTEP_HOURS_def TIMESTEP_MINUTES_def field_simps)
  show "0 \<le> x" by (rule x0)
  show "x \<le> max 0 pd" by (simp add: x_def min_def max_def)
qed

lemma charge_step_bounds:
  fixes r s e pc req :: real
  assumes "r \<le> s" and "s \<le> 1" and "0 < e" and "req < 0" and "0 \<le> pc"
  defines "y \<equiv> min (- req) (min pc ((1 - s) * e / TIMESTEP_HOURS))"
  shows "r \<le> s + (y * TIMESTEP_HOURS) / e" and "s + (y * TIMESTEP_HOURS) / e \<le> 1"
    and "0 \<le> y" and "y \<le> pc"
proof -
  have h0: "0 \<le> (1 - s) * e * 12" using assms by simp
  then have y0: "0 \<le> y" using assms
    by (simp add: y_def TIMESTEP_HOURS_def TIMESTEP_MINUTES_def)
  define m where "m = (1 - s) * e * 12"
  have "y = min (- req) (min pc m)"
    by (simp add: y_def m_def TIMESTEP_HOURS_def TIMESTEP_MINUTES_def)
  then have "y \<le> m" by (simp add: min_def)
  then have "y \<le> (1 - s) * e * 12" by (simp add: m_def)
  then have "y / (12 * e) \<le> 1 - s" using \<open>0 < e\<close> by (simp add: field_simps)
  then show "s + (y * TIMESTEP_HOURS) / e \<le> 1"
    by (simp add: TIMESTEP_HOURS_def TIMESTEP_MINUTES_def field_simps)
  have "0 \<le> y / (12 * e)" using y0 \<open>0 < e\<close> by simp
  then show "r \<le> s + (y * TIMESTEP_HOURS) / e" using \<open>r \<le> s\<close>
    by (simp add: TIMESTEP_HOURS_def TIMESTEP_MINUTES_def field_simps)
  show "0 \<le> y" by (rule y0)
  show "y \<le> pc" by (simp add: y_def min_def)
qed

lemma batteryPowerStep_in_range:
  assumes "soc_reserve p \<le> s" and "s \<le> 1" and "0 < e_kwh p" and "0 \<le> p_ch_kw p"
  shows "\<exists>s' po. batteryPowerStep p s rq = Inr (s', po)
           \<and> soc_reserve p \<le> s' \<and> s' \<le> 1
           \<and> (s - s') * e_kwh p / TIMESTEP_HOURS \<le> max 0 (p_dis_kw p)
           \<and> (s' - s) * e_kwh p / TIMESTEP_HOURS \<le> p_ch_kw p"
proof -
  note hpos = TIMESTEP_HOURS_pos
  have cancel: "(x * TIMESTEP_HOURS / e_kwh p) * e_kwh p / TIMESTEP_HOURS = x" for x
    using assms(3) hpos by simp
  consider (idle) "rq = None \<or> rq = Some 0"
    | (dis) req where "rq = Some req" "0 < req"
    | (ch) req where "rq = Some req" "req < 0"
  proof (cases rq)
    case None
    then show ?thesis using idle by simp
  next
    case (Some req)
    then show ?thesis using idle dis ch by (cases "req = 0"; cases "0 < req") auto
  qed
  then show ?thesis
  proof cases
    case idle
    then show ?thesis using assms hpos by (auto simp: batteryPowerStep_def)
  next
    case dis
    define x where "x = min req (max 0 (min (p_dis_kw p) ((s - soc_reserve p) * e_kwh p / TIMESTEP_HOURS)))"
    note b = discharge_step_bounds[OF assms(1) assms(2) assms(3) dis(2), of "p_dis_kw p", folded x_def]
    have r: "batteryPowerStep p s rq = Inr (s - (x * TIMESTEP_HOURS) / e_kwh p, x)"
      using dis assms(3) by (simp add: batteryPowerStep_def Let_def x_def)
    have d1: "(s - (s - (x * TIMESTEP_HOURS) / e_kwh p)) * e_kwh p / TIMESTEP_HOURS = x"
      using cancel[of x] by simp
    have d2: "((s - (x * TIMESTEP_HOURS) / e_kwh p) - s) * e_kwh p / TIMESTEP_HOURS = - x"
      using cancel[of x] by (simp add: field_simps)
    show ?thesis unfolding r using b assms(4) d1 d2 by auto
  next
    case ch
    define y where "y = min (- req) (min (p_ch_kw p) ((1 - s) * e_kwh p / TIMESTEP_HOURS))"
    note b = charge_step_bounds[OF assms(1) assms(2) assms(3) ch(2) assms(4), folded y_def]
    have r: "batteryPowerStep p s rq = Inr (s + (y * TIMESTEP_HOURS) / e_kwh p, - y)"
      using ch assms(3) by (simp add: batteryPowerStep_def Let_def y_def)
    have d1: "(s - (s + (y * TIMESTEP_HOURS) / e_kwh p)) * e_kwh p / TIMESTEP_HOURS = - y"
      using cancel[of y] by (simp add: field_simps)
    have d2: "((s + (y * TIMESTEP_HOURS) / e_kwh p) - s) * e_kwh p / TIMESTEP_HOURS = y"
      using cancel[of y] by simp
    show ?thesis unfolding r using b d1 d2 by auto
  qed
qed

text \<open>
  In exact arithmetic a battery whose state of charge lies between \<open>soc_reserve\<close> and 1
  is updated, for any command and any outcome of the random draws, to a state of charge
  that again lies between \<open>soc_reserve\<close> and 1, when its capacity \<open>e_kwh\<close> is
  positive and its charge limit \<open>p_ch_kw\<close> is not negative. This is what the bounds of the
  source are built for. It is a statement about the real numbers of the model and not
  about the doubles of the program: there the step from a state of charge of 0.33 with
  \<open>e_kwh\<close> 7, \<open>soc_reserve\<close> 0.2 and a power of 11.5 kW ends at 0.19999999999999998.
\<close>

lemma battery_soc_in_range_exact:
  assumes "soc_reserve (params a) \<le> soc (state a)" and "soc (state a) \<le> 1"
    and "0 < e_kwh (params a)" and "0 \<le> p_ch_kw (params a)"
  shows "\<exists>a' d g'. updateBatteryResi a cmd config g = (Inr (a', d), g')
           \<and> params a' = params a
           \<and> soc_reserve (params a) \<le> soc (state a') \<and> soc (state a') \<le> 1
           \<and> (soc (state a) - soc (state a')) * e_kwh (params a) / TIMESTEP_HOURS
                 \<le> max 0 (p_dis_kw (params a))
           \<and> (soc (state a') - soc (state a)) * e_kwh (params a) / TIMESTEP_HOURS
                 \<le> p_ch_kw (params a)"
proof (cases "dropped (state a)")
  case True
  then show ?thesis using assms
    by (simp add: updateBatteryResi_def TIMESTEP_HOURS_def TIMESTEP_MINUTES_def)
next
  case False
  obtain c g1 where h: "honoured cmd config g = (c, g1)" by force
  from batteryPowerStep_in_range[OF assms, of "case c of None \<Rightarrow> None | Some c' \<Rightarrow> cmd_power_kw c'"]
  obtain s' po where
    r: "batteryPowerStep (params a) (soc (state a))
          (case c of None \<Rightarrow> None | Some c' \<Rightarrow> cmd_power_kw c') = Inr (s', po)"
    and b: "soc_reserve (params a) \<le> s'" "s' \<le> 1"
      "(soc (state a) - s') * e_kwh (params a) / TIMESTEP_HOURS \<le> max 0 (p_dis_kw (params a))"
      "(s' - soc (state a)) * e_kwh (params a) / TIMESTEP_HOURS \<le> p_ch_kw (params a)"
    by blast
  show ?thesis using False h r b
    by (simp add: updateBatteryResi_def Let_def split: prod.splits)
qed

subsection \<open>C&I building: fatigue and drop-out\<close>

lemma updateCiBuilding_dropped:
  "dropped (state a) \<Longrightarrow> updateCiBuilding a cmd t sh config g = (Inr (a, 0), g)"
  by (simp add: updateCiBuilding_def)

lemma ciShed_fatigue:
  assumes "ciShed p f target = Inr (shed, f')"
  shows "0 \<le> f'" and "smax_hvac_kw p \<noteq> 0"
    and "f' = max 0 (f + fatigue_a p * (shed / smax_hvac_kw p) - fatigue_b p * (1 - shed / smax_hvac_kw p))"
    and "shed = min target (smax_hvac_kw p * exp (- fatigue_k p * f))"
  using assms by (auto simp: ciShed_def Let_def split: if_splits)

lemma updateCiBuilding_live:
  assumes "\<not> dropped (state a)" and "updateCiBuilding a cmd t sh config g = (Inr (a', d), g')"
  shows "params a' = params a" and "0 \<le> fatigue (state a')"
    and "2 < fatigue (state a') \<longleftrightarrow> dropped (state a')"
    and "fatigue (state a') =
           max 0 (fatigue (state a)
                  + fatigue_a (params a) * (hvac_shed_kw (state a') / smax_hvac_kw (params a))
                  - fatigue_b (params a) * (1 - hvac_shed_kw (state a') / smax_hvac_kw (params a)))"
    and "hvac_shed_kw (state a') \<le> smax_hvac_kw (params a) * exp (- fatigue_k (params a) * fatigue (state a))"
proof -
  obtain c g1 where h: "honoured cmd config g = (c, g1)" by force
  obtain tgt on where tg: "(case c of
                None \<Rightarrow> Inr (0, process_on (state a))
              | Some c' \<Rightarrow>
                  (case (cmd_hvac_shed_kw c', cmd_process_on c') of
                     (Some shed, Some on) \<Rightarrow> Inr (shed, on)
                   | _ \<Rightarrow> Inl NotFinite)) = (Inr (tgt, on) :: (real \<times> bool) result)"
    using assms h by (auto simp: updateCiBuilding_def Let_def split: sum.splits prod.splits)
  obtain shed f' where sh: "ciShed (params a) (fatigue (state a)) tgt = Inr (shed, f')"
    using assms h tg by (auto simp: updateCiBuilding_def Let_def split: sum.splits prod.splits)
  note fs = ciShed_fatigue[OF sh]
  have st: "params a' = params a \<and> fatigue (state a') = f' \<and> hvac_shed_kw (state a') = shed
            \<and> (dropped (state a') \<longleftrightarrow> 2 < f')"
    using assms h tg sh
    by (auto simp: updateCiBuilding_def Let_def split: prod.splits if_splits)
  show "params a' = params a" using st by simp
  show "0 \<le> fatigue (state a')" using st fs by simp
  show "2 < fatigue (state a') \<longleftrightarrow> dropped (state a')" using st by simp
  show "fatigue (state a') =
           max 0 (fatigue (state a)
                  + fatigue_a (params a) * (hvac_shed_kw (state a') / smax_hvac_kw (params a))
                  - fatigue_b (params a) * (1 - hvac_shed_kw (state a') / smax_hvac_kw (params a)))"
    using st fs(3) by simp
  show "hvac_shed_kw (state a') \<le> smax_hvac_kw (params a) * exp (- fatigue_k (params a) * fatigue (state a))"
    using st fs(4) by simp
qed

lemma updateCiBuilding_total:
  assumes "smax_hvac_kw (params a) \<noteq> 0"
    and "cmd = None \<or> (\<exists>s on. cmd = Some (CiBuildingCommand s on))"
  shows "\<exists>a' d g'. updateCiBuilding a cmd t sh config g = (Inr (a', d), g')"
  using assms
  by (auto simp: updateCiBuilding_def Let_def honoured_def ciShed_def rollNoncompliance_def Math_random_def
      updateBaselineDrift_def applyMeasurementNoise_def split: prod.splits)


lemma ciTrace_dropped_stays:
  assumes "ciTrace a cmds gs sh config t = Inr a'" and "dropped (state a')"
  shows "ciTrace a cmds gs sh config (t + k) = Inr a'"
  using assms by (induction k) (simp_all add: updateCiBuilding_dropped)

lemma ciTrace_Suc_Inr:
  assumes "ciTrace a cmds gs sh config (Suc t) = Inr a'"
  obtains b d g' where "ciTrace a cmds gs sh config t = Inr b"
    and "updateCiBuilding b (cmds t) t sh config (gs t) = (Inr (a', d), g')"
  using assms by (auto split: sum.splits prod.splits) (metis fst_conv surj_pair)

lemma ciTrace_invariant:
  assumes init: "dropped (state a) \<longrightarrow> 0 \<le> fatigue (state a)"
    and "ciTrace a cmds gs sh config t = Inr b"
  shows "params b = params a \<and> (dropped (state b) \<longrightarrow> 0 \<le> fatigue (state b))"
  using assms(2)
proof (induction t arbitrary: b)
  case 0
  then show ?case using init by simp
next
  case (Suc t)
  from Suc.prems obtain c d g' where c: "ciTrace a cmds gs sh config t = Inr c"
    and u: "updateCiBuilding c (cmds t) t sh config (gs t) = (Inr (b, d), g')"
    by (rule ciTrace_Suc_Inr)
  note ih = Suc.IH[OF c]
  show ?case
  proof (cases "dropped (state c)")
    case True
    then show ?thesis using ih u by (simp add: updateCiBuilding_dropped)
  next
    case False
    then show ?thesis using ih updateCiBuilding_live[OF False u] by simp
  qed
qed

lemma ciTrace_total:
  assumes typed: "\<forall>k. cmds k = None \<or> (\<exists>s on. cmds k = Some (CiBuildingCommand s on))"
    and smax: "smax_hvac_kw (params a) \<noteq> 0"
  shows "\<exists>b. ciTrace a cmds gs sh config t = Inr b \<and> params b = params a"
proof (induction t)
  case 0
  then show ?case by simp
next
  case (Suc t)
  then obtain b where b: "ciTrace a cmds gs sh config t = Inr b" "params b = params a" by blast
  from updateCiBuilding_total[OF _ typed[rule_format, of t], of b t sh config "gs t"] smax b(2)
  obtain b' d g' where u: "updateCiBuilding b (cmds t) t sh config (gs t) = (Inr (b', d), g')"
    by auto
  have "params b' = params b"
  proof (cases "dropped (state b)")
    case True
    then show ?thesis using u by (simp add: updateCiBuilding_dropped)
  next
    case False
    then show ?thesis using updateCiBuilding_live(1)[OF False u] by simp
  qed
  then show ?case using b u by simp
qed

text \<open>
  Claim C5. Let a C&I building start in a state whose fatigue is not negative if it is
  already dropped, and let \<open>a'\<close> be its state after the update of tick \<open>t\<close>, for any
  commands and any outcomes of the random draws. Then the fatigue of \<open>a'\<close> is at least 0:
  a building that was not dropped before the tick has the fatigue
  \<open>max 0 (f + a * shedRatio - b * (1 - shedRatio))\<close>, where \<open>shedRatio\<close> is the shed
  applied over \<open>smax_hvac_kw\<close>, and a dropped one is left as it was. If the fatigue of
  \<open>a'\<close> exceeds 2, then \<open>a'\<close> is dropped and the building stays in exactly this state
  at every later tick. When every command is a C&I command (or there is none) and
  \<open>smax_hvac_kw\<close> is not 0, the update of every tick yields such a state.
\<close>

theorem ci_fatigue_floor_and_drop:
  assumes init: "dropped (state a) \<longrightarrow> 0 \<le> fatigue (state a)"
  shows "(\<forall>a'. ciTrace a cmds gs sh config (Suc t) = Inr a' \<longrightarrow>
            (\<exists>b. ciTrace a cmds gs sh config t = Inr b
               \<and> (dropped (state b) \<longrightarrow> a' = b)
               \<and> (\<not> dropped (state b) \<longrightarrow>
                     fatigue (state a') =
                       max 0 (fatigue (state b)
                          + fatigue_a (params b) * (hvac_shed_kw (state a') / smax_hvac_kw (params b))
                          - fatigue_b (params b) * (1 - hvac_shed_kw (state a') / smax_hvac_kw (params b)))))
            \<and> 0 \<le> fatigue (state a')
            \<and> (2 < fatigue (state a') \<longrightarrow>
                  dropped (state a') \<and> (\<forall>k. ciTrace a cmds gs sh config (Suc t + k) = Inr a')))
       \<and> ((\<forall>k. cmds k = None \<or> (\<exists>s on. cmds k = Some (CiBuildingCommand s on)))
            \<and> smax_hvac_kw (params a) \<noteq> 0 \<longrightarrow>
           (\<exists>a'. ciTrace a cmds gs sh config (Suc t) = Inr a'))"
proof (intro conjI allI impI)
  fix a' assume tr: "ciTrace a cmds gs sh config (Suc t) = Inr a'"
  from tr obtain b d g' where b: "ciTrace a cmds gs sh config t = Inr b"
    and u: "updateCiBuilding b (cmds t) t sh config (gs t) = (Inr (a', d), g')"
    by (rule ciTrace_Suc_Inr)
  note ib = ciTrace_invariant[OF init b]
  have step: "(dropped (state b) \<longrightarrow> a' = b)
               \<and> (\<not> dropped (state b) \<longrightarrow>
                     fatigue (state a') =
                       max 0 (fatigue (state b)
                          + fatigue_a (params b) * (hvac_shed_kw (state a') / smax_hvac_kw (params b))
                          - fatigue_b (params b) * (1 - hvac_shed_kw (state a') / smax_hvac_kw (params b))))
               \<and> 0 \<le> fatigue (state a') \<and> (2 < fatigue (state a') \<longrightarrow> dropped (state a'))"
  proof (cases "dropped (state b)")
    case True
    then show ?thesis using u ib by (simp add: updateCiBuilding_dropped)
  next
    case False
    then show ?thesis using updateCiBuilding_live[OF False u] by simp
  qed
  show "\<exists>b. ciTrace a cmds gs sh config t = Inr b
               \<and> (dropped (state b) \<longrightarrow> a' = b)
               \<and> (\<not> dropped (state b) \<longrightarrow>
                     fatigue (state a') =
                       max 0 (fatigue (state b)
                          + fatigue_a (params b) * (hvac_shed_kw (state a') / smax_hvac_kw (params b))
                          - fatigue_b (params b) * (1 - hvac_shed_kw (state a') / smax_hvac_kw (params b))))"
    using b step by blast
  show "0 \<le> fatigue (state a')" using step by simp
  assume "2 < fatigue (state a')"
  then have dr: "dropped (state a')" using step by simp
  then show "dropped (state a')" .
  fix k
  show "ciTrace a cmds gs sh config (Suc t + k) = Inr a'"
    using ciTrace_dropped_stays[OF tr dr] .
next
  assume "(\<forall>k. cmds k = None \<or> (\<exists>s on. cmds k = Some (CiBuildingCommand s on)))
            \<and> smax_hvac_kw (params a) \<noteq> 0"
  then show "\<exists>a'. ciTrace a cmds gs sh config (Suc t) = Inr a'"
    using ciTrace_total[of cmds a gs sh config "Suc t"] by blast
qed

lemmas ci_eval = ex_ci_def ex_config_def updateCiBuilding_def ciShed_def Let_def honoured_def
  rollNoncompliance_def Math_random_def updateBaselineDrift_def applyMeasurementNoise_def
  js_rem_def TIMESTEP_MINUTES_def

theorem ci_fatigue_floor_and_drop_witness:
  "\<exists>a'. ciTrace ex_ci (\<lambda>k. Some (CiBuildingCommand 100 True)) (\<lambda>k. sconst (1 / 2)) 17 ex_config (Suc 0)
            = Inr a'
        \<and> 0 \<le> fatigue (state a') \<and> fatigue (state a') = 3 \<and> dropped (state a')
        \<and> ciTrace ex_ci (\<lambda>k. Some (CiBuildingCommand 100 True)) (\<lambda>k. sconst (1 / 2)) 17 ex_config
            (Suc 0 + 5) = Inr a'"
proof -
  let ?cmds = "\<lambda>k::nat. Some (CiBuildingCommand 100 True)"
  let ?gs = "\<lambda>k::nat. sconst (1 / 2 :: real)"
  have init: "dropped (state ex_ci) \<longrightarrow> 0 \<le> fatigue (state ex_ci)" by (simp add: ex_ci_def)
  note th = ci_fatigue_floor_and_drop[OF init, of ?cmds ?gs 17 ex_config 0]
  have "(\<forall>k. ?cmds k = None \<or> (\<exists>s on. ?cmds k = Some (CiBuildingCommand s on)))
          \<and> smax_hvac_kw (params ex_ci) \<noteq> 0"
    by (auto simp: ex_ci_def)
  with th obtain a' where a': "ciTrace ex_ci ?cmds ?gs 17 ex_config (Suc 0) = Inr a'" by blast
  have f: "fatigue (state a') = 3" using a' by (auto simp: ci_eval)
  from th a' have p: "0 \<le> fatigue (state a')"
    "2 < fatigue (state a') \<longrightarrow>
       dropped (state a') \<and> (\<forall>k. ciTrace ex_ci ?cmds ?gs 17 ex_config (Suc 0 + k) = Inr a')"
    by blast+
  have "2 < fatigue (state a')" using f by simp
  with p(2) have "dropped (state a')" "ciTrace ex_ci ?cmds ?gs 17 ex_config (Suc 0 + 5) = Inr a'"
    by blast+
  with a' p(1) f show ?thesis by blast
qed

subsection \<open>EV: deadline override and departure\<close>

lemma updateEvResi_dropped:
  "dropped (state a) \<Longrightarrow> updateEvResi a cmd t config g = (Inr (a, 0), g)"
  by (simp add: updateEvResi_def)

lemma updateEvResi_departed:
  assumes "\<not> dropped (state a)" and "ev_t_depart (params a) \<le> real t"
  shows "\<exists>a'. updateEvResi a cmd t config g = (Inr (a', 0), g) \<and> params a' = params a
           \<and> dropped (state a') \<and> \<not> ev_plugged (state a')"
  using assms by (simp add: updateEvResi_def Let_def)

lemma updateEvResi_not_arrived:
  assumes "\<not> dropped (state a)" and "real t < ev_t_depart (params a)"
    and "\<not> ev_plugged (state a)" and "real t < ev_t_arrival (params a)"
  shows "updateEvResi a cmd t config g = (Inr (a, 0), g)"
  using assms by (simp add: updateEvResi_def Let_def)

lemma evCharge_state:
  assumes "evCharge a st cp config g = ((a', d), g')"
  shows "params a' = params a" and "ev_e_kwh (state a') = min (ev_e_kwh st + cp * TIMESTEP_HOURS) (ev_e_capacity_kwh (params a))"
    and "override_active (state a') = override_active st" and "ev_plugged (state a') = ev_plugged st"
    and "dropped (state a') = dropped st" and "0 \<le> d"
  using assms by (auto simp: evCharge_def Let_def split: prod.splits)

lemma updateEvResi_override:
  assumes "\<not> dropped (state a)" and "real t < ev_t_depart (params a)"
    and "ev_plugged (state a) \<or> ev_t_arrival (params a) \<le> real t"
    and "override_active (state a) \<or> deadlinePressure (params a) (ev_e_kwh (state a)) t"
  shows "\<exists>a' d g'. updateEvResi a cmd t config g = (Inr (a', d), g') \<and> params a' = params a
           \<and> override_active (state a') \<and> ev_plugged (state a') \<and> \<not> dropped (state a')
           \<and> ev_e_kwh (state a') = min (ev_e_kwh (state a) + ev_p_max_kw (params a) * TIMESTEP_HOURS)
                                       (ev_e_capacity_kwh (params a))"
proof -
  define st1 where "st1 = (if real t \<ge> ev_t_arrival (params a) \<and> \<not> ev_plugged (state a)
                   then (state a)\<lparr>ev_plugged := True\<rparr> else state a)"
  define st2 where "st2 = (if deadlinePressure (params a) (ev_e_kwh st1) t
                     then st1\<lparr>override_active := True\<rparr> else st1)"
  have p1: "ev_plugged st1" "ev_e_kwh st1 = ev_e_kwh (state a)" "\<not> dropped st1"
    "override_active st1 = override_active (state a)"
    using assms by (auto simp: st1_def)
  have p2: "override_active st2" "ev_plugged st2" "ev_e_kwh st2 = ev_e_kwh (state a)" "\<not> dropped st2"
    using assms(4) p1 by (auto simp: st2_def)
  obtain a' d g' where c: "evCharge a st2 (ev_p_max_kw (params a)) config g = ((a', d), g')"
    by (metis surj_pair)
  have "updateEvResi a cmd t config g =
          (let (r, g') = evCharge a st2 (ev_p_max_kw (params a)) config g in (Inr r, g'))"
    unfolding updateEvResi_def Let_def st1_def[symmetric] st2_def[symmetric]
    using assms(1,2) p1(1) p2(1) by simp
  then have "updateEvResi a cmd t config g = (Inr (a', d), g')" using c by simp
  then show ?thesis using evCharge_state[OF c] p2 by auto
qed

lemma updateEvResi_preserves:
  assumes "updateEvResi a cmd t config g = (Inr (a', d), g')"
  shows "params a' = params a" and "override_active (state a) \<longrightarrow> override_active (state a')"
    and "(dropped (state a) \<longrightarrow> \<not> ev_plugged (state a)) \<longrightarrow> (dropped (state a') \<longrightarrow> \<not> ev_plugged (state a'))"
    and "dropped (state a) \<longrightarrow> a' = a" and "0 \<le> d"
  using assms
  by (auto simp: updateEvResi_def Let_def evCharge_def split: if_splits prod.splits option.splits)

lemma updateEvResi_total:
  assumes "cmd = None \<or> (\<exists>c pw. cmd = Some c \<and> cmd_power_kw c = Some pw)"
  shows "\<exists>a' d g'. updateEvResi a cmd t config g = (Inr (a', d), g')"
  using assms
  by (auto simp: updateEvResi_def Let_def evCharge_def honoured_def rollNoncompliance_def Math_random_def
      split: prod.splits)


lemma evTrace_Suc_Inr:
  assumes "evTrace a cmds gs config (Suc t) = Inr a'"
  obtains b d g' where "evTrace a cmds gs config t = Inr b"
    and "updateEvResi b (cmds t) t config (gs t) = (Inr (a', d), g')"
  using assms by (auto split: sum.splits prod.splits) (metis fst_conv surj_pair)

lemma evTrace_invariant:
  assumes init: "dropped (state a) \<longrightarrow> \<not> ev_plugged (state a)"
    and "evTrace a cmds gs config t = Inr b"
  shows "params b = params a \<and> (dropped (state b) \<longrightarrow> \<not> ev_plugged (state b))"
  using assms(2)
proof (induction t arbitrary: b)
  case 0
  then show ?case using init by simp
next
  case (Suc t)
  from Suc.prems obtain c d g' where c: "evTrace a cmds gs config t = Inr c"
    and u: "updateEvResi c (cmds t) t config (gs t) = (Inr (b, d), g')"
    by (rule evTrace_Suc_Inr)
  show ?case using Suc.IH[OF c] updateEvResi_preserves[OF u] by simp
qed

lemma evTrace_override_stays:
  assumes "evTrace a cmds gs config t = Inr b" and "override_active (state b)"
    and "evTrace a cmds gs config (t + k) = Inr a'"
  shows "override_active (state a')"
  using assms(3)
proof (induction k arbitrary: a')
  case 0
  then show ?case using assms by simp
next
  case (Suc k)
  from Suc.prems have "evTrace a cmds gs config (Suc (t + k)) = Inr a'" by simp
  then obtain c d g' where c: "evTrace a cmds gs config (t + k) = Inr c"
    and u: "updateEvResi c (cmds (t + k)) (t + k) config (gs (t + k)) = (Inr (a', d), g')"
    by (rule evTrace_Suc_Inr)
  show ?case using Suc.IH[OF c] updateEvResi_preserves(2)[OF u] by simp
qed

lemma evTrace_gone_stays:
  assumes "evTrace a cmds gs config t = Inr b" and "dropped (state b)"
  shows "evTrace a cmds gs config (t + k) = Inr b"
  using assms by (induction k) (simp_all add: updateEvResi_dropped)

lemma evTrace_total:
  assumes typed: "\<forall>k. cmds k = None \<or> (\<exists>c pw. cmds k = Some c \<and> cmd_power_kw c = Some pw)"
  shows "\<exists>b. evTrace a cmds gs config t = Inr b"
proof (induction t)
  case 0
  then show ?case by simp
next
  case (Suc t)
  then obtain b where b: "evTrace a cmds gs config t = Inr b" by blast
  from updateEvResi_total[OF typed[rule_format, of t], of b t config "gs t"]
  obtain b' d g' where "updateEvResi b (cmds t) t config (gs t) = (Inr (b', d), g')" by blast
  then show ?case using b by simp
qed

lemma claimed_condition_implies_pressure:
  assumes "0 < ev_p_max_kw p" and "real t < ev_t_depart p"
    and "(ev_t_depart p - real t) * ev_p_max_kw p \<le> 1.1 * (ev_e_req_kwh p - e)"
  shows "deadlinePressure p e t"
proof -
  have pos: "0 < (ev_t_depart p - real t) * ev_p_max_kw p" using assms by simp
  then have "0 < 1.1 * (ev_e_req_kwh p - e)" using assms(3) by (rule less_le_trans)
  then have "0 < ev_e_req_kwh p - e" by simp
  moreover have "ev_p_max_kw p * (ev_t_depart p - real t) * TIMESTEP_HOURS
        \<le> (ev_t_depart p - real t) * ev_p_max_kw p"
    using pos by (simp add: TIMESTEP_HOURS_def TIMESTEP_MINUTES_def mult.commute)
  ultimately show ?thesis using assms(3) by (simp add: deadlinePressure_def Let_def)
qed

text \<open>
  Claim C3, as the code has it. Let an EV start in a state that is not plugged in if it is
  dropped, and let \<open>b\<close> be its state before tick \<open>t\<close>, for any commands and any
  outcomes of the random draws.
  \<^item> If \<open>b\<close> is not dropped, \<open>t\<close> is before \<open>t_depart\<close>, the EV is plugged in (already,
    or because \<open>t\<close> has reached \<open>t_arrival\<close>), and the override is active or the
    deadline test of the code holds, then after the tick the override is active and the
    EV has charged at \<open>p_max_kw\<close>, whatever the command of the tick is.
  \<^item> Once the override is active it is active in every later state.
  \<^item> If \<open>t\<close> has reached \<open>t_depart\<close>, the EV is dropped and unplugged after the tick
    and in every later state.
  \<^item> For an EV with a positive \<open>p_max_kw\<close> before its departure, the condition
    \<open>(t_depart - t) * p_max_kw \<le> 1.1 * (e_req - e_kwh)\<close> implies the deadline test of
    the code, which multiplies the left side by the 5/60 hours of a tick.
  \<^item> When every command carries a \<open>power_kw\<close> (or there is none), every tick yields a
    state.
  An EV that is not yet plugged in is not tested: see \<open>ev_override_counterexample\<close>.
\<close>

theorem ev_override_and_departure:
  assumes init: "dropped (state a) \<longrightarrow> \<not> ev_plugged (state a)"
    and tr: "evTrace a cmds gs config t = Inr b"
  shows "(\<not> dropped (state b) \<and> real t < ev_t_depart (params a)
           \<and> (ev_plugged (state b) \<or> ev_t_arrival (params a) \<le> real t)
           \<and> (override_active (state b) \<or> deadlinePressure (params a) (ev_e_kwh (state b)) t)
          \<longrightarrow> (\<exists>a'. evTrace a cmds gs config (Suc t) = Inr a' \<and> override_active (state a')
                 \<and> ev_e_kwh (state a') =
                     min (ev_e_kwh (state b) + ev_p_max_kw (params a) * TIMESTEP_HOURS)
                         (ev_e_capacity_kwh (params a))))
       \<and> (override_active (state b) \<longrightarrow>
            (\<forall>k a'. evTrace a cmds gs config (t + k) = Inr a' \<longrightarrow> override_active (state a')))
       \<and> (ev_t_depart (params a) \<le> real t \<longrightarrow>
            (\<forall>k a'. evTrace a cmds gs config (Suc t + k) = Inr a'
                \<longrightarrow> dropped (state a') \<and> \<not> ev_plugged (state a')))
       \<and> (0 < ev_p_max_kw (params a) \<and> real t < ev_t_depart (params a)
           \<and> (ev_t_depart (params a) - real t) * ev_p_max_kw (params a)
                \<le> 1.1 * (ev_e_req_kwh (params a) - ev_e_kwh (state b))
          \<longrightarrow> deadlinePressure (params a) (ev_e_kwh (state b)) t)
       \<and> ((\<forall>k. cmds k = None \<or> (\<exists>c pw. cmds k = Some c \<and> cmd_power_kw c = Some pw))
          \<longrightarrow> (\<exists>a'. evTrace a cmds gs config (Suc t) = Inr a'))"
proof (intro conjI impI allI)
  note ib = evTrace_invariant[OF init tr]
  {
    assume h: "\<not> dropped (state b) \<and> real t < ev_t_depart (params a)
           \<and> (ev_plugged (state b) \<or> ev_t_arrival (params a) \<le> real t)
           \<and> (override_active (state b) \<or> deadlinePressure (params a) (ev_e_kwh (state b)) t)"
    from updateEvResi_override[of b t "cmds t" config "gs t"] h ib
    obtain a' d g' where "updateEvResi b (cmds t) t config (gs t) = (Inr (a', d), g')"
      "override_active (state a')"
      "ev_e_kwh (state a') = min (ev_e_kwh (state b) + ev_p_max_kw (params a) * TIMESTEP_HOURS)
                                       (ev_e_capacity_kwh (params a))"
      by auto
    then show "\<exists>a'. evTrace a cmds gs config (Suc t) = Inr a' \<and> override_active (state a')
                 \<and> ev_e_kwh (state a') =
                     min (ev_e_kwh (state b) + ev_p_max_kw (params a) * TIMESTEP_HOURS)
                         (ev_e_capacity_kwh (params a))"
      using tr by simp
  }
  {
    fix k a' assume "override_active (state b)" "evTrace a cmds gs config (t + k) = Inr a'"
    then show "override_active (state a')" using evTrace_override_stays[OF tr] by blast
  }
  {
    fix k a' assume dep: "ev_t_depart (params a) \<le> real t"
      and tk: "evTrace a cmds gs config (Suc t + k) = Inr a'"
    have "\<exists>c. evTrace a cmds gs config (Suc t) = Inr c \<and> dropped (state c) \<and> \<not> ev_plugged (state c)"
    proof (cases "dropped (state b)")
      case True
      then show ?thesis using tr ib by (simp add: updateEvResi_dropped)
    next
      case False
      from updateEvResi_departed[OF False, of t "cmds t" config "gs t"] dep ib
      show ?thesis using tr by auto
    qed
    then obtain c where c: "evTrace a cmds gs config (Suc t) = Inr c" "dropped (state c)"
      "\<not> ev_plugged (state c)" by blast
    from evTrace_gone_stays[OF c(1) c(2), of k] tk have "a' = c" by simp
    then show "dropped (state a')" "\<not> ev_plugged (state a')" using c by simp_all
  }
  {
    assume "0 < ev_p_max_kw (params a) \<and> real t < ev_t_depart (params a)
           \<and> (ev_t_depart (params a) - real t) * ev_p_max_kw (params a)
                \<le> 1.1 * (ev_e_req_kwh (params a) - ev_e_kwh (state b))"
    then show "deadlinePressure (params a) (ev_e_kwh (state b)) t"
      using claimed_condition_implies_pressure by blast
  }
  {
    assume "\<forall>k. cmds k = None \<or> (\<exists>c pw. cmds k = Some c \<and> cmd_power_kw c = Some pw)"
    then show "\<exists>a'. evTrace a cmds gs config (Suc t) = Inr a'"
      using evTrace_total by blast
  }
qed

lemmas ev_eval = eval_nat_numeral ex_ev_late_def ex_ev_def updateEvResi_def Let_def evCharge_def
  deadlinePressure_def TIMESTEP_HOURS_def TIMESTEP_MINUTES_def updateBaselineDrift_def
  applyMeasurementNoise_def Math_random_def ex_config_def honoured_def rollNoncompliance_def

theorem ev_override_and_departure_witness:
  "(\<exists>a'. evTrace ex_ev (\<lambda>k. Some (EvCommand 0)) (\<lambda>k. sconst (1 / 2)) ex_config (Suc 0) = Inr a'
          \<and> override_active (state a') \<and> ev_e_kwh (state a') = 247 / 12)
   \<and> (\<exists>b. evTrace ex_ev_late (\<lambda>k. None) (\<lambda>k. sconst (1 / 2)) ex_config (Suc 12 + 0) = Inr b
          \<and> dropped (state b) \<and> \<not> ev_plugged (state b))"
proof
  let ?cmds = "\<lambda>k::nat. Some (EvCommand 0)"
  let ?gs = "\<lambda>k::nat. sconst (1 / 2 :: real)"
  have init: "dropped (state ex_ev) \<longrightarrow> \<not> ev_plugged (state ex_ev)" by (simp add: ex_ev_def)
  have tr: "evTrace ex_ev ?cmds ?gs ex_config 0 = Inr ex_ev" by simp
  have h: "\<not> dropped (state ex_ev) \<and> real 0 < ev_t_depart (params ex_ev)
           \<and> (ev_plugged (state ex_ev) \<or> ev_t_arrival (params ex_ev) \<le> real 0)
           \<and> (override_active (state ex_ev) \<or> deadlinePressure (params ex_ev) (ev_e_kwh (state ex_ev)) 0)"
    by (simp add: ex_ev_def deadlinePressure_def Let_def TIMESTEP_HOURS_def TIMESTEP_MINUTES_def)
  from ev_override_and_departure[OF init tr] h
  have "\<exists>a'. evTrace ex_ev ?cmds ?gs ex_config (Suc 0) = Inr a' \<and> override_active (state a')
                 \<and> ev_e_kwh (state a') =
                     min (ev_e_kwh (state ex_ev) + ev_p_max_kw (params ex_ev) * TIMESTEP_HOURS)
                         (ev_e_capacity_kwh (params ex_ev))"
    by blast
  then show "\<exists>a'. evTrace ex_ev ?cmds ?gs ex_config (Suc 0) = Inr a'
          \<and> override_active (state a') \<and> ev_e_kwh (state a') = 247 / 12"
    by (simp add: ex_ev_def TIMESTEP_HOURS_def TIMESTEP_MINUTES_def)
next
  let ?cmds = "\<lambda>k::nat. (None :: AssetCommand option)"
  let ?gs = "\<lambda>k::nat. sconst (1 / 2 :: real)"
  have init: "dropped (state ex_ev_late) \<longrightarrow> \<not> ev_plugged (state ex_ev_late)"
    by (simp add: ex_ev_late_def)
  have "\<exists>b. evTrace ex_ev_late ?cmds ?gs ex_config 12 = Inr b"
    by (simp add: ev_eval)
  then obtain b12 where tr: "evTrace ex_ev_late ?cmds ?gs ex_config 12 = Inr b12" by blast
  have "\<exists>b. evTrace ex_ev_late ?cmds ?gs ex_config (Suc 12 + 0) = Inr b"
    by (simp add: ev_eval)
  then obtain b13 where tr13: "evTrace ex_ev_late ?cmds ?gs ex_config (Suc 12 + 0) = Inr b13"
    by blast
  have "ev_t_depart (params ex_ev_late) \<le> real 12" by (simp add: ex_ev_late_def)
  with ev_override_and_departure[OF init tr] tr13
  have "dropped (state b13) \<and> \<not> ev_plugged (state b13)" by blast
  then show "\<exists>b. evTrace ex_ev_late ?cmds ?gs ex_config (Suc 12 + 0) = Inr b
          \<and> dropped (state b) \<and> \<not> ev_plugged (state b)"
    using tr13 by blast
qed

text \<open>
  The claim as stated fails for an EV that has not arrived. \<open>ex_ev_late\<close> arrives at tick
  10 and leaves at tick 12. From tick 0 on it satisfies
  \<open>(t_depart - t) * p_max_kw \<le> 1.1 * (e_req - e_kwh)\<close>, yet the ten updates of the ticks
  0 to 9 return it unchanged, with \<open>override_active = False\<close>.
\<close>

theorem ev_override_counterexample:
  "(ev_t_depart (params ex_ev_late) - real 0) * ev_p_max_kw (params ex_ev_late)
      \<le> 1.1 * (ev_e_req_kwh (params ex_ev_late) - ev_e_kwh (state ex_ev_late))
   \<and> evTrace ex_ev_late (\<lambda>k. Some (EvCommand 0)) (\<lambda>k. sconst (1 / 2)) ex_config 10 = Inr ex_ev_late
   \<and> \<not> override_active (state ex_ev_late)"
  by (simp add: ev_eval)

subsection \<open>Every asset: the power delta is not negative\<close>

lemma noise_factor_nonneg:
  fixes u pct :: real
  assumes "0 \<le> u" "u \<le> 1" "0 \<le> pct" "pct \<le> 1"
  shows "0 \<le> 1 + (u * 2 - 1) * pct"
proof -
  have "- 1 \<le> u * 2 - 1" using assms by simp
  then have "- pct \<le> (u * 2 - 1) * pct" using assms(3)
    by (metis mult_minus_left mult_right_mono mult_1)
  then show ?thesis using assms(4) by linarith
qed

lemma updateBatteryResi_delta:
  assumes "0 \<le> pct_uniform (measurement_noise config)" and "pct_uniform (measurement_noise config) \<le> 1"
    and "\<forall>u \<in> sset g. 0 \<le> u \<and> u < 1"
    and "updateBatteryResi a cmd config g = (Inr (a', d), g')"
  shows "0 \<le> d"
proof (cases "dropped (state a)")
  case True
  then show ?thesis using assms(4) by (simp add: updateBatteryResi_def)
next
  case False
  obtain c g1 where h: "honoured cmd config g = (c, g1)" by force
  have g1: "g1 = g \<or> g1 = stl g" using h
    by (auto simp: honoured_def rollNoncompliance_def Math_random_def Let_def split: option.splits)
  have "shd (stl g1) \<in> sset g" using g1
    by (auto intro: stl_sset shd_sset)
  then have u: "0 \<le> shd (stl g1)" "shd (stl g1) \<le> 1" using assms(3) by force+
  obtain s' po where r: "batteryPowerStep (params a) (soc (state a))
          (case c of None \<Rightarrow> None | Some c' \<Rightarrow> cmd_power_kw c') = Inr (s', po)"
    using assms(4) False h by (auto simp: updateBatteryResi_def Let_def split: sum.splits prod.splits)
  have "d = (if po > 0 then po else 0) * (1 + (shd (stl g1) * 2 - 1) * pct_uniform (measurement_noise config))"
    using assms(4) False h r
    by (auto simp: updateBatteryResi_def Let_def updateBaselineDrift_def applyMeasurementNoise_def
        Math_random_def split: prod.splits)
  then show ?thesis using noise_factor_nonneg[OF u assms(1,2)] by simp
qed

lemma updateHvacResi_delta:
  "updateHvacResi a cmd temp config g = (Inr (a', d), g') \<Longrightarrow> 0 \<le> d"
  by (auto simp: updateHvacResi_def Let_def split: if_splits prod.splits sum.splits)

lemma updateFleetSite_delta:
  "updateFleetSite a cmd t config g = (Inr (a', d), g') \<Longrightarrow> 0 \<le> d"
  by (auto simp: updateFleetSite_def Let_def split: if_splits prod.splits sum.splits)

lemma updateCiBuilding_delta:
  "updateCiBuilding a cmd t sh config g = (Inr (a', d), g') \<Longrightarrow> 0 \<le> d"
  by (auto simp: updateCiBuilding_def Let_def split: if_splits prod.splits sum.splits)

lemma updateEvResi_delta:
  "updateEvResi a cmd t config g = (Inr (a', d), g') \<Longrightarrow> 0 \<le> d"
  by (auto simp: updateEvResi_def Let_def evCharge_def split: if_splits prod.splits option.splits)


lemma fleetPlug_total:
  assumes "\<forall>v \<in> set vl. m (veh_id v) \<noteq> None"
  shows "\<exists>m'. fleetPlug t vl m = Inr m' \<and> dom m' = dom m"
  using assms
proof (induction vl arbitrary: m)
  case Nil
  then show ?case by simp
next
  case (Cons v vl)
  then obtain s where s: "m (veh_id v) = Some s" by auto
  define s2 where "s2 = (let s1 = (if real t \<ge> veh_t_arrival v \<and> \<not> veh_plugged s
                     then s\<lparr>veh_plugged := True\<rparr> else s)
                in (if real t \<ge> veh_t_depart v then s1\<lparr>veh_plugged := False\<rparr> else s1))"
  have d: "dom (m(veh_id v \<mapsto> s2)) = dom m" using s by auto
  have "\<forall>w \<in> set vl. (m(veh_id v \<mapsto> s2)) (veh_id w) \<noteq> None" using Cons.prems by auto
  from Cons.IH[OF this] obtain m' where "fleetPlug t vl (m(veh_id v \<mapsto> s2)) = Inr m'"
    "dom m' = dom (m(veh_id v \<mapsto> s2))" by blast
  then show ?case using s d by (simp add: s2_def Let_def)
qed

lemma fleetAllocate_total:
  assumes "\<forall>v \<in> set vl. m (veh_id v) \<noteq> None \<and> urg (veh_id v) \<noteq> None"
  shows "\<exists>r. fleetAllocate cap tot urg n vl m acc = Inr r"
  using assms
proof (induction vl arbitrary: m acc)
  case Nil
  then show ?case by simp
next
  case (Cons v vl)
  then obtain s u where s: "m (veh_id v) = Some s" "urg (veh_id v) = Some u" by auto
  have ih: "\<exists>r. fleetAllocate cap tot urg n vl (m(veh_id v \<mapsto> s')) acc' = Inr r" for s' acc'
    by (rule Cons.IH) (use Cons.prems in auto)
  show ?case
    by (simp only: fleetAllocate.simps s prod.case option.case Let_def) (rule ih)
qed

lemma updateFleetSite_total:
  assumes "list_all (\<lambda>v. vehicle_state (state a) (veh_id v) \<noteq> None) (vehicles (params a))"
    and "cmd = None \<or> (\<exists>c. cmd = Some (FleetCommand c))"
  shows "\<exists>a' d g'. updateFleetSite a cmd t config g = (Inr (a', d), g')"
proof (cases "dropped (state a)")
  case True
  then show ?thesis by (simp add: updateFleetSite_def)
next
  case False
  from assms(1) have "\<forall>v \<in> set (vehicles (params a)). vehicle_state (state a) (veh_id v) \<noteq> None"
    by (simp add: list_all_iff)
  from fleetPlug_total[OF this, of t] obtain vs1 where
    vs1: "fleetPlug t (vehicles (params a)) (vehicle_state (state a)) = Inr vs1"
      "dom vs1 = dom (vehicle_state (state a))" by blast
  obtain c g1 where h: "honoured cmd config g = (c, g1)" by force
  have c: "c = None \<or> (\<exists>x. c = Some (FleetCommand x))" using h assms(2)
    by (auto simp: honoured_def rollNoncompliance_def Math_random_def Let_def split: if_splits)
  then obtain cap where cap: "(case c of
                     None \<Rightarrow> Inr (u_site_max_kw (params a))
                   | Some c' \<Rightarrow>
                       (case cmd_site_power_cap_kw c' of
                          None \<Rightarrow> Inl NotFinite
                        | Some cap \<Rightarrow> Inr (max 0 (min cap (u_site_max_kw (params a)))))) = (Inr cap :: real result)"
    by auto
  define pv where "pv = filter (fleetNeedy t vs1) (vehicles (params a))"
  define urg where "urg = map_of (rev (map (\<lambda>v. (veh_id v, fleetUrgency t vs1 v)) pv))"
  have "\<forall>v \<in> set pv. vs1 (veh_id v) \<noteq> None \<and> urg (veh_id v) \<noteq> None"
  proof
    fix v assume v: "v \<in> set pv"
    then have "vs1 (veh_id v) \<noteq> None" by (auto simp: pv_def fleetNeedy_def split: option.splits)
    moreover have "veh_id v \<in> fst ` set (rev (map (\<lambda>v. (veh_id v, fleetUrgency t vs1 v)) pv))"
      using v by force
    then have "urg (veh_id v) \<noteq> None" unfolding urg_def by (simp add: map_of_eq_None_iff)
    ultimately show "vs1 (veh_id v) \<noteq> None \<and> urg (veh_id v) \<noteq> None" by simp
  qed
  from fleetAllocate_total[OF this] obtain vs2 p where
    al: "fleetAllocate cap (sum_list (map (fleetUrgency t vs1) pv)) urg (length pv) pv vs1 0 = Inr (vs2, p)"
    by (metis surj_pair)
  show ?thesis using False vs1(1) h cap al
    by (simp add: updateFleetSite_def Let_def pv_def[symmetric] urg_def[symmetric] split: prod.splits)
qed

lemma updateHvacResi_total:
  assumes "cmd = None \<or> (\<exists>d. cmd = Some (HvacCommand d))"
  shows "\<exists>a' d g'. updateHvacResi a cmd temp config g = (Inr (a', d), g')"
  using assms
  by (auto simp: updateHvacResi_def Let_def honoured_def rollNoncompliance_def Math_random_def
      split: prod.splits)

lemma updateBatteryResi_total:
  assumes "e_kwh (params a) \<noteq> 0"
  shows "\<exists>a' d g'. updateBatteryResi a cmd config g = (Inr (a', d), g')"
proof -
  obtain c g1 where h: "honoured cmd config g = (c, g1)" by force
  have "\<exists>r. batteryPowerStep (params a) (soc (state a)) rq = Inr r" for rq
    using assms by (auto simp: batteryPowerStep_def Let_def split: option.splits)
  then obtain s' po where "batteryPowerStep (params a) (soc (state a))
          (case c of None \<Rightarrow> None | Some c' \<Rightarrow> cmd_power_kw c') = Inr (s', po)"
    by (metis surj_pair)
  then show ?thesis using h
    by (simp add: updateBatteryResi_def Let_def split: prod.splits)
qed


lemma lift_result_Inr:
  "lift_result C r = (Inr (x, d), g') \<longleftrightarrow> (\<exists>y. r = (Inr (y, d), g') \<and> x = C y)"
  by (auto simp: lift_result_def split: prod.splits sum.splits)

lemma lift_result_total:
  "\<exists>y d g'. r = (Inr (y, d), g') \<Longrightarrow> \<exists>x d g'. lift_result C r = (Inr (x, d), g')"
  by (auto simp: lift_result_def)

lemma command_matches_cases:
  "command_matches (Hvac x1) c \<Longrightarrow> \<exists>d. c = HvacCommand d"
  "command_matches (Battery x2) c \<Longrightarrow> \<exists>p. c = BatteryCommand p"
  "command_matches (Ev x3) c \<Longrightarrow> \<exists>p. c = EvCommand p"
  "command_matches (Fleet x4) c \<Longrightarrow> \<exists>p. c = FleetCommand p"
  "command_matches (Ci x5) c \<Longrightarrow> \<exists>s on. c = CiBuildingCommand s on"
  by (cases c; simp)+

lemma updateAsset_total:
  assumes "asset_ready a" and "cmd = None \<or> (\<exists>c. cmd = Some c \<and> command_matches a c)"
  shows "\<exists>a' d g'. updateAsset a cmd t temp sh config g = (Inr (a', d), g')"
proof (cases a)
  case (Hvac x)
  then have "cmd = None \<or> (\<exists>d. cmd = Some (HvacCommand d))"
    using assms(2) command_matches_cases(1) by blast
  from updateHvacResi_total[OF this, of x temp config g] show ?thesis
    unfolding Hvac updateAsset.simps by (rule lift_result_total)
next
  case (Battery x)
  then have "e_kwh (params x) \<noteq> 0" using assms(1) by simp
  from updateBatteryResi_total[OF this, of cmd config g] show ?thesis
    unfolding Battery updateAsset.simps by (rule lift_result_total)
next
  case (Ev x)
  then have "cmd = None \<or> (\<exists>p. cmd = Some (EvCommand p))"
    using assms(2) command_matches_cases(3) by blast
  then have "cmd = None \<or> (\<exists>c pw. cmd = Some c \<and> cmd_power_kw c = Some pw)" by auto
  from updateEvResi_total[OF this, of x t config g] show ?thesis
    unfolding Ev updateAsset.simps by (rule lift_result_total)
next
  case (Fleet x)
  then have c: "cmd = None \<or> (\<exists>c. cmd = Some (FleetCommand c))"
    using assms(2) command_matches_cases(4) by blast
  have "list_all (\<lambda>v. vehicle_state (state x) (veh_id v) \<noteq> None) (vehicles (params x))"
    using assms(1) Fleet by simp
  from updateFleetSite_total[OF this c, of t config g] show ?thesis
    unfolding Fleet updateAsset.simps by (rule lift_result_total)
next
  case (Ci x)
  then have c: "cmd = None \<or> (\<exists>s on. cmd = Some (CiBuildingCommand s on))"
    using assms(2) command_matches_cases(5) by blast
  have "smax_hvac_kw (params x) \<noteq> 0" using assms(1) Ci by simp
  from updateCiBuilding_total[OF this c, of t sh config g] show ?thesis
    unfolding Ci updateAsset.simps by (rule lift_result_total)
qed

lemma updateAsset_delta:
  assumes "asset_type a = battery_resi \<longrightarrow>
             0 \<le> pct_uniform (measurement_noise config) \<and> pct_uniform (measurement_noise config) \<le> 1
             \<and> (\<forall>u \<in> sset g. 0 \<le> u \<and> u < 1)"
    and "updateAsset a cmd t temp sh config g = (Inr (a', d), g')"
  shows "0 \<le> d"
proof (cases a)
  case (Hvac x)
  then show ?thesis using assms(2) updateHvacResi_delta by (auto simp: lift_result_Inr)
next
  case (Battery x)
  then obtain y where "updateBatteryResi x cmd config g = (Inr (y, d), g')"
    using assms(2) by (auto simp: lift_result_Inr)
  then show ?thesis using assms(1) Battery updateBatteryResi_delta[of config g x cmd y d g'] by simp
next
  case (Ev x)
  then show ?thesis using assms(2) updateEvResi_delta by (auto simp: lift_result_Inr)
next
  case (Fleet x)
  then show ?thesis using assms(2) updateFleetSite_delta by (auto simp: lift_result_Inr)
next
  case (Ci x)
  then show ?thesis using assms(2) updateCiBuilding_delta by (auto simp: lift_result_Inr)
qed

text \<open>
  Claim C10, as the code has it. Whenever \<^verbatim>\<open>updateAsset\<close> returns a number as
  \<open>powerDelta\<close> (a result \<open>Inr\<close> of the model), for an asset of any type, any command
  or none, and any outcome of the random draws, that number is at least 0, when the noise
  share of a battery is at most 1. A command of another variant can make the
  \<open>powerDelta\<close> NaN, which is not at least 0.
  The HVAC, EV, fleet and C&I updates end with \<^verbatim>\<open>Math.max(0, powerDelta)\<close> (or return
  0). The battery update clamps \<open>powerOutput\<close> at 0 before the measurement noise and not
  after it, so for a battery the statement rests on the noise factor
  \<open>1 + (u * 2 - 1) * pct_uniform\<close> being at least 0: on draws \<open>u\<close> between 0 and 1, as
  \<^verbatim>\<open>Math.random()\<close> gives them, and a noise share \<open>pct_uniform\<close> between 0 and 1.
  A result is returned for every asset that satisfies \<open>asset_ready\<close> and every command
  of the asset's own variant.
\<close>

theorem updateAsset_powerDelta_nonneg:
  assumes "asset_type a = battery_resi \<longrightarrow>
             0 \<le> pct_uniform (measurement_noise config) \<and> pct_uniform (measurement_noise config) \<le> 1
             \<and> (\<forall>u \<in> sset g. 0 \<le> u \<and> u < 1)"
  shows "(\<forall>a' d g'. updateAsset a cmd t temp sh config g = (Inr (a', d), g') \<longrightarrow> 0 \<le> d)
       \<and> (asset_ready a \<and> (cmd = None \<or> (\<exists>c. cmd = Some c \<and> command_matches a c))
            \<longrightarrow> (\<exists>a' d g'. updateAsset a cmd t temp sh config g = (Inr (a', d), g')))"
  using updateAsset_delta[OF assms] updateAsset_total by blast

theorem updateAsset_powerDelta_nonneg_witness:
  "\<exists>a' d g'. updateAsset (Battery ex_battery) (Some (BatteryCommand 3)) 0 90 17 ex_config (sconst (1 / 2))
                = (Inr (a', d), g') \<and> 0 \<le> d"
proof -
  have h: "asset_type (Battery ex_battery) = battery_resi \<longrightarrow>
             0 \<le> pct_uniform (measurement_noise ex_config) \<and> pct_uniform (measurement_noise ex_config) \<le> 1
             \<and> (\<forall>u \<in> sset (sconst (1 / 2 :: real)). 0 \<le> u \<and> u < 1)"
    by (simp add: ex_config_def)
  have r: "asset_ready (Battery ex_battery)
      \<and> (Some (BatteryCommand 3) = None
           \<or> (\<exists>c. Some (BatteryCommand 3) = Some c \<and> command_matches (Battery ex_battery) c))"
    by (simp add: ex_battery_def)
  from updateAsset_powerDelta_nonneg[OF h, of "Some (BatteryCommand 3)" 0 90 17] r
  show ?thesis by blast
qed

text \<open>
  With a noise share of 2 and a draw of 0 for the measurement noise, a battery that
  discharges 3 kW reports a \<open>powerDelta\<close> of -3. An EV that is given an HVAC command
  reads \<^verbatim>\<open>command.power_kw\<close>, which is \<^verbatim>\<open>undefined\<close>, and its charge power and
  \<open>powerDelta\<close> are NaN.
\<close>

theorem updateAsset_powerDelta_counterexample:
  "\<not> isl (fst (updateAsset (Battery ex_battery) (Some (BatteryCommand 3)) 0 90 17 ex_noisy_config
                 (1 / 2 ## 1 / 2 ## sconst 0)))
   \<and> snd (projr (fst (updateAsset (Battery ex_battery) (Some (BatteryCommand 3)) 0 90 17 ex_noisy_config
                        (1 / 2 ## 1 / 2 ## sconst 0)))) = - 3
   \<and> fst (updateAsset (Ev (ex_ev\<lparr>state := (state ex_ev)\<lparr>ev_e_kwh := 39\<rparr>\<rparr>)) (Some (HvacCommand 1))
            0 90 17 ex_config (sconst (1 / 2))) = Inl NotFinite"
  by (simp add: ex_battery_def ex_ev_def ex_config_def ex_noisy_config_def updateBatteryResi_def
      batteryPowerStep_def updateEvResi_def deadlinePressure_def evCharge_def honoured_def
      rollNoncompliance_def Math_random_def Let_def lift_result_def updateBaselineDrift_def
      applyMeasurementNoise_def TIMESTEP_HOURS_def TIMESTEP_MINUTES_def)

subsection \<open>A command of another variant\<close>

lemma honoured_congr:
  "fst (honoured (Some c) config g) = None \<or> fst (honoured (Some c) config g) = Some c"
  "snd (honoured (Some c) config g) = snd (honoured (Some c') config g)"
  "fst (honoured (Some c) config g) = None \<longleftrightarrow> fst (honoured (Some c') config g) = None"
  by (auto simp: honoured_def rollNoncompliance_def Math_random_def Let_def)

lemma battery_reads_power_only:
  assumes "cmd_power_kw c = cmd_power_kw c'"
  shows "updateBatteryResi a (Some c) config g = updateBatteryResi a (Some c') config g"
  using assms
  by (simp add: updateBatteryResi_def honoured_def rollNoncompliance_def Math_random_def Let_def)

lemma battery_without_power:
  assumes "cmd_power_kw c = None"
  shows "updateBatteryResi a (Some c) config g = updateBatteryResi a (Some (BatteryCommand 0)) config g"
  using assms
  by (simp add: updateBatteryResi_def honoured_def rollNoncompliance_def Math_random_def Let_def
      batteryPowerStep_def)

lemma ev_reads_power_only:
  assumes "cmd_power_kw c = cmd_power_kw c'"
  shows "updateEvResi a (Some c) t config g = updateEvResi a (Some c') t config g"
  using assms
  by (simp add: updateEvResi_def honoured_def rollNoncompliance_def Math_random_def Let_def)

lemma ev_without_power:
  assumes "cmd_power_kw c = None"
  shows "updateEvResi a (Some c) t config g = updateEvResi a (Some (EvCommand 0)) t config g
         \<or> fst (updateEvResi a (Some c) t config g) = Inl NotFinite"
  using assms
  by (simp add: updateEvResi_def honoured_def rollNoncompliance_def Math_random_def Let_def)

lemma hvac_without_delta:
  assumes "cmd_delta_setpoint_f c = None"
  shows "updateHvacResi a (Some c) temp config g = updateHvacResi a (Some (HvacCommand 0)) temp config g
         \<or> fst (updateHvacResi a (Some c) temp config g) = Inl NotFinite"
  using assms
  by (simp add: updateHvacResi_def honoured_def rollNoncompliance_def Math_random_def Let_def)

lemma fleet_without_cap:
  assumes "cmd_site_power_cap_kw c = None"
  shows "updateFleetSite a (Some c) t config g = updateFleetSite a (Some (FleetCommand 0)) t config g
         \<or> fst (updateFleetSite a (Some c) t config g) = Inl NotFinite"
  using assms
  by (simp add: updateFleetSite_def honoured_def rollNoncompliance_def Math_random_def Let_def
      split: sum.splits)

lemma ci_without_fields:
  assumes "cmd_hvac_shed_kw c = None"
  shows "updateCiBuilding a (Some c) t sh config g = updateCiBuilding a (Some (CiBuildingCommand 0 True)) t sh config g
         \<or> fst (updateCiBuilding a (Some c) t sh config g) = Inl NotFinite"
  using assms
  by (simp add: updateCiBuilding_def honoured_def rollNoncompliance_def Math_random_def Let_def
      split: sum.splits)


lemma lift_result_fst_Inl:
  "fst r = Inl e \<Longrightarrow> fst (lift_result C r) = Inl e"
  by (auto simp: lift_result_def split: prod.splits sum.splits)

text \<open>
  Claim C8, as the code has it. \<^verbatim>\<open>updateAsset\<close> chooses the update function by the type
  of the asset alone and never looks at the variant of the command; its result type has no
  value for an inapplicable pair. For a command whose variant does not match the asset, the
  call either returns exactly what it returns for some command of the matching variant, or
  the update reads a field the command does not have and computes with \<^verbatim>\<open>undefined\<close>
  (\<open>Inl NotFinite\<close>). In particular an EV command given to a battery acts as the
  battery command with the same \<open>power_kw\<close>, and a battery command given to an EV as the
  EV command with the same \<open>power_kw\<close>.
\<close>

theorem updateAsset_ignores_variant:
  assumes "\<not> command_matches x c"
  shows "((\<exists>c'. command_matches x c'
              \<and> updateAsset x (Some c) t temp sh config g = updateAsset x (Some c') t temp sh config g)
          \<or> fst (updateAsset x (Some c) t temp sh config g) = Inl NotFinite)
       \<and> updateAsset (Battery b) (Some (EvCommand p)) t temp sh config g
           = updateAsset (Battery b) (Some (BatteryCommand p)) t temp sh config g
       \<and> updateAsset (Ev e) (Some (BatteryCommand p)) t temp sh config g
           = updateAsset (Ev e) (Some (EvCommand p)) t temp sh config g"
proof (intro conjI)
  show "updateAsset (Battery b) (Some (EvCommand p)) t temp sh config g
           = updateAsset (Battery b) (Some (BatteryCommand p)) t temp sh config g"
    using battery_reads_power_only[of "EvCommand p" "BatteryCommand p"] by simp
  show "updateAsset (Ev e) (Some (BatteryCommand p)) t temp sh config g
           = updateAsset (Ev e) (Some (EvCommand p)) t temp sh config g"
    using ev_reads_power_only[of "BatteryCommand p" "EvCommand p"] by simp
  show "(\<exists>c'. command_matches x c'
              \<and> updateAsset x (Some c) t temp sh config g = updateAsset x (Some c') t temp sh config g)
          \<or> fst (updateAsset x (Some c) t temp sh config g) = Inl NotFinite"
  proof (cases x)
    case (Hvac a)
    then have "cmd_delta_setpoint_f c = None" using assms by (cases c) auto
    from hvac_without_delta[OF this, of a temp config g] show ?thesis
    proof
      assume "updateHvacResi a (Some c) temp config g = updateHvacResi a (Some (HvacCommand 0)) temp config g"
      then have "command_matches x (HvacCommand 0)
              \<and> updateAsset x (Some c) t temp sh config g = updateAsset x (Some (HvacCommand 0)) t temp sh config g"
        using Hvac by simp
      then show ?thesis by blast
    next
      assume "fst (updateHvacResi a (Some c) temp config g) = Inl NotFinite"
      then show ?thesis using Hvac by (simp add: lift_result_fst_Inl)
    qed
  next
    case (Battery a)
    show ?thesis
    proof (cases "cmd_power_kw c")
      case None
      from battery_without_power[OF this, of a config g]
      have "command_matches x (BatteryCommand 0)
              \<and> updateAsset x (Some c) t temp sh config g = updateAsset x (Some (BatteryCommand 0)) t temp sh config g"
        using Battery by simp
      then show ?thesis by blast
    next
      case (Some pw)
      then have "cmd_power_kw c = cmd_power_kw (BatteryCommand pw)" by simp
      from battery_reads_power_only[OF this, of a config g]
      have "command_matches x (BatteryCommand pw)
              \<and> updateAsset x (Some c) t temp sh config g = updateAsset x (Some (BatteryCommand pw)) t temp sh config g"
        using Battery by simp
      then show ?thesis by blast
    qed
  next
    case (Ev a)
    show ?thesis
    proof (cases "cmd_power_kw c")
      case None
      from ev_without_power[OF this, of a t config g] show ?thesis
      proof
        assume "updateEvResi a (Some c) t config g = updateEvResi a (Some (EvCommand 0)) t config g"
        then have "command_matches x (EvCommand 0)
              \<and> updateAsset x (Some c) t temp sh config g = updateAsset x (Some (EvCommand 0)) t temp sh config g"
          using Ev by simp
        then show ?thesis by blast
      next
        assume "fst (updateEvResi a (Some c) t config g) = Inl NotFinite"
        then show ?thesis using Ev by (simp add: lift_result_fst_Inl)
      qed
    next
      case (Some pw)
      then have "cmd_power_kw c = cmd_power_kw (EvCommand pw)" by simp
      from ev_reads_power_only[OF this, of a t config g]
      have "command_matches x (EvCommand pw)
              \<and> updateAsset x (Some c) t temp sh config g = updateAsset x (Some (EvCommand pw)) t temp sh config g"
        using Ev by simp
      then show ?thesis by blast
    qed
  next
    case (Fleet a)
    then have "cmd_site_power_cap_kw c = None" using assms by (cases c) auto
    from fleet_without_cap[OF this, of a t config g] show ?thesis
    proof
      assume "updateFleetSite a (Some c) t config g = updateFleetSite a (Some (FleetCommand 0)) t config g"
      then have "command_matches x (FleetCommand 0)
              \<and> updateAsset x (Some c) t temp sh config g = updateAsset x (Some (FleetCommand 0)) t temp sh config g"
        using Fleet by simp
      then show ?thesis by blast
    next
      assume "fst (updateFleetSite a (Some c) t config g) = Inl NotFinite"
      then show ?thesis using Fleet by (simp add: lift_result_fst_Inl)
    qed
  next
    case (Ci a)
    then have "cmd_hvac_shed_kw c = None" using assms by (cases c) auto
    from ci_without_fields[OF this, of a t sh config g] show ?thesis
    proof
      assume "updateCiBuilding a (Some c) t sh config g
                = updateCiBuilding a (Some (CiBuildingCommand 0 True)) t sh config g"
      then have "command_matches x (CiBuildingCommand 0 True)
              \<and> updateAsset x (Some c) t temp sh config g
                  = updateAsset x (Some (CiBuildingCommand 0 True)) t temp sh config g"
        using Ci by simp
      then show ?thesis by blast
    next
      assume "fst (updateCiBuilding a (Some c) t sh config g) = Inl NotFinite"
      then show ?thesis using Ci by (simp add: lift_result_fst_Inl)
    qed
  qed
qed

theorem updateAsset_ignores_variant_witness:
  "(\<exists>c'. command_matches (Battery ex_battery) c'
       \<and> updateAsset (Battery ex_battery) (Some (EvCommand 3)) 0 90 17 ex_config (sconst (1 / 2))
          = updateAsset (Battery ex_battery) (Some c') 0 90 17 ex_config (sconst (1 / 2)))
   \<or> fst (updateAsset (Battery ex_battery) (Some (EvCommand 3)) 0 90 17 ex_config (sconst (1 / 2)))
        = Inl NotFinite"
proof -
  have "\<not> command_matches (Battery ex_battery) (EvCommand 3)" by simp
  from updateAsset_ignores_variant[OF this] show ?thesis by blast
qed

text \<open>
  The claim as stated fails: the battery \<open>ex_battery\<close> given the EV command of 3 kW is
  neither rejected nor left alone. The call returns an ordinary result in which the battery
  has discharged at 3 kW for the tick (its state of charge falls from 0.5 to 0.475) and
  reports a \<open>powerDelta\<close> of 3.
\<close>

theorem updateAsset_mismatch_counterexample:
  "\<not> command_matches (Battery ex_battery) (EvCommand 3)
   \<and> updateAsset (Battery ex_battery) (Some (EvCommand 3)) 0 90 17 ex_config (sconst (1 / 2))
       = (Inr (Battery (ex_battery\<lparr>state := (state ex_battery)\<lparr>soc := 19 / 40\<rparr>\<rparr>), 3), sconst (1 / 2))"
  by (simp add: ex_battery_def ex_config_def updateBatteryResi_def batteryPowerStep_def honoured_def
      rollNoncompliance_def Math_random_def Let_def lift_result_def updateBaselineDrift_def
      applyMeasurementNoise_def TIMESTEP_HOURS_def TIMESTEP_MINUTES_def)

section \<open>Properties of the dispatch strategies\<close>

subsection \<open>Thermostat commands\<close>

text \<open>
  For a thermostat \<^verbatim>\<open>createDispatchCommand\<close> turns the requested power into the setpoint
  shift \<^verbatim>\<open>Math.min(maxShift, targetKw / hvac_kw * 2)\<close>, negated for heating and rounded
  by \<^verbatim>\<open>Math.round\<close>. The cap \<open>maxShift\<close> lies between 0 and 3 for an intensity between
  0 and 100, and the ratio is at most 2 when the requested power is at most \<open>hvac_kw\<close>.
\<close>

lemma abs_of_int_le:
  fixes n k :: int
  assumes "- k \<le> n" and "n \<le> k"
  shows "\<bar>real_of_int n\<bar> \<le> real_of_int k"
proof -
  have "\<bar>n\<bar> \<le> k" using assms by simp
  then have "real_of_int \<bar>n\<bar> \<le> real_of_int k" by (simp only: of_int_le_iff)
  then show ?thesis by simp
qed

lemma Math_round_bounded:
  fixes k :: int
  assumes "0 \<le> x" and "x \<le> real_of_int k"
  shows "Math_round x \<in> \<int>" and "\<bar>Math_round x\<bar> \<le> real_of_int k"
    and "Math_round (- x) \<in> \<int>" and "\<bar>Math_round (- x)\<bar> \<le> real_of_int k"
proof -
  have k0: "0 \<le> k" using assms by linarith
  have "real_of_int 0 \<le> x + 1 / 2" using assms(1) by simp
  then have f0: "0 \<le> \<lfloor>x + 1 / 2\<rfloor>" by (simp only: le_floor_iff)
  have "x + 1 / 2 < real_of_int (k + 1)" using assms(2) by simp
  then have "\<lfloor>x + 1 / 2\<rfloor> < k + 1" by (simp only: floor_less_iff)
  then have f1: "\<lfloor>x + 1 / 2\<rfloor> \<le> k" by linarith
  from f0 k0 have f2: "- k \<le> \<lfloor>x + 1 / 2\<rfloor>" by linarith
  from abs_of_int_le[OF f2 f1] show "\<bar>Math_round x\<bar> \<le> real_of_int k"
    by (simp only: Math_round_def)
  have "real_of_int (- k) \<le> - x + 1 / 2" using assms(2) by simp
  then have g0: "- k \<le> \<lfloor>- x + 1 / 2\<rfloor>" by (simp only: le_floor_iff)
  have "- x + 1 / 2 < real_of_int (0 + 1)" using assms(1) by simp
  then have "\<lfloor>- x + 1 / 2\<rfloor> < 0 + 1" by (simp only: floor_less_iff)
  with k0 have g1: "\<lfloor>- x + 1 / 2\<rfloor> \<le> k" by linarith
  from abs_of_int_le[OF g0 g1] show "\<bar>Math_round (- x)\<bar> \<le> real_of_int k"
    by (simp only: Math_round_def)
  show "Math_round x \<in> \<int>" "Math_round (- x) \<in> \<int>" by (simp_all add: Math_round_def)
qed

lemma conservation_range:
  "0 \<le> conservationFactor (RISK_POSTURE_PARAMS posture) \<and> conservationFactor (RISK_POSTURE_PARAMS posture) \<le> 1"
  by (cases posture) simp_all

lemma maxShift_range:
  fixes i cf :: real
  assumes "0 \<le> i" "i \<le> 100" "0 \<le> cf" "cf \<le> 1"
  shows "0 \<le> (1 + i / 100 * 2) * (1 - cf * (1.5 - i / 100) * 0.3)"
    and "(1 + i / 100 * 2) * (1 - cf * (1.5 - i / 100) * 0.3) \<le> 3"
proof -
  define u where "u = 1 + i / 100 * 2"
  define w where "w = 1.5 - i / 100"
  define v where "v = 1 - cf * w * 0.3"
  have u: "0 \<le> u" "u \<le> 3" using assms by (simp_all add: u_def)
  have w: "0 \<le> w" "w \<le> 1.5" using assms by (simp_all add: w_def)
  have "cf * w \<le> 1 * 1.5" using assms(3,4) w by (intro mult_mono) simp_all
  moreover have "0 \<le> cf * w" using assms(3) w(1) by (rule mult_nonneg_nonneg)
  ultimately have v: "0 \<le> v" "v \<le> 1" by (simp_all add: v_def)
  from u(1) v(1) have "0 \<le> u * v" by (rule mult_nonneg_nonneg)
  moreover have "u * v \<le> 3 * 1" using u v by (intro mult_mono) simp_all
  ultimately show "0 \<le> (1 + i / 100 * 2) * (1 - cf * (1.5 - i / 100) * 0.3)"
    and "(1 + i / 100 * 2) * (1 - cf * (1.5 - i / 100) * 0.3) \<le> 3"
    by (simp_all only: u_def v_def w_def mult_1_right)
qed

lemma createDispatchCommand_hvac:
  assumes "0 \<le> i" "i \<le> 100" "0 \<le> t" "0 < hvac_kw (params h)"
  shows "\<exists>d. createDispatchCommand (Hvac h) t (RISK_POSTURE_PARAMS posture) i
              = Inr (Some \<lparr>asset_id_of = id' h, command = HvacCommand d\<rparr>)
            \<and> d \<in> \<int> \<and> \<bar>d\<bar> \<le> 3 \<and> (t \<le> hvac_kw (params h) \<longrightarrow> \<bar>d\<bar> \<le> 2)"
proof -
  define m where "m = (1 + i / 100 * 2) * (1 - conservationFactor (RISK_POSTURE_PARAMS posture) * (1.5 - i / 100) * 0.3)"
  define x where "x = min m (t / hvac_kw (params h) * 2)"
  have m: "0 \<le> m" "m \<le> 3" unfolding m_def
    using maxShift_range[OF assms(1,2)] conservation_range by blast+
  have r0: "0 \<le> t / hvac_kw (params h) * 2" using assms(3,4) by simp
  then have x: "0 \<le> x" "x \<le> real_of_int 3" using m unfolding x_def by (simp_all add: min_def)
  have x2: "x \<le> real_of_int 2" if "t \<le> hvac_kw (params h)"
  proof -
    have "t / hvac_kw (params h) * 2 \<le> 2" using that assms(4) by (simp add: field_simps)
    then show ?thesis unfolding x_def by (simp add: min_def)
  qed
  have c: "createDispatchCommand (Hvac h) t (RISK_POSTURE_PARAMS posture) i
          = Inr (Some \<lparr>asset_id_of = id' h,
                        command = HvacCommand (Math_round (if mode (params h) = cooling then x else - x))\<rparr>)"
    using assms(4) by (simp add: Let_def x_def m_def)
  have "\<bar>Math_round (if mode (params h) = cooling then x else - x)\<bar> \<le> 3"
    "Math_round (if mode (params h) = cooling then x else - x) \<in> \<int>"
    using Math_round_bounded[OF x] by auto
  moreover have "\<bar>Math_round (if mode (params h) = cooling then x else - x)\<bar> \<le> 2"
    if "t \<le> hvac_kw (params h)"
    using Math_round_bounded[OF x(1) x2[OF that]] by auto
  ultimately show ?thesis using c by blast
qed

text \<open>
  Claim C9, as the code has it. For a thermostat with \<open>hvac_kw > 0\<close>, a requested power
  that is not negative, any risk posture and an intensity between 0 and 100,
  \<^verbatim>\<open>createDispatchCommand\<close> returns a thermostat command whose \<open>delta_setpoint_f\<close> is a
  whole number of absolute value at most 3, and of absolute value at most 2 when the
  requested power is at most \<open>hvac_kw\<close>. The code has no clamp at 2: the only cap of the
  shift is \<open>maxShift\<close>, which the source describes as 0 to 3 degrees.
\<close>

theorem hvac_command_delta:
  assumes "0 \<le> intensity" and "intensity \<le> 100" and "0 \<le> targetKw" and "0 < hvac_kw (params hvac)"
  shows "\<exists>d. createDispatchCommand (Hvac hvac) targetKw (RISK_POSTURE_PARAMS posture) intensity
              = Inr (Some \<lparr>asset_id_of = id' hvac, command = HvacCommand d\<rparr>)
            \<and> d \<in> \<int> \<and> \<bar>d\<bar> \<le> 3 \<and> (targetKw \<le> hvac_kw (params hvac) \<longrightarrow> \<bar>d\<bar> \<le> 2)"
  using assms by (rule createDispatchCommand_hvac)

theorem hvac_command_delta_witness:
  "createDispatchCommand (Hvac ex_hvac) 3 (RISK_POSTURE_PARAMS neutral) 50
     = Inr (Some \<lparr>asset_id_of = ''hvac_2'', command = HvacCommand 2\<rparr>)
   \<and> (2 :: real) \<in> \<int> \<and> \<bar>2 :: real\<bar> \<le> 2"
proof -
  have h: "0 \<le> (50 :: real)" "(50 :: real) \<le> 100" "0 \<le> (3 :: real)" "0 < hvac_kw (params ex_hvac)"
    "(3 :: real) \<le> hvac_kw (params ex_hvac)"
    by (simp_all add: ex_hvac_def)
  from hvac_command_delta[OF h(1-4), of neutral] h(5) obtain d where
    d: "createDispatchCommand (Hvac ex_hvac) 3 (RISK_POSTURE_PARAMS neutral) 50
          = Inr (Some \<lparr>asset_id_of = id' ex_hvac, command = HvacCommand d\<rparr>)"
       "d \<in> \<int>" "\<bar>d\<bar> \<le> 2" by blast
  have "createDispatchCommand (Hvac ex_hvac) 3 (RISK_POSTURE_PARAMS neutral) 50
     = Inr (Some \<lparr>asset_id_of = ''hvac_2'', command = HvacCommand 2\<rparr>)"
    by (simp add: ex_hvac_def Math_round_def Let_def)
  with d have "d = 2" by simp
  with d show ?thesis by (simp add: ex_hvac_def)
qed

text \<open>
  At intensity 100 a request of 10 kW to the thermostat of 4 kW gives a shift of 3
  degrees.
\<close>

theorem hvac_command_delta_counterexample:
  "createDispatchCommand (Hvac ex_hvac) 10 (RISK_POSTURE_PARAMS neutral) 100
     = Inr (Some \<lparr>asset_id_of = ''hvac_2'', command = HvacCommand 3\<rparr>)
   \<and> \<not> \<bar>3 :: real\<bar> \<le> 2"
  by (simp add: ex_hvac_def Math_round_def Let_def)

text \<open>
  Both callers of \<^verbatim>\<open>createDispatchCommand\<close>, \<^verbatim>\<open>dispatchToTarget\<close> and
  \<^verbatim>\<open>maintainPreviousDispatch\<close>, request at most the capacity of the asset, which for a
  thermostat is \<open>hvac_kw\<close>. So every thermostat command in a command list of
  \<^verbatim>\<open>executeComposableStrategy\<close> has a whole shift of absolute value at most 2
  (\<open>hvacDeltaOk\<close>), for every framework, target and outcome of the draws, when the
  intensity of the thermostats is between 0 and 100 (\<open>hvacIntensityOk\<close>).
\<close>

lemma sortInsert_set: "set (sortInsert x ys) = insert x (set ys)"
  by (induction ys) auto

lemma sortByScore_set: "set (sortByScore xs) = set xs"
  unfolding sortByScore_def by (induction xs) (simp_all add: sortInsert_set)

lemma contextIntensity_hvac:
  assumes "hvacIntensityOk ctx" and "contextIntensity ctx hvac_resi = Inr i"
  shows "0 \<le> i \<and> i \<le> 100"
  using assms
  by (auto simp: hvacIntensityOk_def contextIntensity_def split: option.splits)

lemma createDispatchCommand_other:
  assumes "createDispatchCommand a t rp i = Inr (Some c)" and "asset_type a \<noteq> hvac_resi"
  shows "hvacDeltaOk c"
  using assms by (cases a) (auto simp: hvacDeltaOk_def Let_def split: if_splits)

lemma createDispatchCommand_ok:
  assumes "createDispatchCommand (sa_asset sa) t (RISK_POSTURE_PARAMS posture) i = Inr (Some c)"
    and "hvacScored sa" and "0 \<le> t" and "t \<le> sa_capacity sa"
    and "asset_type (sa_asset sa) = hvac_resi \<longrightarrow> 0 \<le> i \<and> i \<le> 100"
  shows "hvacDeltaOk c"
proof (cases "asset_type (sa_asset sa) = hvac_resi")
  case True
  then obtain h where h: "sa_asset sa = Hvac h" by (cases "sa_asset sa") simp_all
  then have k: "sa_capacity sa = hvac_kw (params h)" "0 < hvac_kw (params h)"
    using assms(2) by (simp_all add: hvacScored_def)
  from assms(5) True have i: "0 \<le> i" "i \<le> 100" by simp_all
  from createDispatchCommand_hvac[OF i assms(3) k(2), of posture] assms(4) k(1)
  obtain d where "createDispatchCommand (Hvac h) t (RISK_POSTURE_PARAMS posture) i
              = Inr (Some \<lparr>asset_id_of = id' h, command = HvacCommand d\<rparr>)" "d \<in> \<int>" "\<bar>d\<bar> \<le> 2"
    by auto
  then show ?thesis using assms(1) h by (auto simp: hvacDeltaOk_def)
next
  case False
  from createDispatchCommand_other[OF assms(1) False] show ?thesis .
qed

lemma dispatchToTarget_hvac_ok:
  assumes "\<forall>sa\<in>set sel. hvacScored sa" and "hvacIntensityOk ctx"
    and "dispatchToTarget sel t ctx (RISK_POSTURE_PARAMS posture) = Inr cmds"
  shows "\<forall>c\<in>set cmds. hvacDeltaOk c"
  using assms
proof (induction sel arbitrary: t cmds)
  case Nil
  then show ?case by simp
next
  case (Cons sa rest)
  show ?case
  proof (cases "t \<le> 0")
    case True
    with Cons.prems(3) show ?thesis by simp
  next
    case False
    from False Cons.prems(3) obtain i where
      ci: "contextIntensity ctx (asset_type (sa_asset sa)) = Inr i"
      by (auto split: sum.splits)
    define amt where "amt = min (sa_capacity sa * (0.5 + (i / 100) * 0.5)) t"
    have sc: "hvacScored sa" and rest: "\<forall>sa\<in>set rest. hvacScored sa" using Cons.prems(1) by simp_all
    have ii: "asset_type (sa_asset sa) = hvac_resi \<longrightarrow> 0 \<le> i \<and> i \<le> 100"
      using contextIntensity_hvac[OF Cons.prems(2)] ci by auto
    have amt_ok: "asset_type (sa_asset sa) = hvac_resi \<longrightarrow> 0 \<le> amt \<and> amt \<le> sa_capacity sa"
    proof
      assume h: "asset_type (sa_asset sa) = hvac_resi"
      then obtain hv where hv: "sa_asset sa = Hvac hv" by (cases "sa_asset sa") simp_all
      with sc have cap: "0 < sa_capacity sa" by (simp add: hvacScored_def)
      from ii h have i: "0 \<le> i" "i \<le> 100" by simp_all
      then have m: "0 \<le> 0.5 + (i / 100) * 0.5" "0.5 + (i / 100) * 0.5 \<le> 1" by simp_all
      have "sa_capacity sa * (0.5 + (i / 100) * 0.5) \<le> sa_capacity sa * 1"
        using cap m by (intro mult_left_mono) simp_all
      moreover have "0 \<le> sa_capacity sa * (0.5 + (i / 100) * 0.5)"
        using cap m by (intro mult_nonneg_nonneg) simp_all
      ultimately show "0 \<le> amt \<and> amt \<le> sa_capacity sa"
        using False unfolding amt_def by (simp add: min_def)
    qed
    have step: "dispatchToTarget (sa # rest) t ctx (RISK_POSTURE_PARAMS posture) =
        (case createDispatchCommand (sa_asset sa) amt (RISK_POSTURE_PARAMS posture) i of
             Inl e \<Rightarrow> Inl e
           | Inr None \<Rightarrow> dispatchToTarget rest t ctx (RISK_POSTURE_PARAMS posture)
           | Inr (Some c) \<Rightarrow>
               (case getCommandContribution (sa_asset sa) c (RISK_POSTURE_PARAMS posture) of
                  Inl e \<Rightarrow> Inl e
                | Inr contribution \<Rightarrow>
                    (case dispatchToTarget rest (t - contribution) ctx (RISK_POSTURE_PARAMS posture) of
                       Inl e \<Rightarrow> Inl e
                     | Inr commands \<Rightarrow> Inr (c # commands))))"
      using False ci by (simp add: Let_def amt_def)
    show ?thesis
    proof (cases "createDispatchCommand (sa_asset sa) amt (RISK_POSTURE_PARAMS posture) i")
      case (Inl e)
      with step Cons.prems(3) show ?thesis by simp
    next
      case (Inr oc)
      show ?thesis
      proof (cases oc)
        case None
        with Inr step Cons.prems(3)
        have "dispatchToTarget rest t ctx (RISK_POSTURE_PARAMS posture) = Inr cmds" by simp
        from Cons.IH[OF rest Cons.prems(2) this] show ?thesis .
      next
        case (Some c)
        have cok: "hvacDeltaOk c"
        proof (cases "asset_type (sa_asset sa) = hvac_resi")
          case True
          with amt_ok have "0 \<le> amt" "amt \<le> sa_capacity sa" by simp_all
          from createDispatchCommand_ok[OF _ sc this ii] Inr Some show ?thesis by simp
        next
          case False
          from createDispatchCommand_other[OF _ False] Inr Some show ?thesis by simp
        qed
        from Inr Some step Cons.prems(3) obtain contribution cmds' where
          "dispatchToTarget rest (t - contribution) ctx (RISK_POSTURE_PARAMS posture) = Inr cmds'"
          "cmds = c # cmds'"
          by (auto split: sum.splits)
        with Cons.IH[OF rest Cons.prems(2) this(1)] cok show ?thesis by simp
      qed
    qed
  qed
qed

lemma maintainLoop_hvac_ok:
  assumes "\<forall>sa\<in>set sel. hvacScored sa"
    and "maintainLoop ctx (RISK_POSTURE_PARAMS posture) sel = Inr cmds"
  shows "\<forall>c\<in>set cmds. hvacDeltaOk c"
  using assms
proof (induction sel arbitrary: cmds)
  case Nil
  then show ?case by simp
next
  case (Cons sa rest)
  have sc: "hvacScored sa" and rest: "\<forall>sa\<in>set rest. hvacScored sa" using Cons.prems(1) by simp_all
  show ?case
  proof (cases "asset_id (sa_asset sa) \<in> ctx_previouslyDispatchedAssetIds ctx")
    case False
    with Cons.prems(2) have "maintainLoop ctx (RISK_POSTURE_PARAMS posture) rest = Inr cmds" by simp
    from Cons.IH[OF rest this] show ?thesis .
  next
    case True
    define cap where "cap = getAvailableCapacity (sa_asset sa) (ctx_currentTimestep ctx)"
    from True Cons.prems(2) obtain oc cmds' where
      oc: "createDispatchCommand (sa_asset sa) (cap * 0.5) (RISK_POSTURE_PARAMS posture) 50 = Inr oc"
      and r: "maintainLoop ctx (RISK_POSTURE_PARAMS posture) rest = Inr cmds'"
      and c: "cmds = (case oc of None \<Rightarrow> cmds' | Some c \<Rightarrow> c # cmds')"
      by (auto simp: Let_def cap_def split: sum.splits)
    note ih = Cons.IH[OF rest r]
    show ?thesis
    proof (cases oc)
      case None
      with c ih show ?thesis by simp
    next
      case (Some c')
      have "hvacDeltaOk c'"
      proof (cases "asset_type (sa_asset sa) = hvac_resi")
        case True
        then obtain hv where hv: "sa_asset sa = Hvac hv" by (cases "sa_asset sa") simp_all
        with sc have k: "sa_capacity sa = hvac_kw (params hv)" "0 < hvac_kw (params hv)"
          by (simp_all add: hvacScored_def)
        have "cap = 0 \<or> cap = hvac_kw (params hv)" using hv by (simp add: cap_def)
        then have "0 \<le> cap * 0.5" "cap * 0.5 \<le> sa_capacity sa" using k by auto
        from createDispatchCommand_ok[OF _ sc this, of posture 50 c'] oc Some show ?thesis by simp
      next
        case False
        from createDispatchCommand_other[OF _ False] oc Some show ?thesis by simp
      qed
      with c ih Some show ?thesis by simp
    qed
  qed
qed

lemma scoreAssets_capacity:
  "scoreAssets ctx as = Inr scored \<Longrightarrow>
   \<forall>sa\<in>set scored. sa_capacity sa = getAvailableCapacity (sa_asset sa) (ctx_currentTimestep ctx)"
  by (induction as arbitrary: scored) (auto split: sum.splits)

lemma scoreAssets_assets:
  "scoreAssets ctx as = Inr scored \<Longrightarrow> \<forall>sa\<in>set scored. sa_asset sa \<in> set as"
  by (induction as arbitrary: scored) (auto split: sum.splits)

lemma capacity_hvacScored:
  assumes "sa_capacity sa = getAvailableCapacity (sa_asset sa) t" and "0 < sa_capacity sa"
  shows "hvacScored sa"
  using assms by (cases "sa_asset sa") (auto simp: hvacScored_def split: if_splits)

lemma selectAndOrderAssets_subset:
  assumes "selectAndOrderAssets ctx = Inr sel"
  shows "\<exists>scored. scoreAssets ctx (filter (\<lambda>a. \<not> asset_dropped a) (ctx_assets ctx)) = Inr scored
           \<and> set sel \<subseteq> {sa \<in> set scored. 0 < sa_capacity sa}"
proof -
  from assms obtain scored n where
    sc: "scoreAssets ctx (filter (\<lambda>a. \<not> asset_dropped a) (ctx_assets ctx)) = Inr scored"
    and sel: "sel = filter (\<lambda>sa. asset_id (sa_asset sa) \<in> ctx_previouslyDispatchedAssetIds ctx)
                      (sortByScore (filter (\<lambda>sa. sa_capacity sa > 0) scored))
                  @ take n (filter (\<lambda>sa. asset_id (sa_asset sa) \<notin> ctx_previouslyDispatchedAssetIds ctx)
                      (sortByScore (filter (\<lambda>sa. sa_capacity sa > 0) scored)))"
    unfolding selectAndOrderAssets_def Let_def by (simp split: sum.splits) blast
  have "set sel \<subseteq> set (sortByScore (filter (\<lambda>sa. sa_capacity sa > 0) scored))"
    unfolding sel by (auto dest: in_set_takeD)
  then have "set sel \<subseteq> {sa \<in> set scored. 0 < sa_capacity sa}"
    by (simp add: sortByScore_set)
  with sc show ?thesis by blast
qed

lemma selectAndOrderAssets_hvacScored:
  assumes "selectAndOrderAssets ctx = Inr sel"
  shows "\<forall>sa\<in>set sel. hvacScored sa"
proof -
  from selectAndOrderAssets_subset[OF assms] obtain scored where
    sc: "scoreAssets ctx (filter (\<lambda>a. \<not> asset_dropped a) (ctx_assets ctx)) = Inr scored"
    and sel: "set sel \<subseteq> {sa \<in> set scored. 0 < sa_capacity sa}" by blast
  show ?thesis
  proof
    fix sa assume "sa \<in> set sel"
    with sel have "sa \<in> set scored" "0 < sa_capacity sa" by auto
    with scoreAssets_capacity[OF sc] show "hvacScored sa" by (auto intro: capacity_hvacScored)
  qed
qed

lemma getRiskParams_eq: "getRiskParams p = RISK_POSTURE_PARAMS p"
  by (simp add: getRiskParams_def)

lemma deterministicDispatch_hvac_ok:
  assumes "hvacIntensityOk ctx" and "deterministicDispatch ctx = Inr cmds"
  shows "\<forall>c\<in>set cmds. hvacDeltaOk c"
proof -
  from assms(2) obtain sel where sel: "selectAndOrderAssets ctx = Inr sel"
    by (auto simp: deterministicDispatch_def Let_def split: sum.splits)
  note sc = selectAndOrderAssets_hvacScored[OF sel]
  from assms(2) sel have
    "maintainLoop ctx (RISK_POSTURE_PARAMS (riskPosture (ctx_strategyConfig ctx))) sel = Inr cmds
     \<or> (\<exists>t. dispatchToTarget sel t ctx (RISK_POSTURE_PARAMS (riskPosture (ctx_strategyConfig ctx))) = Inr cmds)"
    by (auto simp: deterministicDispatch_def maintainPreviousDispatch_def getRiskParams_eq Let_def
             split: sum.splits if_splits)
  then show ?thesis
    using maintainLoop_hvac_ok[OF sc] dispatchToTarget_hvac_ok[OF sc assms(1)] by blast
qed

lemma greedyDispatch_hvac_ok:
  assumes "hvacIntensityOk ctx" and "greedyDispatch ctx = Inr cmds"
  shows "\<forall>c\<in>set cmds. hvacDeltaOk c"
proof -
  from assms(2) obtain sel where sel: "selectAndOrderAssets ctx = Inr sel"
    by (auto simp: greedyDispatch_def Let_def split: sum.splits)
  note sc = selectAndOrderAssets_hvacScored[OF sel]
  define rp where "rp = RISK_POSTURE_PARAMS (riskPosture (ctx_strategyConfig ctx))"
  define sel' where "sel' =
     (if frameworkSubtype (ctx_strategyConfig ctx) = max_capacity_now
      then sort_key (\<lambda>sa. - sa_capacity sa) sel
      else if frameworkSubtype (ctx_strategyConfig ctx) = min_risk_now
      then sort_key (\<lambda>sa. estimateDropRisk (sa_asset sa) rp) sel
      else if frameworkSubtype (ctx_strategyConfig ctx) = best_efficiency_now
      then sort_key (\<lambda>sa. - (sa_capacity sa / max 0.1 (calculateComfortCost (sa_asset sa)))) sel
      else sel)"
  have s: "set sel' = set sel" by (simp add: sel'_def)
  from assms(2) sel have
    "dispatchToTarget sel' (adjustTargetForObjective ctx (ctx_targetKw ctx)) ctx
       (RISK_POSTURE_PARAMS (riskPosture (ctx_strategyConfig ctx))) = Inr cmds"
    by (auto simp: greedyDispatch_def getRiskParams_eq Let_def sel'_def rp_def split: if_splits)
  from dispatchToTarget_hvac_ok[OF _ assms(1) this] sc s show ?thesis by simp
qed

lemma feedbackControlDispatch_hvac_ok:
  assumes "hvacIntensityOk ctx" and "feedbackControlDispatch ctx = Inr cmds"
  shows "\<forall>c\<in>set cmds. hvacDeltaOk c"
proof -
  from assms(2) obtain sel where sel: "selectAndOrderAssets ctx = Inr sel"
    by (auto simp: feedbackControlDispatch_def Let_def split: sum.splits)
  note sc = selectAndOrderAssets_hvacScored[OF sel]
  from assms(2) sel obtain t where
    "dispatchToTarget sel t ctx (RISK_POSTURE_PARAMS (riskPosture (ctx_strategyConfig ctx))) = Inr cmds"
    by (simp add: feedbackControlDispatch_def getRiskParams_eq Let_def)
  from dispatchToTarget_hvac_ok[OF sc assms(1) this] show ?thesis .
qed

lemma stochasticDispatch_hvac_ok:
  assumes "hvacIntensityOk ctx" and "stochasticDispatch ctx g = (Inr cmds, g')"
  shows "\<forall>c\<in>set cmds. hvacDeltaOk c"
proof -
  from assms(2) obtain sel where sel: "selectAndOrderAssets ctx = Inr sel"
    by (auto simp: stochasticDispatch_def Let_def split: sum.splits)
  note sc = selectAndOrderAssets_hvacScored[OF sel]
  from assms(2) sel have
    "cmds = [] \<or> (\<exists>t. dispatchToTarget sel t ctx (RISK_POSTURE_PARAMS (riskPosture (ctx_strategyConfig ctx))) = Inr cmds)"
    by (auto simp: stochasticDispatch_def getRiskParams_eq Let_def split: if_splits prod.splits)
  then show ?thesis using dispatchToTarget_hvac_ok[OF sc assms(1)] by auto
qed

lemma executeComposableStrategy_hvac:
  assumes "hvacIntensityOk ctx" and "executeComposableStrategy ctx g = (Inr cmds, g')"
  shows "\<forall>c\<in>set cmds. hvacDeltaOk c"
proof (cases "decisionFramework (ctx_strategyConfig ctx)")
  case deterministic_policy
  with assms(2) have "deterministicDispatch ctx = Inr cmds" by (simp add: executeComposableStrategy_def)
  from deterministicDispatch_hvac_ok[OF assms(1) this] show ?thesis .
next
  case greedy_myopic
  with assms(2) have "greedyDispatch ctx = Inr cmds" by (simp add: executeComposableStrategy_def)
  from greedyDispatch_hvac_ok[OF assms(1) this] show ?thesis .
next
  case stochastic
  with assms(2) have "stochasticDispatch ctx g = (Inr cmds, g')" by (simp add: executeComposableStrategy_def)
  from stochasticDispatch_hvac_ok[OF assms(1) this] show ?thesis .
next
  case feedback_control
  with assms(2) have "feedbackControlDispatch ctx = Inr cmds" by (simp add: executeComposableStrategy_def)
  from feedbackControlDispatch_hvac_ok[OF assms(1) this] show ?thesis .
qed

subsection \<open>The strategies return a command list\<close>

text \<open>
  With a context that has the dispatch intensity the selection returns a list, whatever
  the ordering scores are, and every framework returns a command list (for a context with
  timesteps). Without the dispatch intensity the first asset to score ends the selection,
  and with it the strategy, in the TypeError; when every asset is dropped nothing is scored
  and the selection is empty.
\<close>

lemma createDispatchCommand_total:
  assumes "hvacScored sa" and "0 \<le> t"
  shows "\<exists>oc. createDispatchCommand (sa_asset sa) t rp i = Inr oc"
proof (cases "sa_asset sa")
  case (Hvac h)
  with assms(1) have "hvac_kw (params h) \<noteq> 0" by (simp add: hvacScored_def)
  with Hvac show ?thesis by (simp add: Let_def)
qed (simp_all add: Let_def)

lemma createDispatchCommand_matches:
  assumes "createDispatchCommand a t rp i = Inr (Some c)"
  shows "command_matches a (command c)"
  using assms by (cases a) (auto simp: Let_def split: if_splits)

lemma getCommandContribution_matches:
  assumes "command_matches a (command c)"
  shows "\<not> isl (getCommandContribution a c rp)"
  using assms by (cases a; cases "command c") simp_all

lemma getCommandContribution_total:
  assumes "createDispatchCommand a t rp i = Inr (Some c)"
  shows "\<exists>k. getCommandContribution a c rp = Inr k"
  using getCommandContribution_matches[OF createDispatchCommand_matches[OF assms], of rp]
  by (cases "getCommandContribution a c rp") simp_all

lemma dispatchToTarget_total:
  assumes "\<forall>sa\<in>set sel. hvacScored sa \<and> 0 < sa_capacity sa" and "ctx_dispatchIntensity ctx = Some settings"
  shows "\<exists>cmds. dispatchToTarget sel t ctx rp = Inr cmds"
  using assms(1)
proof (induction sel arbitrary: t)
  case Nil
  then show ?case by simp
next
  case (Cons sa rest)
  show ?case
  proof (cases "t \<le> 0")
    case True
    then show ?thesis by simp
  next
    case False
    define i where "i = (case settings (asset_type (sa_asset sa)) of None \<Rightarrow> 50 | Some i \<Rightarrow> i)"
    have ci: "contextIntensity ctx (asset_type (sa_asset sa)) = Inr i"
      by (simp add: contextIntensity_def assms(2) i_def)
    define amt where "amt = min (sa_capacity sa * (0.5 + (i / 100) * 0.5)) t"
    have sc: "hvacScored sa" "0 < sa_capacity sa"
      and rest: "\<forall>sa\<in>set rest. hvacScored sa \<and> 0 < sa_capacity sa"
      using Cons.prems by simp_all
    have nz: "sa_asset sa = Hvac h \<Longrightarrow> hvac_kw (params h) \<noteq> 0" for h
      using sc(1) by (simp add: hvacScored_def)
    have "\<exists>oc. createDispatchCommand (sa_asset sa) amt rp i = Inr oc"
      by (cases "sa_asset sa") (simp_all add: Let_def nz)
    then obtain oc where oc: "createDispatchCommand (sa_asset sa) amt rp i = Inr oc" by blast
    show ?thesis
    proof (cases oc)
      case None
      from Cons.IH[OF rest, of t] obtain cmds where "dispatchToTarget rest t ctx rp = Inr cmds" by blast
      with False ci oc None show ?thesis by (simp add: Let_def amt_def)
    next
      case (Some c)
      from getCommandContribution_total[of "sa_asset sa" amt rp i c] oc Some
      obtain k where k: "getCommandContribution (sa_asset sa) c rp = Inr k" by auto
      from Cons.IH[OF rest, of "t - k"] obtain cmds where
        "dispatchToTarget rest (t - k) ctx rp = Inr cmds" by blast
      with False ci oc Some k show ?thesis by (simp add: Let_def amt_def)
    qed
  qed
qed

lemma maintainLoop_total:
  assumes "\<forall>sa\<in>set sel. hvacScored sa"
  shows "\<exists>cmds. maintainLoop ctx rp sel = Inr cmds"
  using assms
proof (induction sel)
  case Nil
  then show ?case by simp
next
  case (Cons sa rest)
  from Cons obtain cmds where r: "maintainLoop ctx rp rest = Inr cmds" by auto
  have nz: "sa_asset sa = Hvac h \<Longrightarrow> hvac_kw (params h) \<noteq> 0" for h
    using Cons.prems by (simp add: hvacScored_def)
  have "\<exists>oc. createDispatchCommand (sa_asset sa)
          (getAvailableCapacity (sa_asset sa) (ctx_currentTimestep ctx) * 0.5) rp 50 = Inr oc"
    by (cases "sa_asset sa") (simp_all add: Let_def nz)
  with r show ?case by (auto simp: Let_def)
qed

lemma eventProgress_Fin:
  "0 < ctx_totalTimesteps ctx \<Longrightarrow>
   eventProgress ctx = Fin (real (ctx_currentTimestep ctx) / real (ctx_totalTimesteps ctx))"
  by (simp add: eventProgress_def)

lemma scoreAssets_total:
  assumes "ctx_dispatchIntensity ctx = Some settings"
  shows "\<exists>scored. scoreAssets ctx as = Inr scored"
proof (induction as)
  case Nil
  then show ?case by simp
next
  case (Cons a as)
  then obtain scored where "scoreAssets ctx as = Inr scored" by blast
  then show ?case
    by (simp add: calculateOrderingScore_def contextIntensity_def assms Let_def split: prod.splits)
qed

lemma scoreAssets_TypeError:
  assumes "ctx_dispatchIntensity ctx = None" and "as \<noteq> []"
  shows "scoreAssets ctx as = Inl TypeError"
  using assms by (cases as) (simp_all add: calculateOrderingScore_def contextIntensity_def)

lemma selectAndOrderAssets_total:
  assumes "ctx_dispatchIntensity ctx = Some settings"
  shows "\<exists>sel. selectAndOrderAssets ctx = Inr sel"
proof -
  from scoreAssets_total[OF assms] obtain scored where
    "scoreAssets ctx (filter (\<lambda>a. \<not> asset_dropped a) (ctx_assets ctx)) = Inr scored" by blast
  then show ?thesis by (simp add: selectAndOrderAssets_def Let_def)
qed

lemma selectAndOrderAssets_TypeError:
  assumes "ctx_dispatchIntensity ctx = None"
    and "\<exists>a\<in>set (ctx_assets ctx). \<not> asset_dropped a"
  shows "selectAndOrderAssets ctx = Inl TypeError"
proof -
  from assms(2) have "filter (\<lambda>a. \<not> asset_dropped a) (ctx_assets ctx) \<noteq> []"
    by (simp add: filter_empty_conv)
  from scoreAssets_TypeError[OF assms(1) this]
  have "scoreAssets ctx (filter (\<lambda>a. \<not> asset_dropped a) (ctx_assets ctx)) = Inl TypeError" .
  then show ?thesis by (simp add: selectAndOrderAssets_def)
qed

lemma selectAndOrderAssets_no_live:
  assumes "\<forall>a\<in>set (ctx_assets ctx). asset_dropped a"
  shows "selectAndOrderAssets ctx = Inr []"
proof -
  from assms have "filter (\<lambda>a. \<not> asset_dropped a) (ctx_assets ctx) = []"
    by (simp add: filter_empty_conv)
  then show ?thesis by (simp add: selectAndOrderAssets_def sortByScore_def)
qed

lemma executeComposableStrategy_selection_error:
  assumes "selectAndOrderAssets ctx = Inl err"
  shows "fst (executeComposableStrategy ctx g) = Inl err"
  unfolding executeComposableStrategy_def deterministicDispatch_def greedyDispatch_def
    stochasticDispatch_def feedbackControlDispatch_def Let_def
  by (simp add: assms split: DecisionFramework.splits)

lemma selectAndOrderAssets_positive:
  assumes "selectAndOrderAssets ctx = Inr sel"
  shows "\<forall>sa\<in>set sel. hvacScored sa \<and> 0 < sa_capacity sa"
proof -
  from selectAndOrderAssets_subset[OF assms] have "\<forall>sa\<in>set sel. 0 < sa_capacity sa" by blast
  with selectAndOrderAssets_hvacScored[OF assms] show ?thesis by blast
qed

lemma selectAndOrderAssets_intensity:
  assumes "selectAndOrderAssets ctx = Inr sel" and "sel \<noteq> []"
  shows "\<exists>settings. ctx_dispatchIntensity ctx = Some settings"
proof (rule ccontr)
  assume "\<not> (\<exists>settings. ctx_dispatchIntensity ctx = Some settings)"
  then have n: "ctx_dispatchIntensity ctx = None" by simp
  from selectAndOrderAssets_subset[OF assms(1)] obtain scored where
    sc: "scoreAssets ctx (filter (\<lambda>a. \<not> asset_dropped a) (ctx_assets ctx)) = Inr scored"
    and sub: "set sel \<subseteq> {sa \<in> set scored. 0 < sa_capacity sa}" by blast
  from assms(2) sub have "scored \<noteq> []" by (cases sel) auto
  with sc have "filter (\<lambda>a. \<not> asset_dropped a) (ctx_assets ctx) \<noteq> []" by auto
  from scoreAssets_TypeError[OF n this] sc show False by simp
qed

lemma dispatchToTarget_selected_total:
  assumes "selectAndOrderAssets ctx = Inr sel" and "set sel' = set sel"
  shows "\<exists>cmds. dispatchToTarget sel' t ctx rp = Inr cmds"
proof (cases "sel = []")
  case True
  with assms(2) show ?thesis by simp
next
  case False
  from selectAndOrderAssets_intensity[OF assms(1) False] obtain settings where
    i: "ctx_dispatchIntensity ctx = Some settings" by blast
  from selectAndOrderAssets_positive[OF assms(1)] assms(2)
  have "\<forall>sa\<in>set sel'. hvacScored sa \<and> 0 < sa_capacity sa" by simp
  from dispatchToTarget_total[OF this i] show ?thesis .
qed

lemma executeComposableStrategy_total:
  assumes "selectAndOrderAssets ctx = Inr sel" and "0 < ctx_totalTimesteps ctx"
  shows "\<exists>cmds. fst (executeComposableStrategy ctx g) = Inr cmds"
proof -
  note d = dispatchToTarget_selected_total[OF assms(1)]
  note p = eventProgress_Fin[OF assms(2)]
  from maintainLoop_total[of sel ctx] selectAndOrderAssets_hvacScored[OF assms(1)]
  have m: "\<exists>cmds. maintainLoop ctx rp sel = Inr cmds" for rp by blast
  show ?thesis
  proof (cases "decisionFramework (ctx_strategyConfig ctx)")
    case deterministic_policy
    then show ?thesis
      using d[of sel, OF refl] m
      by (auto simp: executeComposableStrategy_def deterministicDispatch_def assms p
            maintainPreviousDispatch_def Let_def split: option.splits)
  next
    case greedy_myopic
    then show ?thesis
      using d[of "sort_key f sel" for f] d[of sel, OF refl]
      by (auto simp: executeComposableStrategy_def greedyDispatch_def assms Let_def)
  next
    case stochastic
    then show ?thesis
      using d[of sel, OF refl]
      by (auto simp: executeComposableStrategy_def stochasticDispatch_def assms Let_def
            split: prod.splits)
  next
    case feedback_control
    then show ?thesis
      using d[of sel, OF refl]
      by (auto simp: executeComposableStrategy_def feedbackControlDispatch_def assms Let_def)
  qed
qed

subsection \<open>Zero target and zero capacity\<close>

text \<open>
  With a context that has the dispatch intensity, every framework returns the empty
  command list for a target of 0 (when no asset was dispatched before) and when no asset
  has capacity above 0.
\<close>

lemma dispatchToTarget_nonpos:
  "t \<le> 0 \<Longrightarrow> dispatchToTarget sel t ctx rp = Inr []"
  by (cases sel) simp_all

lemma maintainLoop_no_previous:
  "ctx_previouslyDispatchedAssetIds ctx = {} \<Longrightarrow> maintainLoop ctx rp sel = Inr []"
  by (induction sel) simp_all

lemma adjustTargetForObjective_zero: "adjustTargetForObjective ctx 0 = 0"
  by (simp add: adjustTargetForObjective_def Let_def split: ObjectiveFunction.splits)

lemma deterministicDispatch_zero:
  assumes "ctx_targetKw ctx = 0" and "ctx_previouslyDispatchedAssetIds ctx = {}"
    and "selectAndOrderAssets ctx = Inr sel" and "0 < ctx_totalTimesteps ctx"
  shows "deterministicDispatch ctx = Inr []"
  unfolding deterministicDispatch_def Let_def
  by (simp add: assms(1-3) eventProgress_Fin[OF assms(4)] adjustTargetForObjective_zero
        dispatchToTarget_nonpos maintainPreviousDispatch_def maintainLoop_no_previous)

lemma greedyDispatch_zero:
  assumes "ctx_targetKw ctx = 0" and "selectAndOrderAssets ctx = Inr sel"
  shows "greedyDispatch ctx = Inr []"
  unfolding greedyDispatch_def Let_def
  by (simp add: assms adjustTargetForObjective_zero dispatchToTarget_nonpos)

lemma feedbackControlDispatch_zero:
  assumes "ctx_targetKw ctx = 0" and "selectAndOrderAssets ctx = Inr sel"
  shows "feedbackControlDispatch ctx = Inr []"
proof -
  have "max 0 (min x (0 * 2)) \<le> (0 :: real)" for x by simp
  then show ?thesis
    unfolding feedbackControlDispatch_def Let_def
    by (simp add: assms dispatchToTarget_nonpos)
qed

lemma stochasticDispatch_zero:
  assumes "ctx_targetKw ctx = 0" and "selectAndOrderAssets ctx = Inr sel"
  shows "fst (stochasticDispatch ctx g) = Inr []"
  unfolding stochasticDispatch_def Let_def
  by (simp add: assms adjustTargetForObjective_zero dispatchToTarget_nonpos split: prod.splits)

lemma executeComposableStrategy_zero:
  assumes "ctx_targetKw ctx = 0" and "ctx_previouslyDispatchedAssetIds ctx = {}"
    and "selectAndOrderAssets ctx = Inr sel" and "0 < ctx_totalTimesteps ctx"
  shows "fst (executeComposableStrategy ctx g) = Inr []"
  unfolding executeComposableStrategy_def
  by (simp add: deterministicDispatch_zero[OF assms] greedyDispatch_zero[OF assms(1,3)]
        feedbackControlDispatch_zero[OF assms(1,3)] stochasticDispatch_zero[OF assms(1,3)]
        split: DecisionFramework.splits)

lemma zero_target_strategy:
  assumes "ctx_targetKw ctx = 0" and "ctx_previouslyDispatchedAssetIds ctx = {}"
    and "0 < ctx_totalTimesteps ctx" and "ctx_dispatchIntensity ctx = Some settings"
  shows "fst (executeComposableStrategy ctx g) = Inr []"
proof -
  from selectAndOrderAssets_total[OF assms(4)] obtain sel where
    "selectAndOrderAssets ctx = Inr sel" by blast
  from executeComposableStrategy_zero[OF assms(1,2) this assms(3)] show ?thesis .
qed

lemma zero_capacity_strategy:
  assumes "\<forall>a\<in>set (ctx_assets ctx). getAvailableCapacity a (ctx_currentTimestep ctx) \<le> 0"
    and "0 < ctx_totalTimesteps ctx" and "ctx_dispatchIntensity ctx = Some settings"
  shows "fst (executeComposableStrategy ctx g) = Inr []"
proof -
  from selectAndOrderAssets_total[OF assms(3)] obtain sel where
    s: "selectAndOrderAssets ctx = Inr sel" by blast
  from selectAndOrderAssets_subset[OF s] obtain scored where
    sc: "scoreAssets ctx (filter (\<lambda>a. \<not> asset_dropped a) (ctx_assets ctx)) = Inr scored"
    and sub: "set sel \<subseteq> {sa \<in> set scored. 0 < sa_capacity sa}" by blast
  have "{sa \<in> set scored. 0 < sa_capacity sa} = {}"
  proof -
    have "\<not> 0 < sa_capacity sa" if "sa \<in> set scored" for sa
    proof -
      from scoreAssets_assets[OF sc] that have "sa_asset sa \<in> set (ctx_assets ctx)" by auto
      with assms(1) scoreAssets_capacity[OF sc] that show ?thesis by fastforce
    qed
    then show ?thesis by blast
  qed
  with sub have e: "sel = []" by simp
  note p = eventProgress_Fin[OF assms(2)]
  show ?thesis
    unfolding executeComposableStrategy_def deterministicDispatch_def greedyDispatch_def
      stochasticDispatch_def feedbackControlDispatch_def maintainPreviousDispatch_def Let_def
    using s e by (simp add: p split: DecisionFramework.splits prod.splits)
qed

text \<open>
  The engine builds the context of a tick without the dispatch intensity. A tick with an
  asset that is not dropped therefore ends in the TypeError before any command is made;
  only a tick in which every asset is dropped, or there is none, completes.
\<close>

lemma executeComposableStrategy_TypeError:
  assumes "ctx_dispatchIntensity ctx = None"
    and "\<exists>a\<in>set (ctx_assets ctx). \<not> asset_dropped a"
  shows "fst (executeComposableStrategy ctx g) = Inl TypeError"
  using selectAndOrderAssets_TypeError[OF assms]
  by (rule executeComposableStrategy_selection_error)

lemma advanceTimestep_TypeError:
  assumes "current_timestep (eng_state e) < timesteps (scenario_config (scenario (eng_state e)))"
    and "\<exists>a\<in>set (assets (eng_state e)). \<not> asset_dropped a"
  shows "fst (advanceTimestep e g) = Inl TypeError"
proof -
  have "fst (executeComposableStrategy (tickContext e) g) = Inl TypeError"
    using assms by (intro executeComposableStrategy_TypeError) (simp_all add: tickContext_def)
  then have "fst (tickCommands e g) = Inl TypeError" by (simp add: tickCommands_def)
  then show ?thesis using assms(1)
    by (cases "tickCommands e g") (simp add: advanceTimestep_def Let_def)
qed

lemmas strategy_eval =
  newSimulationEngine_def initialState_def initialScores_def DEFAULT_STRATEGY_CONFIG_def
  tickCommands_def tickContext_def tickTarget_def tickAccumulatedError_def
  executeComposableStrategy_def feedbackControlDispatch_def greedyDispatch_def
  selectAndOrderAssets_def sortByScore_def calculateRampUpPercentage_def eventProgress_def
  getRiskParams_def calculateOrderingScore_def contextIntensity_def adjustTargetForObjective_def
  Math_pow_def Math_round_def Let_def

lemmas engine_eval =
  step_def advanceTimestep_def tickAchieved_def tickOutdoorTemp_def tickPhysics_def tickPenalty_def
  commandMapOf_def assetMapOf_def dispatchesByType_def newDispatchCalls_def

text \<open>
  Claim C6. The claim is that a scenario with a target of 0 kW gives the empty command
  list at every tick without an error. On the engine as it is written, the first tick of
  a scenario with a target of 0 kW and one thermostat that is not dropped ends in the
  TypeError of reading \<^verbatim>\<open>context.dispatchIntensity[asset.type]\<close>: no command list is
  returned and no result is recorded.
\<close>

theorem zero_target_tick_throws:
  "tickTarget ex_zero_engine = 0
   \<and> current_timestep (eng_state ex_zero_engine) = 0
   \<and> fst (step ex_zero_engine (sconst (1 / 2))) = Inl TypeError"
  by (simp add: ex_zero_engine_def ex_zero_scenario_def ex_config_def ex_hvac_def strategy_eval
        engine_eval)

subsection \<open>Strategy configurations are not validated\<close>

text \<open>
  \<^verbatim>\<open>isValidSubtypeForFramework\<close> is called neither by the constructor nor by
  \<^verbatim>\<open>updateStrategyConfig\<close>, and nothing looks at the length of the ordering list. With
  an empty list \<^verbatim>\<open>calculateOrderingScore\<close> divides 0 by 0.
\<close>

lemma calculateOrderingScore_empty:
  "ctx_dispatchIntensity ctx = Some settings \<Longrightarrow> calculateOrderingScore a [] ctx = Inr NaN"
  by (simp add: calculateOrderingScore_def contextIntensity_def)

lemma scoreAssets_empty_orderings:
  assumes "selectionOrderings (ctx_strategyConfig ctx) = []"
    and "scoreAssets ctx as = Inr scored"
  shows "\<forall>sa\<in>set scored. sa_score sa = NaN"
  using assms(2)
proof (induction as arbitrary: scored)
  case Nil
  then show ?case by simp
next
  case (Cons a as)
  then show ?case
    by (auto simp: assms(1) calculateOrderingScore_def Let_def split: sum.splits)
qed

lemma empty_orderings_strategy:
  assumes "selectionOrderings (ctx_strategyConfig ctx) = []"
    and "ctx_dispatchIntensity ctx = Some settings" and "0 < ctx_totalTimesteps ctx"
  shows "\<exists>sel cmds. selectAndOrderAssets ctx = Inr sel \<and> (\<forall>sa\<in>set sel. sa_score sa = NaN)
           \<and> fst (executeComposableStrategy ctx g) = Inr cmds"
proof -
  from selectAndOrderAssets_total[OF assms(2)] obtain sel where
    s: "selectAndOrderAssets ctx = Inr sel" by blast
  from selectAndOrderAssets_subset[OF s] obtain scored where
    sc: "scoreAssets ctx (filter (\<lambda>a. \<not> asset_dropped a) (ctx_assets ctx)) = Inr scored"
    and sub: "set sel \<subseteq> {sa \<in> set scored. 0 < sa_capacity sa}" by blast
  from scoreAssets_empty_orderings[OF assms(1) sc] sub
  have "\<forall>sa\<in>set sel. sa_score sa = NaN" by blast
  with s executeComposableStrategy_total[OF s assms(3), of g] show ?thesis by blast
qed

lemma invalid_subtype_default:
  assumes "\<not> isValidSubtypeForFramework (decisionFramework (ctx_strategyConfig ctx))
                (frameworkSubtype (ctx_strategyConfig ctx))"
  shows "fst (executeComposableStrategy ctx g) =
           (case selectAndOrderAssets ctx of
              Inl err \<Rightarrow> Inl err
            | Inr sel \<Rightarrow>
                dispatchToTarget sel
                  (if decisionFramework (ctx_strategyConfig ctx) = feedback_control
                   then max 0 (min (adjustTargetForObjective ctx (ctx_targetKw ctx)) (ctx_targetKw ctx * 2))
                   else adjustTargetForObjective ctx (ctx_targetKw ctx))
                  ctx (getRiskParams (riskPosture (ctx_strategyConfig ctx))))"
proof (cases "decisionFramework (ctx_strategyConfig ctx)")
  case deterministic_policy
  with assms show ?thesis
    by (simp add: executeComposableStrategy_def deterministicDispatch_def Let_def split: sum.splits)
next
  case greedy_myopic
  with assms show ?thesis
    by (simp add: executeComposableStrategy_def greedyDispatch_def Let_def split: sum.splits)
next
  case stochastic
  with assms show ?thesis
    by (simp add: executeComposableStrategy_def stochasticDispatch_def Let_def split: sum.splits)
next
  case feedback_control
  with assms show ?thesis
    by (simp add: executeComposableStrategy_def feedbackControlDispatch_def Let_def
          split: sum.splits option.splits)
qed

text \<open>
  Claim C7, as the code has it. Nothing validates a strategy configuration: the
  constructor stores the configuration it is given, and \<^verbatim>\<open>updateStrategyConfig\<close> stores
  the framework, the subtype and the orderings it is given. With an empty ordering list
  the score of every asset is NaN, when the context has the dispatch intensity; the
  strategy then still selects assets and returns its command list (for a context with
  timesteps). With a subtype that does not belong to the decision framework the framework
  takes none of its subtype branches: the strategy is \<^verbatim>\<open>dispatchToTarget\<close> on the
  selected assets, with the target adjusted for the objective (and clamped between 0 and
  twice the target by the feedback control).
\<close>

theorem configuration_not_validated:
  "eng_strategyConfig (newSimulationEngine sc cfg d) = cfg
   \<and> eng_strategyConfig
        (updateStrategyConfig e
           \<lparr>p_decisionFramework = Some f, p_frameworkSubtype = Some s, p_objective = None,
            p_selectionOrderings = Some os, p_riskPosture = None, p_feedbackMode = None\<rparr>)
       = (eng_strategyConfig e)\<lparr>decisionFramework := f, frameworkSubtype := s, selectionOrderings := os\<rparr>
   \<and> (ctx_dispatchIntensity ctx = Some settings \<longrightarrow> calculateOrderingScore a [] ctx = Inr NaN)
   \<and> (selectionOrderings (ctx_strategyConfig ctx) = [] \<and> ctx_dispatchIntensity ctx = Some settings
        \<and> 0 < ctx_totalTimesteps ctx
        \<longrightarrow> (\<exists>sel cmds. selectAndOrderAssets ctx = Inr sel \<and> (\<forall>sa\<in>set sel. sa_score sa = NaN)
                \<and> fst (executeComposableStrategy ctx g) = Inr cmds))
   \<and> (\<not> isValidSubtypeForFramework (decisionFramework (ctx_strategyConfig ctx))
            (frameworkSubtype (ctx_strategyConfig ctx))
        \<longrightarrow> fst (executeComposableStrategy ctx g) =
              (case selectAndOrderAssets ctx of
                 Inl err \<Rightarrow> Inl err
               | Inr sel \<Rightarrow>
                   dispatchToTarget sel
                     (if decisionFramework (ctx_strategyConfig ctx) = feedback_control
                      then max 0 (min (adjustTargetForObjective ctx (ctx_targetKw ctx)) (ctx_targetKw ctx * 2))
                      else adjustTargetForObjective ctx (ctx_targetKw ctx))
                     ctx (getRiskParams (riskPosture (ctx_strategyConfig ctx)))))"
proof -
  have "eng_strategyConfig
        (updateStrategyConfig e
           \<lparr>p_decisionFramework = Some f, p_frameworkSubtype = Some s, p_objective = None,
            p_selectionOrderings = Some os, p_riskPosture = None, p_feedbackMode = None\<rparr>)
       = (eng_strategyConfig e)\<lparr>decisionFramework := f, frameworkSubtype := s, selectionOrderings := os\<rparr>"
    by (cases "eng_strategyConfig e") (simp add: updateStrategyConfig_def Let_def)
  moreover have "eng_strategyConfig (newSimulationEngine sc cfg d) = cfg"
    by (simp add: newSimulationEngine_def)
  ultimately show ?thesis
    using calculateOrderingScore_empty[of ctx settings a] empty_orderings_strategy[of ctx settings g]
      invalid_subtype_default[of ctx g]
    by blast
qed

lemma ex_unordered_strategy:
  "fst (executeComposableStrategy (ex_context [Battery ex_battery] ex_unordered_config) (sconst (1 / 2)))
     = Inr [\<lparr>asset_id_of = ''bat_1'', command = BatteryCommand (15 / 4)\<rparr>]"
  by (simp add: ex_context_def ex_unordered_config_def ex_battery_def ex_config_def strategy_eval)

lemma ex_mismatched_strategy:
  "fst (executeComposableStrategy (ex_context [Battery ex_battery] ex_mismatched_config) (sconst (1 / 2)))
     = Inr [\<lparr>asset_id_of = ''bat_1'', command = BatteryCommand (15 / 4)\<rparr>]"
  by (simp add: ex_context_def ex_mismatched_config_def ex_battery_def ex_config_def strategy_eval)

theorem configuration_not_validated_witness:
  "eng_strategyConfig ex_unordered_engine = ex_unordered_config
   \<and> calculateOrderingScore (Battery ex_battery) []
        (ex_context [Battery ex_battery] ex_unordered_config) = Inr NaN
   \<and> (\<exists>sel cmds. selectAndOrderAssets (ex_context [Battery ex_battery] ex_unordered_config) = Inr sel
         \<and> list_all (\<lambda>sa. sa_score sa = NaN) sel
         \<and> fst (executeComposableStrategy (ex_context [Battery ex_battery] ex_unordered_config)
                  (sconst (1 / 2))) = Inr cmds)
   \<and> fst (executeComposableStrategy (ex_context [Battery ex_battery] ex_mismatched_config) (sconst (1 / 2)))
       = Inr [\<lparr>asset_id_of = ''bat_1'', command = BatteryCommand (15 / 4)\<rparr>]"
proof -
  define c1 where "c1 = ex_context [Battery ex_battery] ex_unordered_config"
  define c2 where "c2 = ex_context [Battery ex_battery] ex_mismatched_config"
  have h1: "ctx_dispatchIntensity c1 = Some (\<lambda>ty. Some 50)"
    "selectionOrderings (ctx_strategyConfig c1) = []" "0 < ctx_totalTimesteps c1"
    by (simp_all add: c1_def ex_context_def ex_unordered_config_def)
  note t1 = configuration_not_validated[of ex_empty_scenario ex_unordered_config medium
      ex_empty_engine greedy_myopic pid_like_control "[]" c1 "\<lambda>ty. Some 50" "Battery ex_battery"
      "sconst (1 / 2)"]
  from t1 h1 have 1: "eng_strategyConfig (newSimulationEngine ex_empty_scenario ex_unordered_config medium)
      = ex_unordered_config"
    and 2: "calculateOrderingScore (Battery ex_battery) [] c1 = Inr NaN"
    and 3: "\<exists>sel cmds. selectAndOrderAssets c1 = Inr sel \<and> (\<forall>sa\<in>set sel. sa_score sa = NaN)
         \<and> fst (executeComposableStrategy c1 (sconst (1 / 2))) = Inr cmds"
    by blast+
  have h2: "\<not> isValidSubtypeForFramework (decisionFramework (ctx_strategyConfig c2))
        (frameworkSubtype (ctx_strategyConfig c2))"
    by (simp add: c2_def ex_context_def ex_mismatched_config_def)
  note t2 = configuration_not_validated[of ex_empty_scenario ex_mismatched_config medium
      ex_empty_engine greedy_myopic pid_like_control "[]" c2 "\<lambda>ty. Some 50" "Battery ex_battery"
      "sconst (1 / 2)"]
  from t2 h2 have "fst (executeComposableStrategy c2 (sconst (1 / 2))) =
              (case selectAndOrderAssets c2 of
                 Inl err \<Rightarrow> Inl err
               | Inr sel \<Rightarrow>
                   dispatchToTarget sel
                     (if decisionFramework (ctx_strategyConfig c2) = feedback_control
                      then max 0 (min (adjustTargetForObjective c2 (ctx_targetKw c2)) (ctx_targetKw c2 * 2))
                      else adjustTargetForObjective c2 (ctx_targetKw c2))
                     c2 (getRiskParams (riskPosture (ctx_strategyConfig c2))))"
    by blast
  also have "\<dots> = Inr [\<lparr>asset_id_of = ''bat_1'', command = BatteryCommand (15 / 4)\<rparr>]"
    by (simp add: c2_def ex_context_def ex_mismatched_config_def ex_battery_def ex_config_def
          strategy_eval)
  finally have 4: "fst (executeComposableStrategy c2 (sconst (1 / 2)))
       = Inr [\<lparr>asset_id_of = ''bat_1'', command = BatteryCommand (15 / 4)\<rparr>]" .
  from 1 2 3 4 show ?thesis
    unfolding c1_def c2_def by (simp add: ex_unordered_engine_def list_all_iff)
qed

lemma ex_mismatched_engine_tick:
  "\<exists>e g1. step ex_mismatched_engine (sconst (1 / 2)) = (Inr e, g1)
     \<and> current_timestep (eng_state e) = 1 \<and> length (history (eng_state e)) = 1
     \<and> eng_strategyConfig e = ex_mismatched_config"
  by (simp add: ex_mismatched_engine_def ex_mismatched_config_def ex_empty_scenario_def ex_config_def
        strategy_eval engine_eval)

lemma ex_unordered_engine_tick:
  "\<exists>e g1. step ex_unordered_engine (sconst (1 / 2)) = (Inr e, g1)
     \<and> current_timestep (eng_state e) = 1 \<and> length (history (eng_state e)) = 1
     \<and> eng_strategyConfig e = ex_unordered_config"
  by (simp add: ex_unordered_engine_def ex_unordered_config_def ex_empty_scenario_def ex_config_def
        strategy_eval engine_eval)

text \<open>
  An engine constructed with the framework \<open>greedy_myopic\<close> and the subtype
  \<open>pid_like_control\<close>, and an engine constructed with an empty ordering list, both over a
  scenario without assets, are not rejected and complete their first tick. With the empty
  ordering list the score of a battery is NaN during the strategy, which returns a battery
  command.
\<close>

theorem invalid_configuration_counterexample:
  "\<not> isValidSubtypeForFramework (decisionFramework ex_mismatched_config)
        (frameworkSubtype ex_mismatched_config)
   \<and> eng_strategyConfig ex_mismatched_engine = ex_mismatched_config
   \<and> \<not> isl (fst (step ex_mismatched_engine (sconst (1 / 2))))
   \<and> current_timestep (eng_state (projr (fst (step ex_mismatched_engine (sconst (1 / 2)))))) = 1
   \<and> eng_strategyConfig (projr (fst (step ex_mismatched_engine (sconst (1 / 2))))) = ex_mismatched_config
   \<and> selectionOrderings (eng_strategyConfig ex_unordered_engine) = []
   \<and> \<not> isl (fst (step ex_unordered_engine (sconst (1 / 2))))
   \<and> current_timestep (eng_state (projr (fst (step ex_unordered_engine (sconst (1 / 2)))))) = 1
   \<and> calculateOrderingScore (Battery ex_battery) []
        (ex_context [Battery ex_battery] ex_unordered_config) = Inr NaN
   \<and> fst (executeComposableStrategy (ex_context [Battery ex_battery] ex_unordered_config) (sconst (1 / 2)))
       = Inr [\<lparr>asset_id_of = ''bat_1'', command = BatteryCommand (15 / 4)\<rparr>]"
proof -
  have 1: "\<not> isValidSubtypeForFramework (decisionFramework ex_mismatched_config)
        (frameworkSubtype ex_mismatched_config)"
    by (simp add: ex_mismatched_config_def)
  have 2: "eng_strategyConfig ex_mismatched_engine = ex_mismatched_config"
    "selectionOrderings (eng_strategyConfig ex_unordered_engine) = []"
    by (simp_all add: ex_mismatched_engine_def ex_unordered_engine_def ex_unordered_config_def
          newSimulationEngine_def)
  from ex_mismatched_engine_tick obtain e g1 where
    3: "step ex_mismatched_engine (sconst (1 / 2)) = (Inr e, g1)"
       "current_timestep (eng_state e) = 1" "eng_strategyConfig e = ex_mismatched_config" by blast
  from ex_unordered_engine_tick obtain e' g1' where
    4: "step ex_unordered_engine (sconst (1 / 2)) = (Inr e', g1')"
       "current_timestep (eng_state e') = 1" by blast
  have 5: "calculateOrderingScore (Battery ex_battery) []
        (ex_context [Battery ex_battery] ex_unordered_config) = Inr NaN"
    by (simp add: calculateOrderingScore_def contextIntensity_def ex_context_def)
  from 1 2 3 4 5 ex_unordered_strategy show ?thesis by simp
qed

section \<open>Properties of the simulation engine\<close>

subsection \<open>The penalty of a tick\<close>







text \<open>
  For a target of 100 kW at exponent 2, the penalty of 80 kW achieved is
  \<open>(20 / 100.001)\<^sup>2\<close> and is recorded as 0.04; the penalty of 120 kW achieved, with the
  ratio 0.5, is half of that and is recorded as 0.02.
\<close>

lemma tickPenalty_examples:
  "tickPenalty medium 100 80 = Inr ((20 / 100.001)\<^sup>2)"
  "Math_round ((20 / 100.001)\<^sup>2 * 10000) / 10000 = 0.04"
  "tickPenalty medium 100 120 = Inr (0.5 * (20 / 100.001)\<^sup>2)"
  "Math_round (0.5 * (20 / 100.001)\<^sup>2 * 10000) / 10000 = 0.02"
     apply (simp add: tickPenalty_def Math_pow_def)
    apply (simp add: Math_round_def power2_eq_square floor_eq_iff)
   apply (simp add: tickPenalty_def Math_pow_def)
  apply (simp add: Math_round_def power2_eq_square floor_eq_iff)
  done




subsection \<open>Reset and the random draws\<close>









end
